(* ===== verification/Prelude.thy ===== *)
theory Prelude
  imports Main "HOL-Library.AList"
begin

text \<open>
  Shared vocabulary of the development: the parts of the JavaScript standard library that the
  lint rules use on arrays, \<open>Map\<close> and optional values, with the lemmas the component theories
  share. A \<open>Map\<close> is an association list read with \<open>map_of\<close>; \<open>undefined\<close> and \<open>null\<close> are
  \<open>None\<close>. A computation that may fail to return carries fuel and answers \<open>None\<close> when the
  fuel runs out; \<open>refines\<close> orders such computations by definedness.
\<close>

named_theorems js_simps "equations of the JavaScript library operations"

section \<open>Optional values and maps\<close>

definition nullish :: "'a option \<Rightarrow> 'a \<Rightarrow> 'a" where
  "nullish x d = (case x of None \<Rightarrow> d | Some v \<Rightarrow> v)"

lemma nullish_simps [simp, js_simps]: "nullish None d = d" "nullish (Some v) d = v"
  by (simp_all add: nullish_def)

definition at :: "'a list \<Rightarrow> nat \<Rightarrow> 'a option" where
  "at xs i = (if i < length xs then Some (xs ! i) else None)"

lemma at_simps [simp, js_simps]:
  "at [] i = None" "at (x # xs) 0 = Some x" "at (x # xs) (Suc i) = at xs i"
  by (auto simp: at_def)

lemma at_in_set: "at xs i = Some x \<Longrightarrow> x \<in> set xs"
  by (auto simp: at_def split: if_splits)

type_synonym ('k, 'v) js_map = "('k \<times> 'v) list"

abbreviation get :: "('k, 'v) js_map \<Rightarrow> 'k \<Rightarrow> 'v option" where
  "get m k \<equiv> map_of m k"

abbreviation put :: "'k \<Rightarrow> 'v \<Rightarrow> ('k, 'v) js_map \<Rightarrow> ('k, 'v) js_map" where
  "put k v m \<equiv> AList.update k v m"

lemma get_put [simp, js_simps]: "get (put k v m) k' = (if k' = k then Some v else get m k')"
  by (simp add: AList.update_conv')

lemma put_list_all: "list_all P m \<Longrightarrow> P (k, v) \<Longrightarrow> list_all P (put k v m)"
  by (induction m) auto

text \<open>The first result in an array, as the \<open>for\<close> loops with an early return compute it.\<close>

fun first_some :: "('a \<Rightarrow> 'b option) \<Rightarrow> 'a list \<Rightarrow> 'b option" where
  "first_some f [] = None"
| "first_some f (x # xs) = (case f x of Some y \<Rightarrow> Some y | None \<Rightarrow> first_some f xs)"

lemma first_some_None: "first_some f xs = None \<longleftrightarrow> (\<forall>x \<in> set xs. f x = None)"
  by (induction xs) (auto split: option.splits)

section \<open>Array searches whose callback may run out of fuel\<close>

text \<open>\<open>xs.some(f)\<close>, left to right, stopping at the first success.\<close>

fun some_m :: "('a \<Rightarrow> bool option) \<Rightarrow> 'a list \<Rightarrow> bool option" where
  "some_m f [] = Some False"
| "some_m f (x # xs) =
     (case f x of None \<Rightarrow> None | Some True \<Rightarrow> Some True | Some False \<Rightarrow> some_m f xs)"

text \<open>\<open>xs.map(f)\<close>.\<close>

fun map_m :: "('a \<Rightarrow> 'b option) \<Rightarrow> 'a list \<Rightarrow> 'b list option" where
  "map_m f [] = Some []"
| "map_m f (x # xs) =
     (case f x of None \<Rightarrow> None | Some y \<Rightarrow> map_option ((#) y) (map_m f xs))"

definition refines :: "('a \<Rightarrow> 'b option) \<Rightarrow> ('a \<Rightarrow> 'b option) \<Rightarrow> bool" where
  "refines f g \<longleftrightarrow> (\<forall>x y. f x = Some y \<longrightarrow> g x = Some y)"

lemma refinesD: "refines f g \<Longrightarrow> f x = Some y \<Longrightarrow> g x = Some y"
  by (simp add: refines_def)

lemma some_m_mono: "refines f g \<Longrightarrow> some_m f xs = Some b \<Longrightarrow> some_m g xs = Some b"
  by (induction xs) (auto simp: refines_def split: option.splits bool.splits)

lemma some_m_defined: "(\<And>x. x \<in> set xs \<Longrightarrow> f x \<noteq> None) \<Longrightarrow> some_m f xs \<noteq> None"
  by (induction xs) (auto split: option.splits bool.splits)

lemma some_m_True: "some_m f xs = Some True \<Longrightarrow> \<exists>x \<in> set xs. f x = Some True"
  by (induction xs) (auto split: option.splits bool.splits)

lemma some_m_False: "some_m f xs = Some False \<longleftrightarrow> (\<forall>x \<in> set xs. f x = Some False)"
  by (induction xs) (auto split: option.splits bool.splits)

lemma some_m_total: "some_m (\<lambda>x. Some (p x)) xs = Some (list_ex p xs)"
  by (induction xs) (auto split: bool.split)

lemma map_m_mono: "refines f g \<Longrightarrow> map_m f xs = Some ys \<Longrightarrow> map_m g xs = Some ys"
  by (induction xs arbitrary: ys) (auto simp: refines_def split: option.splits)

lemma map_m_defined: "(\<And>x. x \<in> set xs \<Longrightarrow> f x \<noteq> None) \<Longrightarrow> map_m f xs \<noteq> None"
  by (induction xs) (auto split: option.splits)

lemma map_m_Some: "map_m f xs = Some ys \<longleftrightarrow> list_all2 (\<lambda>x y. f x = Some y) xs ys"
  by (induction xs arbitrary: ys) (auto split: option.splits simp: list_all2_Cons1)

section \<open>Finite search spaces\<close>

text \<open>
  A search that marks what it has visited ends because the unvisited part of a finite universe
  shrinks; the termination proofs of the visited-set recursions all use this measure.
\<close>

lemma card_unvisited_less [intro]:
  "finite U \<Longrightarrow> v \<in> U \<Longrightarrow> v \<notin> V \<Longrightarrow> card (U - insert v V) < card (U - V)"
  by (metis Diff_iff Diff_insert card_Diff1_less finite_Diff)

end
