(* ===== verification/Estree.thy ===== *)
theory Estree
  imports Prelude
begin

text \<open>
  The syntax trees the rules inspect. The rules read ESTree objects: a node has a \<open>type\<close>, a source
  range, and fields that hold further nodes. The node kinds are grouped into types, auxiliary type
  nodes, expressions, patterns and statements; an abbreviation with the ESTree name stands for each
  kind, so that definitions match on \<open>TSUnionType i ts\<close> as the code matches on
  \<open>type.type === "TSUnionType"\<close>. Kinds no rule distinguishes are \<open>OtherNode\<close>, with
  their \<open>type\<close> string and their fields. Object identity (\<open>===\<close>) is equality of \<open>nid\<close>. The
  \<open>parent\<close> pointer is modelled by a location: a node with its ancestors, nearest first.
\<close>

section \<open>Nodes\<close>

record node_info =
  nid :: nat
  start :: nat
  stop :: nat
  start_line :: nat
  end_line :: nat

datatype keyword_type =
    TSAnyKeyword | TSBigIntKeyword | TSBooleanKeyword | TSIntrinsicKeyword | TSNeverKeyword
  | TSNullKeyword | TSNumberKeyword | TSObjectKeyword | TSStringKeyword | TSSymbolKeyword
  | TSUndefinedKeyword | TSUnknownKeyword | TSVoidKeyword

datatype signature_kind =
    TSCallSignatureDeclaration | TSConstructSignatureDeclaration | TSMethodSignature
  | TSFunctionType | TSConstructorType

datatype function_kind =
    FunctionDeclaration | FunctionExpression | TSDeclareFunction | TSEmptyBodyFunctionExpression

datatype class_kind = ClassDeclaration | ClassExpression

datatype pattern_kind = ObjectPattern | ArrayPattern

datatype literal_value =
    StringValue string
  | NumberValue string \<comment> \<open>a number, by its decimal text\<close>
  | OtherValue string \<comment> \<open>boolean, null, bigint or regular expression, by its text\<close>

datatype (plugins only: code size) 'n type_form =
    KeywordT keyword_type
  | ParenthesizedT 'n
  | OperatorT string 'n
  | ArrayT 'n
  | TupleT "'n list"
  | UnionT "'n list"
  | IntersectionT "'n list"
  | ReferenceT 'n "'n option"
  | LiteralT "'n list"
  | MappedT 'n 'n "'n option" "'n option"
  | ConditionalT 'n 'n 'n 'n
  | InferT 'n
  | PredicateT 'n "'n option"
  | SignatureT signature_kind "'n option" "'n option" "'n list" "'n option"

datatype (plugins only: code size) 'n annex_form =
    AnnotationA 'n
  | InstantiationA "'n list"
  | ParametersA "'n list"
  | ParameterA 'n "'n option" "'n option"
  | PropertyA bool bool 'n "'n option"
  | IndexA "'n list" "'n option"
  | InterfaceBodyA "'n list"

datatype (plugins only: code size) 'n expr_form =
    IdentifierE string "'n option"
  | PrivateIdentifierE string
  | JSXIdentifierE string
  | LiteralE literal_value
  | TemplateE "'n list" "'n list"
  | ParenthesizedE 'n
  | ChainE 'n
  | AsE 'n 'n
  | AssertionE 'n 'n
  | SatisfiesE 'n 'n
  | NonNullE 'n
  | ArrayE "'n option list"
  | ObjectE "'n list"
  | SpreadE 'n
  | UnaryE string 'n
  | BinaryE string 'n 'n
  | ConditionalE 'n 'n 'n
  | AssignmentE string 'n 'n
  | CallE 'n "'n option" "'n list"
  | NewE 'n "'n list"
  | MemberE bool 'n 'n
  | SequenceE "'n list"
  | FunctionE function_kind "'n option" "'n option" "'n list" "'n option" "'n option"
  | ArrowE "'n option" "'n list" "'n option" 'n
  | ClassE class_kind "'n option" "'n option" "'n option" 'n

datatype (plugins only: code size) 'n pattern_form =
    AssignmentP 'n 'n "'n option"
  | RestP 'n "'n option"
  | ParameterPropertyP 'n
  | BindingP pattern_kind "'n list" "'n option"
  | PropertyP bool 'n 'n
  | PropertyDefinitionP bool 'n "'n option" "'n option"
  | AccessorP bool 'n "'n option" "'n option"
  | MethodP bool 'n 'n

datatype (plugins only: code size) 'n statement_form =
    ProgramS "'n list"
  | BlockS "'n list"
  | StaticBlockS "'n list"
  | ModuleBlockS "'n list"
  | ExpressionS 'n
  | VariablesS string "'n list"
  | DeclaratorS 'n "'n option"
  | ReturnS "'n option"
  | SwitchS 'n "'n list"
  | CaseS "'n option" "'n list"
  | DoWhileS 'n 'n
  | LabeledS 'n 'n
  | ImportS 'n "'n list"
  | ImportSpecifierS 'n 'n
  | ImportDefaultS 'n
  | ImportNamespaceS 'n
  | ExportNamedS "'n option" "'n list" "'n option"
  | ExportDefaultS 'n
  | TypeAliasS 'n "'n option" 'n
  | InterfaceS 'n "'n option" "'n list" 'n
  | EnumS 'n 'n

datatype 'n form =
    TypeForm "'n type_form"
  | AnnexForm "'n annex_form"
  | ExprForm "'n expr_form"
  | PatternForm "'n pattern_form"
  | StatementForm "'n statement_form"
  | OtherForm string "(string \<times> 'n option list) list"

datatype (plugins only: code size) node = Node (info: node_info) (form: "node form")


text \<open>The ESTree names of the node kinds.\<close>

abbreviation TSKeyword where "TSKeyword i a \<equiv> Node i (TypeForm (KeywordT a))"
abbreviation TSParenthesizedType where "TSParenthesizedType i a \<equiv> Node i (TypeForm (ParenthesizedT a))"
abbreviation TSTypeOperator where "TSTypeOperator i a b \<equiv> Node i (TypeForm (OperatorT a b))"
abbreviation TSArrayType where "TSArrayType i a \<equiv> Node i (TypeForm (ArrayT a))"
abbreviation TSTupleType where "TSTupleType i a \<equiv> Node i (TypeForm (TupleT a))"
abbreviation TSUnionType where "TSUnionType i a \<equiv> Node i (TypeForm (UnionT a))"
abbreviation TSIntersectionType where "TSIntersectionType i a \<equiv> Node i (TypeForm (IntersectionT a))"
abbreviation TSTypeReference where "TSTypeReference i a b \<equiv> Node i (TypeForm (ReferenceT a b))"
abbreviation TSTypeLiteral where "TSTypeLiteral i a \<equiv> Node i (TypeForm (LiteralT a))"
abbreviation TSMappedType where "TSMappedType i a b c d \<equiv> Node i (TypeForm (MappedT a b c d))"
abbreviation TSConditionalType where "TSConditionalType i a b c d \<equiv> Node i (TypeForm (ConditionalT a b c d))"
abbreviation TSInferType where "TSInferType i a \<equiv> Node i (TypeForm (InferT a))"
abbreviation TSTypePredicate where "TSTypePredicate i a b \<equiv> Node i (TypeForm (PredicateT a b))"
abbreviation TSSignature where "TSSignature i a b c d e \<equiv> Node i (TypeForm (SignatureT a b c d e))"
abbreviation TSTypeAnnotation where "TSTypeAnnotation i a \<equiv> Node i (AnnexForm (AnnotationA a))"
abbreviation TSTypeParameterInstantiation where "TSTypeParameterInstantiation i a \<equiv> Node i (AnnexForm (InstantiationA a))"
abbreviation TSTypeParameterDeclaration where "TSTypeParameterDeclaration i a \<equiv> Node i (AnnexForm (ParametersA a))"
abbreviation TSTypeParameter where "TSTypeParameter i a b c \<equiv> Node i (AnnexForm (ParameterA a b c))"
abbreviation TSPropertySignature where "TSPropertySignature i a b c d \<equiv> Node i (AnnexForm (PropertyA a b c d))"
abbreviation TSIndexSignature where "TSIndexSignature i a b \<equiv> Node i (AnnexForm (IndexA a b))"
abbreviation TSInterfaceBody where "TSInterfaceBody i a \<equiv> Node i (AnnexForm (InterfaceBodyA a))"
abbreviation Identifier where "Identifier i a b \<equiv> Node i (ExprForm (IdentifierE a b))"
abbreviation PrivateIdentifier where "PrivateIdentifier i a \<equiv> Node i (ExprForm (PrivateIdentifierE a))"
abbreviation JSXIdentifier where "JSXIdentifier i a \<equiv> Node i (ExprForm (JSXIdentifierE a))"
abbreviation Literal where "Literal i a \<equiv> Node i (ExprForm (LiteralE a))"
abbreviation TemplateLiteral where "TemplateLiteral i a b \<equiv> Node i (ExprForm (TemplateE a b))"
abbreviation ParenthesizedExpression where "ParenthesizedExpression i a \<equiv> Node i (ExprForm (ParenthesizedE a))"
abbreviation ChainExpression where "ChainExpression i a \<equiv> Node i (ExprForm (ChainE a))"
abbreviation TSAsExpression where "TSAsExpression i a b \<equiv> Node i (ExprForm (AsE a b))"
abbreviation TSTypeAssertion where "TSTypeAssertion i a b \<equiv> Node i (ExprForm (AssertionE a b))"
abbreviation TSSatisfiesExpression where "TSSatisfiesExpression i a b \<equiv> Node i (ExprForm (SatisfiesE a b))"
abbreviation TSNonNullExpression where "TSNonNullExpression i a \<equiv> Node i (ExprForm (NonNullE a))"
abbreviation ArrayExpression where "ArrayExpression i a \<equiv> Node i (ExprForm (ArrayE a))"
abbreviation ObjectExpression where "ObjectExpression i a \<equiv> Node i (ExprForm (ObjectE a))"
abbreviation SpreadElement where "SpreadElement i a \<equiv> Node i (ExprForm (SpreadE a))"
abbreviation UnaryExpression where "UnaryExpression i a b \<equiv> Node i (ExprForm (UnaryE a b))"
abbreviation BinaryExpression where "BinaryExpression i a b c \<equiv> Node i (ExprForm (BinaryE a b c))"
abbreviation ConditionalExpression where "ConditionalExpression i a b c \<equiv> Node i (ExprForm (ConditionalE a b c))"
abbreviation AssignmentExpression where "AssignmentExpression i a b c \<equiv> Node i (ExprForm (AssignmentE a b c))"
abbreviation CallExpression where "CallExpression i a b c \<equiv> Node i (ExprForm (CallE a b c))"
abbreviation NewExpression where "NewExpression i a b \<equiv> Node i (ExprForm (NewE a b))"
abbreviation MemberExpression where "MemberExpression i a b c \<equiv> Node i (ExprForm (MemberE a b c))"
abbreviation SequenceExpression where "SequenceExpression i a \<equiv> Node i (ExprForm (SequenceE a))"
abbreviation Function where "Function i a b c d e f \<equiv> Node i (ExprForm (FunctionE a b c d e f))"
abbreviation ArrowFunctionExpression where "ArrowFunctionExpression i a b c d \<equiv> Node i (ExprForm (ArrowE a b c d))"
abbreviation Class where "Class i a b c d e \<equiv> Node i (ExprForm (ClassE a b c d e))"
abbreviation AssignmentPattern where "AssignmentPattern i a b c \<equiv> Node i (PatternForm (AssignmentP a b c))"
abbreviation RestElement where "RestElement i a b \<equiv> Node i (PatternForm (RestP a b))"
abbreviation TSParameterProperty where "TSParameterProperty i a \<equiv> Node i (PatternForm (ParameterPropertyP a))"
abbreviation BindingPattern where "BindingPattern i a b c \<equiv> Node i (PatternForm (BindingP a b c))"
abbreviation Property where "Property i a b c \<equiv> Node i (PatternForm (PropertyP a b c))"
abbreviation PropertyDefinition where "PropertyDefinition i a b c d \<equiv> Node i (PatternForm (PropertyDefinitionP a b c d))"
abbreviation AccessorProperty where "AccessorProperty i a b c d \<equiv> Node i (PatternForm (AccessorP a b c d))"
abbreviation MethodDefinition where "MethodDefinition i a b c \<equiv> Node i (PatternForm (MethodP a b c))"
abbreviation Program where "Program i a \<equiv> Node i (StatementForm (ProgramS a))"
abbreviation BlockStatement where "BlockStatement i a \<equiv> Node i (StatementForm (BlockS a))"
abbreviation StaticBlock where "StaticBlock i a \<equiv> Node i (StatementForm (StaticBlockS a))"
abbreviation TSModuleBlock where "TSModuleBlock i a \<equiv> Node i (StatementForm (ModuleBlockS a))"
abbreviation ExpressionStatement where "ExpressionStatement i a \<equiv> Node i (StatementForm (ExpressionS a))"
abbreviation VariableDeclaration where "VariableDeclaration i a b \<equiv> Node i (StatementForm (VariablesS a b))"
abbreviation VariableDeclarator where "VariableDeclarator i a b \<equiv> Node i (StatementForm (DeclaratorS a b))"
abbreviation ReturnStatement where "ReturnStatement i a \<equiv> Node i (StatementForm (ReturnS a))"
abbreviation SwitchStatement where "SwitchStatement i a b \<equiv> Node i (StatementForm (SwitchS a b))"
abbreviation SwitchCase where "SwitchCase i a b \<equiv> Node i (StatementForm (CaseS a b))"
abbreviation DoWhileStatement where "DoWhileStatement i a b \<equiv> Node i (StatementForm (DoWhileS a b))"
abbreviation LabeledStatement where "LabeledStatement i a b \<equiv> Node i (StatementForm (LabeledS a b))"
abbreviation ImportDeclaration where "ImportDeclaration i a b \<equiv> Node i (StatementForm (ImportS a b))"
abbreviation ImportSpecifier where "ImportSpecifier i a b \<equiv> Node i (StatementForm (ImportSpecifierS a b))"
abbreviation ImportDefaultSpecifier where "ImportDefaultSpecifier i a \<equiv> Node i (StatementForm (ImportDefaultS a))"
abbreviation ImportNamespaceSpecifier where "ImportNamespaceSpecifier i a \<equiv> Node i (StatementForm (ImportNamespaceS a))"
abbreviation ExportNamedDeclaration where "ExportNamedDeclaration i a b c \<equiv> Node i (StatementForm (ExportNamedS a b c))"
abbreviation ExportDefaultDeclaration where "ExportDefaultDeclaration i a \<equiv> Node i (StatementForm (ExportDefaultS a))"
abbreviation TSTypeAliasDeclaration where "TSTypeAliasDeclaration i a b c \<equiv> Node i (StatementForm (TypeAliasS a b c))"
abbreviation TSInterfaceDeclaration where "TSInterfaceDeclaration i a b c d \<equiv> Node i (StatementForm (InterfaceS a b c d))"
abbreviation TSEnumDeclaration where "TSEnumDeclaration i a b \<equiv> Node i (StatementForm (EnumS a b))"
abbreviation OtherNode where "OtherNode i a b \<equiv> Node i (OtherForm a b)"


section \<open>The type string of a node\<close>

definition keyword_name :: "keyword_type \<Rightarrow> string" where
  "keyword_name k = (case k of
     TSAnyKeyword \<Rightarrow> ''TSAnyKeyword'' | TSBigIntKeyword \<Rightarrow> ''TSBigIntKeyword''
   | TSBooleanKeyword \<Rightarrow> ''TSBooleanKeyword'' | TSIntrinsicKeyword \<Rightarrow> ''TSIntrinsicKeyword''
   | TSNeverKeyword \<Rightarrow> ''TSNeverKeyword'' | TSNullKeyword \<Rightarrow> ''TSNullKeyword''
   | TSNumberKeyword \<Rightarrow> ''TSNumberKeyword'' | TSObjectKeyword \<Rightarrow> ''TSObjectKeyword''
   | TSStringKeyword \<Rightarrow> ''TSStringKeyword'' | TSSymbolKeyword \<Rightarrow> ''TSSymbolKeyword''
   | TSUndefinedKeyword \<Rightarrow> ''TSUndefinedKeyword'' | TSUnknownKeyword \<Rightarrow> ''TSUnknownKeyword''
   | TSVoidKeyword \<Rightarrow> ''TSVoidKeyword'')"

definition signature_name :: "signature_kind \<Rightarrow> string" where
  "signature_name k = (case k of
     TSCallSignatureDeclaration \<Rightarrow> ''TSCallSignatureDeclaration''
   | TSConstructSignatureDeclaration \<Rightarrow> ''TSConstructSignatureDeclaration''
   | TSMethodSignature \<Rightarrow> ''TSMethodSignature''
   | TSFunctionType \<Rightarrow> ''TSFunctionType'' | TSConstructorType \<Rightarrow> ''TSConstructorType'')"

definition function_name_of :: "function_kind \<Rightarrow> string" where
  "function_name_of k = (case k of
     FunctionDeclaration \<Rightarrow> ''FunctionDeclaration'' | FunctionExpression \<Rightarrow> ''FunctionExpression''
   | TSDeclareFunction \<Rightarrow> ''TSDeclareFunction''
   | TSEmptyBodyFunctionExpression \<Rightarrow> ''TSEmptyBodyFunctionExpression'')"

fun type_form_name :: "'n type_form \<Rightarrow> string" where
  "type_form_name (KeywordT k) = keyword_name k"
| "type_form_name (ParenthesizedT _) = ''TSParenthesizedType''"
| "type_form_name (OperatorT _ _) = ''TSTypeOperator''"
| "type_form_name (ArrayT _) = ''TSArrayType''"
| "type_form_name (TupleT _) = ''TSTupleType''"
| "type_form_name (UnionT _) = ''TSUnionType''"
| "type_form_name (IntersectionT _) = ''TSIntersectionType''"
| "type_form_name (ReferenceT _ _) = ''TSTypeReference''"
| "type_form_name (LiteralT _) = ''TSTypeLiteral''"
| "type_form_name (MappedT _ _ _ _) = ''TSMappedType''"
| "type_form_name (ConditionalT _ _ _ _) = ''TSConditionalType''"
| "type_form_name (InferT _) = ''TSInferType''"
| "type_form_name (PredicateT _ _) = ''TSTypePredicate''"
| "type_form_name (SignatureT k _ _ _ _) = signature_name k"

fun annex_form_name :: "'n annex_form \<Rightarrow> string" where
  "annex_form_name (AnnotationA _) = ''TSTypeAnnotation''"
| "annex_form_name (InstantiationA _) = ''TSTypeParameterInstantiation''"
| "annex_form_name (ParametersA _) = ''TSTypeParameterDeclaration''"
| "annex_form_name (ParameterA _ _ _) = ''TSTypeParameter''"
| "annex_form_name (PropertyA _ _ _ _) = ''TSPropertySignature''"
| "annex_form_name (IndexA _ _) = ''TSIndexSignature''"
| "annex_form_name (InterfaceBodyA _) = ''TSInterfaceBody''"

fun expr_form_name :: "'n expr_form \<Rightarrow> string" where
  "expr_form_name (IdentifierE _ _) = ''Identifier''"
| "expr_form_name (PrivateIdentifierE _) = ''PrivateIdentifier''"
| "expr_form_name (JSXIdentifierE _) = ''JSXIdentifier''"
| "expr_form_name (LiteralE _) = ''Literal''"
| "expr_form_name (TemplateE _ _) = ''TemplateLiteral''"
| "expr_form_name (ParenthesizedE _) = ''ParenthesizedExpression''"
| "expr_form_name (ChainE _) = ''ChainExpression''"
| "expr_form_name (AsE _ _) = ''TSAsExpression''"
| "expr_form_name (AssertionE _ _) = ''TSTypeAssertion''"
| "expr_form_name (SatisfiesE _ _) = ''TSSatisfiesExpression''"
| "expr_form_name (NonNullE _) = ''TSNonNullExpression''"
| "expr_form_name (ArrayE _) = ''ArrayExpression''"
| "expr_form_name (ObjectE _) = ''ObjectExpression''"
| "expr_form_name (SpreadE _) = ''SpreadElement''"
| "expr_form_name (UnaryE _ _) = ''UnaryExpression''"
| "expr_form_name (BinaryE _ _ _) = ''BinaryExpression''"
| "expr_form_name (ConditionalE _ _ _) = ''ConditionalExpression''"
| "expr_form_name (AssignmentE _ _ _) = ''AssignmentExpression''"
| "expr_form_name (CallE _ _ _) = ''CallExpression''"
| "expr_form_name (NewE _ _) = ''NewExpression''"
| "expr_form_name (MemberE _ _ _) = ''MemberExpression''"
| "expr_form_name (SequenceE _) = ''SequenceExpression''"
| "expr_form_name (FunctionE k _ _ _ _ _) = function_name_of k"
| "expr_form_name (ArrowE _ _ _ _) = ''ArrowFunctionExpression''"
| "expr_form_name (ClassE k _ _ _ _) =
     (case k of ClassDeclaration \<Rightarrow> ''ClassDeclaration'' | ClassExpression \<Rightarrow> ''ClassExpression'')"

fun pattern_form_name :: "'n pattern_form \<Rightarrow> string" where
  "pattern_form_name (AssignmentP _ _ _) = ''AssignmentPattern''"
| "pattern_form_name (RestP _ _) = ''RestElement''"
| "pattern_form_name (ParameterPropertyP _) = ''TSParameterProperty''"
| "pattern_form_name (BindingP k _ _) =
     (case k of ObjectPattern \<Rightarrow> ''ObjectPattern'' | ArrayPattern \<Rightarrow> ''ArrayPattern'')"
| "pattern_form_name (PropertyP _ _ _) = ''Property''"
| "pattern_form_name (PropertyDefinitionP _ _ _ _) = ''PropertyDefinition''"
| "pattern_form_name (AccessorP _ _ _ _) = ''AccessorProperty''"
| "pattern_form_name (MethodP _ _ _) = ''MethodDefinition''"

fun statement_form_name :: "'n statement_form \<Rightarrow> string" where
  "statement_form_name (ProgramS _) = ''Program''"
| "statement_form_name (BlockS _) = ''BlockStatement''"
| "statement_form_name (StaticBlockS _) = ''StaticBlock''"
| "statement_form_name (ModuleBlockS _) = ''TSModuleBlock''"
| "statement_form_name (ExpressionS _) = ''ExpressionStatement''"
| "statement_form_name (VariablesS _ _) = ''VariableDeclaration''"
| "statement_form_name (DeclaratorS _ _) = ''VariableDeclarator''"
| "statement_form_name (ReturnS _) = ''ReturnStatement''"
| "statement_form_name (SwitchS _ _) = ''SwitchStatement''"
| "statement_form_name (CaseS _ _) = ''SwitchCase''"
| "statement_form_name (DoWhileS _ _) = ''DoWhileStatement''"
| "statement_form_name (LabeledS _ _) = ''LabeledStatement''"
| "statement_form_name (ImportS _ _) = ''ImportDeclaration''"
| "statement_form_name (ImportSpecifierS _ _) = ''ImportSpecifier''"
| "statement_form_name (ImportDefaultS _) = ''ImportDefaultSpecifier''"
| "statement_form_name (ImportNamespaceS _) = ''ImportNamespaceSpecifier''"
| "statement_form_name (ExportNamedS _ _ _) = ''ExportNamedDeclaration''"
| "statement_form_name (ExportDefaultS _) = ''ExportDefaultDeclaration''"
| "statement_form_name (TypeAliasS _ _ _) = ''TSTypeAliasDeclaration''"
| "statement_form_name (InterfaceS _ _ _ _) = ''TSInterfaceDeclaration''"
| "statement_form_name (EnumS _ _) = ''TSEnumDeclaration''"

fun node_type :: "node \<Rightarrow> string" where
  "node_type (Node i (TypeForm t)) = type_form_name t"
| "node_type (Node i (AnnexForm t)) = annex_form_name t"
| "node_type (Node i (ExprForm t)) = expr_form_name t"
| "node_type (Node i (PatternForm t)) = pattern_form_name t"
| "node_type (Node i (StatementForm t)) = statement_form_name t"
| "node_type (Node i (OtherForm t _)) = t"

section \<open>Fields that hold nodes\<close>

text \<open>
  A field holds a node (or null) or an array of nodes (with holes in array literals). Scalar fields
  are not listed: a traversal by visitor keys looks only at nodes and arrays.
\<close>

datatype (plugins only: code size) 'n field = One "'n option" | Many "'n option list"

abbreviation one :: "string \<Rightarrow> 'n \<Rightarrow> string \<times> 'n field" where "one k x \<equiv> (k, One (Some x))"
abbreviation opt :: "string \<Rightarrow> 'n option \<Rightarrow> string \<times> 'n field" where "opt k x \<equiv> (k, One x)"
abbreviation many :: "string \<Rightarrow> 'n list \<Rightarrow> string \<times> 'n field" where
  "many k xs \<equiv> (k, Many (map Some xs))"

fun type_form_fields :: "'n type_form \<Rightarrow> (string \<times> 'n field) list" where
  "type_form_fields (KeywordT _) = []"
| "type_form_fields (ParenthesizedT t) = [one ''typeAnnotation'' t]"
| "type_form_fields (OperatorT _ t) = [one ''typeAnnotation'' t]"
| "type_form_fields (ArrayT t) = [one ''elementType'' t]"
| "type_form_fields (TupleT ts) = [many ''elementTypes'' ts]"
| "type_form_fields (UnionT ts) = [many ''types'' ts]"
| "type_form_fields (IntersectionT ts) = [many ''types'' ts]"
| "type_form_fields (ReferenceT n a) = [one ''typeName'' n, opt ''typeArguments'' a]"
| "type_form_fields (LiteralT ms) = [many ''members'' ms]"
| "type_form_fields (MappedT k c n t) =
     [one ''key'' k, one ''constraint'' c, opt ''nameType'' n, opt ''typeAnnotation'' t]"
| "type_form_fields (ConditionalT c e t f) =
     [one ''checkType'' c, one ''extendsType'' e, one ''trueType'' t, one ''falseType'' f]"
| "type_form_fields (InferT p) = [one ''typeParameter'' p]"
| "type_form_fields (PredicateT n t) = [one ''parameterName'' n, opt ''typeAnnotation'' t]"
| "type_form_fields (SignatureT _ k ps xs r) =
     [opt ''key'' k, opt ''typeParameters'' ps, many ''params'' xs, opt ''returnType'' r]"

fun annex_form_fields :: "'n annex_form \<Rightarrow> (string \<times> 'n field) list" where
  "annex_form_fields (AnnotationA t) = [one ''typeAnnotation'' t]"
| "annex_form_fields (InstantiationA ts) = [many ''params'' ts]"
| "annex_form_fields (ParametersA ps) = [many ''params'' ps]"
| "annex_form_fields (ParameterA n c d) =
     [one ''name'' n, opt ''constraint'' c, opt ''default'' d]"
| "annex_form_fields (PropertyA _ _ k t) = [one ''key'' k, opt ''typeAnnotation'' t]"
| "annex_form_fields (IndexA ps t) = [many ''parameters'' ps, opt ''typeAnnotation'' t]"
| "annex_form_fields (InterfaceBodyA ms) = [many ''body'' ms]"

fun expr_form_fields :: "'n expr_form \<Rightarrow> (string \<times> 'n field) list" where
  "expr_form_fields (IdentifierE _ t) = [opt ''typeAnnotation'' t]"
| "expr_form_fields (PrivateIdentifierE _) = []"
| "expr_form_fields (JSXIdentifierE _) = []"
| "expr_form_fields (LiteralE _) = []"
| "expr_form_fields (TemplateE qs es) = [many ''quasis'' qs, many ''expressions'' es]"
| "expr_form_fields (ParenthesizedE e) = [one ''expression'' e]"
| "expr_form_fields (ChainE e) = [one ''expression'' e]"
| "expr_form_fields (AsE e t) = [one ''expression'' e, one ''typeAnnotation'' t]"
| "expr_form_fields (AssertionE e t) = [one ''expression'' e, one ''typeAnnotation'' t]"
| "expr_form_fields (SatisfiesE e t) = [one ''expression'' e, one ''typeAnnotation'' t]"
| "expr_form_fields (NonNullE e) = [one ''expression'' e]"
| "expr_form_fields (ArrayE es) = [(''elements'', Many es)]"
| "expr_form_fields (ObjectE ps) = [many ''properties'' ps]"
| "expr_form_fields (SpreadE e) = [one ''argument'' e]"
| "expr_form_fields (UnaryE _ e) = [one ''argument'' e]"
| "expr_form_fields (BinaryE _ l r) = [one ''left'' l, one ''right'' r]"
| "expr_form_fields (ConditionalE t c a) =
     [one ''test'' t, one ''consequent'' c, one ''alternate'' a]"
| "expr_form_fields (AssignmentE _ l r) = [one ''left'' l, one ''right'' r]"
| "expr_form_fields (CallE c ts as) =
     [one ''callee'' c, opt ''typeArguments'' ts, many ''arguments'' as]"
| "expr_form_fields (NewE c as) = [one ''callee'' c, many ''arguments'' as]"
| "expr_form_fields (MemberE _ ob p) = [one ''object'' ob, one ''property'' p]"
| "expr_form_fields (SequenceE es) = [many ''expressions'' es]"
| "expr_form_fields (FunctionE _ d ps xs r b) =
     [opt ''id'' d, opt ''typeParameters'' ps, many ''params'' xs, opt ''returnType'' r, opt ''body'' b]"
| "expr_form_fields (ArrowE ps xs r b) =
     [opt ''typeParameters'' ps, many ''params'' xs, opt ''returnType'' r, one ''body'' b]"
| "expr_form_fields (ClassE _ d ps s b) =
     [opt ''id'' d, opt ''typeParameters'' ps, opt ''superClass'' s, one ''body'' b]"

fun pattern_form_fields :: "'n pattern_form \<Rightarrow> (string \<times> 'n field) list" where
  "pattern_form_fields (AssignmentP l r t) =
     [one ''left'' l, one ''right'' r, opt ''typeAnnotation'' t]"
| "pattern_form_fields (RestP a t) = [one ''argument'' a, opt ''typeAnnotation'' t]"
| "pattern_form_fields (ParameterPropertyP p) = [one ''parameter'' p]"
| "pattern_form_fields (BindingP k xs t) =
     [many (case k of ObjectPattern \<Rightarrow> ''properties'' | ArrayPattern \<Rightarrow> ''elements'') xs,
      opt ''typeAnnotation'' t]"
| "pattern_form_fields (PropertyP _ k v) = [one ''key'' k, one ''value'' v]"
| "pattern_form_fields (PropertyDefinitionP _ k t v) =
     [one ''key'' k, opt ''typeAnnotation'' t, opt ''value'' v]"
| "pattern_form_fields (AccessorP _ k t v) =
     [one ''key'' k, opt ''typeAnnotation'' t, opt ''value'' v]"
| "pattern_form_fields (MethodP _ k v) = [one ''key'' k, one ''value'' v]"

fun statement_form_fields :: "'n statement_form \<Rightarrow> (string \<times> 'n field) list" where
  "statement_form_fields (ProgramS ss) = [many ''body'' ss]"
| "statement_form_fields (BlockS ss) = [many ''body'' ss]"
| "statement_form_fields (StaticBlockS ss) = [many ''body'' ss]"
| "statement_form_fields (ModuleBlockS ss) = [many ''body'' ss]"
| "statement_form_fields (ExpressionS e) = [one ''expression'' e]"
| "statement_form_fields (VariablesS _ ds) = [many ''declarations'' ds]"
| "statement_form_fields (DeclaratorS d e) = [one ''id'' d, opt ''init'' e]"
| "statement_form_fields (ReturnS e) = [opt ''argument'' e]"
| "statement_form_fields (SwitchS e cs) = [one ''discriminant'' e, many ''cases'' cs]"
| "statement_form_fields (CaseS e ss) = [opt ''test'' e, many ''consequent'' ss]"
| "statement_form_fields (DoWhileS b e) = [one ''body'' b, one ''test'' e]"
| "statement_form_fields (LabeledS l s) = [one ''label'' l, one ''body'' s]"
| "statement_form_fields (ImportS s ss) = [many ''specifiers'' ss, one ''source'' s]"
| "statement_form_fields (ImportSpecifierS m l) = [one ''imported'' m, one ''local'' l]"
| "statement_form_fields (ImportDefaultS l) = [one ''local'' l]"
| "statement_form_fields (ImportNamespaceS l) = [one ''local'' l]"
| "statement_form_fields (ExportNamedS d ss s) =
     [opt ''declaration'' d, many ''specifiers'' ss, opt ''source'' s]"
| "statement_form_fields (ExportDefaultS d) = [one ''declaration'' d]"
| "statement_form_fields (TypeAliasS d ps t) =
     [one ''id'' d, opt ''typeParameters'' ps, one ''typeAnnotation'' t]"
| "statement_form_fields (InterfaceS d ps es b) =
     [one ''id'' d, opt ''typeParameters'' ps, many ''extends'' es, one ''body'' b]"
| "statement_form_fields (EnumS d b) = [one ''id'' d, one ''body'' b]"

fun node_fields :: "node \<Rightarrow> (string \<times> node field) list" where
  "node_fields (Node i (TypeForm t)) = type_form_fields t"
| "node_fields (Node i (AnnexForm t)) = annex_form_fields t"
| "node_fields (Node i (ExprForm t)) = expr_form_fields t"
| "node_fields (Node i (PatternForm t)) = pattern_form_fields t"
| "node_fields (Node i (StatementForm t)) = statement_form_fields t"
| "node_fields (Node i (OtherForm _ fs)) = map (\<lambda>(k, xs). (k, Many xs)) fs"

end
