(* ===== verification/Tree.thy ===== *)
theory Tree
  imports Estree
begin

text \<open>
  Reading the tree: the child nodes of a node, object identity, and locations. A location is a node
  with its chain of ancestors, so \<open>node.parent\<close> is the head of the chain, a walk up the parents
  is structural recursion on the chain, and a step down to a child puts the node on the chain.
\<close>

section \<open>Children\<close>

fun field_nodes :: "'n field \<Rightarrow> 'n list" where
  "field_nodes (One x) = (case x of None \<Rightarrow> [] | Some c \<Rightarrow> [c])"
| "field_nodes (Many xs) = map the (filter (\<lambda>x. x \<noteq> None) xs)"

lemma set_field_nodes:
  "c \<in> set (field_nodes f) \<longleftrightarrow> f = One (Some c) \<or> (\<exists>xs. f = Many xs \<and> Some c \<in> set xs)"
  by (cases f) (force split: option.splits)+

definition children :: "node \<Rightarrow> node list" where
  "children n = concat (map (\<lambda>(k, f). field_nodes f) (node_fields n))"

lemma size_member: "(c :: node) \<in> set xs \<Longrightarrow> size c \<le> size_list size xs"
  by (rule size_list_estimation'[OF _ order_refl])

lemma size_member_option: "Some (c :: node) \<in> set xs \<Longrightarrow> size c < size_list (size_option size) xs"
  using size_list_estimation'[of "Some c" xs "Suc (size c)" "size_option size"] by simp

lemma type_form_child:
  "(k, f) \<in> set (type_form_fields t) \<Longrightarrow> c \<in> set (field_nodes f) \<Longrightarrow> size (c :: node) < size_type_form size t"
  by (cases t) (auto simp: set_field_nodes dest!: size_member)

lemma annex_form_child:
  "(k, f) \<in> set (annex_form_fields t) \<Longrightarrow> c \<in> set (field_nodes f) \<Longrightarrow> size (c :: node) < size_annex_form size t"
  by (cases t) (auto simp: set_field_nodes dest!: size_member)

lemma expr_form_child:
  "(k, f) \<in> set (expr_form_fields t) \<Longrightarrow> c \<in> set (field_nodes f) \<Longrightarrow> size (c :: node) < size_expr_form size t"
  by (cases t) (auto simp: set_field_nodes dest!: size_member dest: size_member_option)

lemma pattern_form_child:
  "(k, f) \<in> set (pattern_form_fields t) \<Longrightarrow> c \<in> set (field_nodes f) \<Longrightarrow> size (c :: node) < size_pattern_form size t"
  by (cases t) (auto simp: set_field_nodes dest!: size_member)

lemma statement_form_child:
  "(k, f) \<in> set (statement_form_fields t) \<Longrightarrow> c \<in> set (field_nodes f) \<Longrightarrow>
     size (c :: node) < size_statement_form size t"
  by (cases t) (auto simp: set_field_nodes dest!: size_member)

lemma other_form_child:
  "(k, f) \<in> set (map (\<lambda>(k, xs). (k, Many xs)) fs) \<Longrightarrow> c \<in> set (field_nodes f) \<Longrightarrow>
     size (c :: node) < size_list (size_prod (\<lambda>_. 0) (size_list (size_option size))) fs"
proof -
  assume "(k, f) \<in> set (map (\<lambda>(k, xs). (k, Many xs)) fs)" and c: "c \<in> set (field_nodes f)"
  then obtain xs where xs: "(k, xs) \<in> set fs" and "f = Many xs" by auto
  with c have "Some c \<in> set xs" using set_field_nodes[of c f] by simp
  from size_member_option[OF this]
  show ?thesis
    using size_list_estimation'[OF xs, of "Suc (size c)" "size_prod (\<lambda>_. 0) (size_list (size_option size))"]
    by simp
qed

lemma field_child_size:
  "(k, f) \<in> set (node_fields n) \<Longrightarrow> c \<in> set (field_nodes f) \<Longrightarrow> size c < size n"
proof (cases n)
  case (Node i t)
  assume kf: "(k, f) \<in> set (node_fields n)" and c: "c \<in> set (field_nodes f)"
  show ?thesis
  proof (cases t)
    case (TypeForm x) with Node kf c show ?thesis by (auto dest: type_form_child)
  next
    case (AnnexForm x) with Node kf c show ?thesis by (auto dest: annex_form_child)
  next
    case (ExprForm x) with Node kf c show ?thesis by (auto dest: expr_form_child)
  next
    case (PatternForm x) with Node kf c show ?thesis by (auto dest: pattern_form_child)
  next
    case (StatementForm x) with Node kf c show ?thesis by (auto dest: statement_form_child)
  next
    case (OtherForm s fs) with Node kf other_form_child[OF _ c, of k fs] show ?thesis by simp
  qed
qed

lemma child_size [termination_simp]: "c \<in> set (children n) \<Longrightarrow> size c < size n"
  by (auto simp: children_def dest: field_child_size)

text \<open>
  \<open>visitorKeys[node.type] ?? []\<close>, each key read on the node, and the nodes found there: the loop
  that both tree traversals of the code run. \<open>visitorKeys\<close> is supplied by Oxlint.
\<close>

type_synonym visitor_keys = "string \<Rightarrow> string list option"

definition field :: "node \<Rightarrow> string \<Rightarrow> node list" where
  "field n k = (case map_of (node_fields n) k of None \<Rightarrow> [] | Some f \<Rightarrow> field_nodes f)"

definition visited_children :: "visitor_keys \<Rightarrow> node \<Rightarrow> node list" where
  "visited_children vk n = concat (map (field n) (nullish (vk (node_type n)) []))"

lemma field_subset: "set (field n k) \<subseteq> set (children n)"
proof (cases "map_of (node_fields n) k")
  case None
  then show ?thesis by (simp add: field_def)
next
  case (Some f)
  then have "(k, f) \<in> set (node_fields n)" by (rule map_of_SomeD)
  with Some show ?thesis by (fastforce simp: field_def children_def)
qed

lemma visited_children_subset: "set (visited_children vk n) \<subseteq> set (children n)"
  unfolding visited_children_def using field_subset by fastforce

lemma visited_child_size [termination_simp]: "c \<in> set (visited_children vk n) \<Longrightarrow> size c < size n"
  using visited_children_subset child_size by blast

section \<open>Identity and locations\<close>

definition same_node :: "node \<Rightarrow> node \<Rightarrow> bool" where
  "same_node m n \<longleftrightarrow> nid (info m) = nid (info n)"

lemma same_node_refl [simp]: "same_node n n"
  by (simp add: same_node_def)

lemma same_node_sym: "same_node m n \<Longrightarrow> same_node n m"
  by (simp add: same_node_def)

type_synonym loc = "node \<times> node list"

fun parent :: "loc \<Rightarrow> loc option" where
  "parent (n, []) = None"
| "parent (n, p # ps) = Some (p, ps)"

fun parent_type :: "loc \<Rightarrow> string" where
  "parent_type (n, []) = ''''"
| "parent_type (n, p # ps) = node_type p"

fun child_loc :: "loc \<Rightarrow> node \<Rightarrow> loc" where
  "child_loc (n, anc) c = (c, n # anc)"

text \<open>The locations of a whole tree, each before its children.\<close>

fun locations :: "node \<Rightarrow> node list \<Rightarrow> loc list" where
  "locations n anc = (n, anc) # concat (map (\<lambda>c. locations c (n # anc)) (children n))"

declare locations.simps [simp del]

inductive located :: "node \<Rightarrow> loc \<Rightarrow> bool" for root :: node where
  root: "located root (root, [])"
| child: "located root (n, anc) \<Longrightarrow> c \<in> set (children n) \<Longrightarrow> located root (c, n # anc)"

lemma locations_below: "(m, ps) \<in> set (locations n anc) \<Longrightarrow> \<exists>qs. ps = qs @ anc"
proof (induction n anc arbitrary: m ps rule: locations.induct)
  case (1 n anc)
  then show ?case by (auto simp: locations.simps[of n anc]) fastforce+
qed

lemma locations_located:
  "located root (n, anc) \<Longrightarrow> l \<in> set (locations n anc) \<Longrightarrow> located root l"
proof (induction n anc arbitrary: l rule: locations.induct)
  case (1 n anc)
  show ?case
  proof (cases "l = (n, anc)")
    case True
    with "1.prems" show ?thesis by simp
  next
    case False
    with "1.prems"(2) obtain c where c: "c \<in> set (children n)" "l \<in> set (locations c (n # anc))"
      by (auto simp: locations.simps[of n anc])
    from "1.IH"[OF c(1) located.child[OF "1.prems"(1) c(1)] c(2)] show ?thesis .
  qed
qed

lemma locations_self: "(n, anc) \<in> set (locations n anc)"
  by (subst locations.simps) simp

lemma locations_closed:
  "(m, ps) \<in> set (locations n anc) \<Longrightarrow> c \<in> set (children m) \<Longrightarrow> (c, m # ps) \<in> set (locations n anc)"
proof (induction n anc arbitrary: m ps rule: locations.induct)
  case (1 n anc)
  show ?case
  proof (cases "(m, ps) = (n, anc)")
    case True
    with 1 have "(c, m # ps) \<in> set (locations c (n # anc))" by (simp add: locations_self)
    with True "1.prems"(2) show ?thesis by (subst locations.simps) auto
  next
    case False
    with "1.prems"(1) obtain d where d: "d \<in> set (children n)" "(m, ps) \<in> set (locations d (n # anc))"
      by (auto simp: locations.simps[of n anc])
    from "1.IH"[OF d(1) d(2) "1.prems"(2)] d(1) show ?thesis by (subst locations.simps) auto
  qed
qed

lemma locations_iff_located: "set (locations root []) = {l. located root l}"
proof (intro equalityI subsetI CollectI)
  fix l assume "l \<in> set (locations root [])"
  with located.root show "located root l" by (rule locations_located)
next
  fix l assume "l \<in> {l. located root l}"
  then have "located root l" by simp
  then show "l \<in> set (locations root [])"
    by (induction rule: located.induct) (auto intro: locations_self locations_closed)
qed

end
