(* ===== verification/Scopes.thy ===== *)
theory Scopes
  imports Tree
begin

text \<open>
  The scope manager the rules query, and \<open>shared/scope.ts\<close>. Variables are mutable objects with
  identity in the linter; here they live in a store, the list \<open>variables\<close>, and are named by their
  index. A scope maps names to variables and has an enclosing scope. Oxlint computes scopes,
  references, comments and global references: they are fields of \<open>source_code\<close> that the model
  takes as given.
\<close>

section \<open>Variables, scopes and the source code object\<close>

type_synonym variable_id = nat

record var_reference =
  isWrite :: bool
  init :: bool

record binding_def =
  def_type :: string
  def_node :: loc
  def_parent :: "node option"

record variable =
  var_name :: string
  identifiers :: "loc list"
  references :: "var_reference list"
  defs :: "binding_def list"

datatype scope = Scope
  (bindings: "(string \<times> variable_id) list")
  (scope_references: "(node \<times> variable_id option) list")
  (upper: "scope option")

record comment =
  comment_value :: string
  comment_start :: nat
  comment_end :: nat
  comment_start_line :: nat

record source_code =
  variables :: "variable list"
  getScope :: "node \<Rightarrow> scope"
  isGlobalReference :: "node \<Rightarrow> bool"
  getDeclaredVariables :: "node \<Rightarrow> variable_id list"
  scopes :: "scope list"
  visitorKeys :: visitor_keys
  source_text :: string
  getCommentsBefore :: "node \<Rightarrow> comment list"

definition getText :: "source_code \<Rightarrow> node \<Rightarrow> string" where
  "getText sc n = take (stop (info n) - start (info n)) (drop (start (info n)) (source_text sc))"

definition variable_at :: "source_code \<Rightarrow> variable_id \<Rightarrow> variable" where
  "variable_at sc v = (case at (variables sc) v of
     Some x \<Rightarrow> x
   | None \<Rightarrow> \<lparr>var_name = [], identifiers = [], references = [], defs = []\<rparr>)"

definition variable_ids :: "source_code \<Rightarrow> variable_id set" where
  "variable_ids sc = {..<length (variables sc)}"

lemma finite_variable_ids [simp]: "finite (variable_ids sc)"
  by (simp add: variable_ids_def)

lemma defined_variable: "defs (variable_at sc v) \<noteq> [] \<Longrightarrow> v \<in> variable_ids sc"
  by (auto simp: variable_at_def variable_ids_def at_def split: if_splits)

text \<open>\<open>variable.references.some(reference => reference.isWrite() && !reference.init)\<close>\<close>

definition reassigned :: "variable \<Rightarrow> bool" where
  "reassigned v \<longleftrightarrow> list_ex (\<lambda>r. isWrite r \<and> \<not> init r) (references v)"

fun identifier_name :: "node \<Rightarrow> string" where
  "identifier_name (Identifier i x t) = x"
| "identifier_name _ = []"

text \<open>What a rule hands to \<open>context.report\<close>.\<close>

record report =
  report_node :: node
  message_id :: string
  report_data :: "(string \<times> string) list"

section \<open>Walking the scope chain\<close>

fun scope_chain :: "scope option \<Rightarrow> scope list" where
  "scope_chain None = []"
| "scope_chain (Some (Scope b r u)) = Scope b r u # scope_chain u"

text \<open>The binding a name has in the first scope of a chain that declares it.\<close>

fun nearest_binding :: "scope list \<Rightarrow> string \<Rightarrow> variable_id option" where
  "nearest_binding [] x = None"
| "nearest_binding (s # ss) x =
     (case map_of (bindings s) x of Some v \<Rightarrow> Some v | None \<Rightarrow> nearest_binding ss x)"

text \<open>
  The interface every name lookup of the rules relies on: a name means its binding in the scope at
  hand if there is one, and otherwise what it means in the enclosing scope.
\<close>

locale lexical_lookup =
  fixes lookup :: "scope option \<Rightarrow> string \<Rightarrow> variable_id option"
  assumes lookup_none: "lookup None x = None"
    and lookup_own: "map_of (bindings s) x = Some v \<Longrightarrow> lookup (Some s) x = Some v"
    and lookup_upper: "map_of (bindings s) x = None \<Longrightarrow> lookup (Some s) x = lookup (upper s) x"
begin

text \<open>The laws leave no freedom: a lookup that obeys them finds the nearest binding.\<close>

lemma lookup_nearest: "lookup s x = nearest_binding (scope_chain s) x"
proof (induction s rule: scope_chain.induct)
  case 1
  show ?case by (simp add: lookup_none)
next
  case (2 b r u)
  then show ?case
    by (cases "map_of b x") (simp_all add: lookup_own lookup_upper)
qed

text \<open>An inner declaration hides every outer one.\<close>

lemma lookup_shadowed:
  "map_of b x = Some v \<Longrightarrow> lookup (Some (Scope b r u)) x = lookup (Some (Scope b r' u')) x"
  by (simp add: lookup_own)

end

text \<open>The loop of \<open>resolveVariable\<close>.\<close>

fun resolve_from :: "scope option \<Rightarrow> string \<Rightarrow> variable_id option" where
  "resolve_from None x = None"
| "resolve_from (Some (Scope b r u)) x =
     (case map_of b x of Some v \<Rightarrow> Some v | None \<Rightarrow> resolve_from u x)"

definition resolveVariable :: "source_code \<Rightarrow> node \<Rightarrow> variable_id option" where
  "resolveVariable sc identifier =
     resolve_from (Some (getScope sc identifier)) (identifier_name identifier)"

interpretation by_scope: lexical_lookup resolve_from
proof unfold_locales
  fix s x v
  show "resolve_from None x = None" by simp
  show "resolve_from (Some s) x = Some v" if "map_of (bindings s) x = Some v"
    using that by (cases s) simp
  show "resolve_from (Some s) x = resolve_from (upper s) x" if "map_of (bindings s) x = None"
    using that by (cases s) simp
qed

end
