(* ===== verification/Views.thy ===== *)
theory Views
  imports Scopes
begin

text \<open>
  Views of a node as one kind: a test of \<open>node.type\<close> together with the fields the code reads
  after it. A definition that returns early unless the node has the right kind is a case analysis of
  the view, and the characteristic lemma of the view turns it back into the constructor.
\<close>

fun as_identifier :: "node \<Rightarrow> string option" where
  "as_identifier (Identifier i x t) = Some x"
| "as_identifier _ = None"

fun as_call :: "node \<Rightarrow> (node \<times> node list) option" where
  "as_call (CallExpression i c ts as) = Some (c, as)"
| "as_call _ = None"

fun as_member :: "node \<Rightarrow> (bool \<times> node \<times> node) option" where
  "as_member (MemberExpression i computed ob p) = Some (computed, ob, p)"
| "as_member _ = None"

fun as_object :: "node \<Rightarrow> node list option" where
  "as_object (ObjectExpression i ps) = Some ps"
| "as_object _ = None"

fun as_string_literal :: "node \<Rightarrow> string option" where
  "as_string_literal (Literal i (StringValue s)) = Some s"
| "as_string_literal _ = None"

text \<open>An expression or declaration that owns parameters and a return type, with its kind.\<close>

fun as_function :: "node \<Rightarrow> (string \<times> node list \<times> node option) option" where
  "as_function (Function i k d tps ps r b) = Some (function_name_of k, ps, r)"
| "as_function (ArrowFunctionExpression i tps ps r b) = Some (''ArrowFunctionExpression'', ps, r)"
| "as_function _ = None"

fun as_type_reference :: "node \<Rightarrow> (node \<times> node option) option" where
  "as_type_reference (TSTypeReference i n a) = Some (n, a)"
| "as_type_reference _ = None"

fun annotation_type :: "node \<Rightarrow> node option" where
  "annotation_type (TSTypeAnnotation i t) = Some t"
| "annotation_type _ = None"

lemma as_identifier_Some [simp]: "as_identifier n = Some x \<longleftrightarrow> (\<exists>i t. n = Identifier i x t)"
  by (cases n rule: as_identifier.cases) auto

lemma as_call_Some [simp]: "as_call n = Some (c, as) \<longleftrightarrow> (\<exists>i ts. n = CallExpression i c ts as)"
  by (cases n rule: as_call.cases) auto

lemma as_member_Some [simp]:
  "as_member n = Some (c, ob, p) \<longleftrightarrow> (\<exists>i. n = MemberExpression i c ob p)"
  by (cases n rule: as_member.cases) auto

lemma as_object_Some [simp]: "as_object n = Some ps \<longleftrightarrow> (\<exists>i. n = ObjectExpression i ps)"
  by (cases n rule: as_object.cases) auto

lemma as_string_literal_Some [simp]:
  "as_string_literal n = Some s \<longleftrightarrow> (\<exists>i. n = Literal i (StringValue s))"
  by (cases n rule: as_string_literal.cases) auto

lemma as_type_reference_Some [simp]:
  "as_type_reference n = Some (m, a) \<longleftrightarrow> (\<exists>i. n = TSTypeReference i m a)"
  by (cases n rule: as_type_reference.cases) auto

lemma as_function_Some:
  "as_function n = Some (k, ps, r) \<longleftrightarrow>
     (\<exists>i fk d tps b. n = Function i fk d tps ps r b \<and> k = function_name_of fk) \<or>
     (\<exists>i tps b. n = ArrowFunctionExpression i tps ps r b \<and> k = ''ArrowFunctionExpression'')"
  by (cases n rule: as_function.cases) auto

end
