(* ===== verification/Wrappers.thy ===== *)
theory Wrappers
  imports Views
begin

text \<open>
  The interface of the loops that look through syntax-only wrappers, shared by the rules.
\<close>

section \<open>Syntax-only wrappers\<close>

text \<open>
  Most rules look through wrappers: parentheses, assertions, optional chains. Each loop
  \<open>while (wrapper) node = node.expression\<close> of the code satisfies this interface, with
  \<open>inner\<close> one step of the loop.
\<close>

locale syntax_wrapper =
  fixes inner :: "node \<Rightarrow> node option"
    and unwrap :: "node \<Rightarrow> node"
  assumes unwrap_step: "inner n = Some m \<Longrightarrow> unwrap n = unwrap m"
    and unwrap_stop: "inner n = None \<Longrightarrow> unwrap n = n"
    and inner_size: "inner n = Some m \<Longrightarrow> size m < size n"
begin

lemma wrapper_induct [case_names Stop Step]:
  assumes "\<And>n. inner n = None \<Longrightarrow> P n"
    and "\<And>n m. inner n = Some m \<Longrightarrow> P m \<Longrightarrow> P n"
  shows "P n"
proof (induction n rule: measure_induct_rule[of size])
  case (less n)
  then show ?case using assms inner_size by (cases "inner n") auto
qed

lemma unwrap_bare: "inner (unwrap n) = None"
  by (induction n rule: wrapper_induct) (simp_all add: unwrap_step unwrap_stop)

lemma unwrap_idem: "unwrap (unwrap n) = unwrap n"
  by (simp add: unwrap_bare unwrap_stop)

lemma unwrap_size: "size (unwrap n) \<le> size n"
  by (induction n rule: wrapper_induct)
    (auto simp: unwrap_step unwrap_stop dest: inner_size)

end

text \<open>A loop that strips more wrappers absorbs one that strips fewer.\<close>

locale wider_wrapper = fine: syntax_wrapper inner unwrap + wide: syntax_wrapper inner' unwrap'
  for inner unwrap inner' unwrap' +
  assumes wider: "inner n = Some m \<Longrightarrow> inner' n = Some m"
begin

lemma absorbs: "unwrap' (unwrap n) = unwrap' n"
proof (induction n rule: fine.wrapper_induct)
  case (Stop n)
  then show ?case by (simp add: fine.unwrap_stop)
next
  case (Step n m)
  then show ?case by (simp add: fine.unwrap_step wide.unwrap_step[OF wider])
qed

end

end
