(* ===== verification/Binding_Search.thy ===== *)
theory Binding_Search
  imports Scopes
begin

text \<open>
  Several rules look for evidence by following \<open>const\<close> bindings: an expression either answers at
  once or names a variable; a variable either answers at once or leads to its initializer. The code
  guards each of these recursions by a set of visited variables. This theory states that shape as
  an interface and proves, once, that the visited set never changes an answer: the search finds
  exactly what a finite chain of bindings establishes, and a cycle of bindings establishes nothing.
\<close>

inductive follows ::
  "('n \<Rightarrow> 'r + variable_id) \<Rightarrow> (variable_id \<Rightarrow> 'r + 'n) \<Rightarrow> variable_id list \<Rightarrow> 'n \<Rightarrow> 'r \<Rightarrow> bool"
  for look bind where
  here: "look n = Inl r \<Longrightarrow> follows look bind [] n r"
| stops: "look n = Inr v \<Longrightarrow> bind v = Inl r \<Longrightarrow> follows look bind [v] n r"
| goes_on: "look n = Inr v \<Longrightarrow> bind v = Inr e \<Longrightarrow> follows look bind vs e r \<Longrightarrow>
    follows look bind (v # vs) n r"

lemma follows_at_once: "look n = Inl r' \<Longrightarrow> follows look bind vs n r \<longleftrightarrow> vs = [] \<and> r = r'"
  by (subst follows.simps) auto

lemma follows_binding:
  "look n = Inr v \<Longrightarrow> follows look bind vs n r \<longleftrightarrow>
     (case bind v of Inl r' \<Rightarrow> vs = [v] \<and> r = r'
      | Inr e \<Rightarrow> \<exists>ws. vs = v # ws \<and> follows look bind ws e r)"
  by (subst follows.simps) (auto split: sum.splits)

lemmas follows_unfold = follows_at_once follows_binding

lemma follows_det:
  "follows look bind vs n r \<Longrightarrow> follows look bind ws n r' \<Longrightarrow> vs = ws \<and> r = r'"
proof (induction arbitrary: ws rule: follows.induct)
  case (goes_on n v e vs r)
  from goes_on.prems goes_on.hyps obtain us where "ws = v # us" "follows look bind us e r'"
    by (auto simp: follows_unfold)
  with goes_on.IH[of us] show ?case by simp
qed (auto simp: follows_unfold)

text \<open>What follows a binding in a chain depends on the binding only, so none occurs twice.\<close>

definition tail_of ::
  "('n \<Rightarrow> 'r + variable_id) \<Rightarrow> (variable_id \<Rightarrow> 'r + 'n) \<Rightarrow> variable_id \<Rightarrow> variable_id list \<Rightarrow> bool" where
  "tail_of look bind v ws \<longleftrightarrow>
     (case bind v of Inl r \<Rightarrow> ws = [] | Inr e \<Rightarrow> \<exists>r. follows look bind ws e r)"

lemma tail_of_det: "tail_of look bind v vs \<Longrightarrow> tail_of look bind v ws \<Longrightarrow> vs = ws"
  by (auto simp: tail_of_def split: sum.splits dest: follows_det)

lemma tail_ofI: "follows look bind vs n r \<Longrightarrow> vs = us @ v # ws \<Longrightarrow> tail_of look bind v ws"
proof (induction arbitrary: us rule: follows.induct)
  case (stops n w r)
  then show ?case by (auto simp: tail_of_def Cons_eq_append_conv)
next
  case (goes_on n w e vs r)
  then show ?case by (cases us) (auto simp: tail_of_def)
qed simp

lemma follows_distinct: "follows look bind vs n r \<Longrightarrow> distinct vs"
proof (rule ccontr)
  assume chain: "follows look bind vs n r" and "\<not> distinct vs"
  then obtain us v ms zs where split: "vs = us @ [v] @ ms @ [v] @ zs"
    using not_distinct_decomp by blast
  have "tail_of look bind v (ms @ [v] @ zs)" "tail_of look bind v zs"
    using tail_ofI[OF chain, of us v] tail_ofI[OF chain, of "us @ [v] @ ms" v] split by simp_all
  then have "ms @ [v] @ zs = zs" by (rule tail_of_det)
  then show False by simp
qed

locale binding_search =
  fixes look :: "'n \<Rightarrow> 'r + variable_id"
    and bind :: "variable_id \<Rightarrow> 'r + 'n"
    and give_up :: 'r
    and universe :: "variable_id set"
    and search :: "'n \<Rightarrow> variable_id set \<Rightarrow> 'r"
  assumes search_step: "search n V =
      (case look n of Inl r \<Rightarrow> r
       | Inr v \<Rightarrow> if v \<in> V then give_up
                  else (case bind v of Inl r \<Rightarrow> r | Inr e \<Rightarrow> search e (insert v V)))"
    and bound_known: "bind v = Inr e \<Longrightarrow> v \<in> universe"
    and finite_universe: "finite universe"
begin

lemma search_complete:
  "follows look bind vs n r \<Longrightarrow> distinct vs \<Longrightarrow> set vs \<inter> V = {} \<Longrightarrow> search n V = r"
proof (induction arbitrary: V rule: follows.induct)
  case (here n r)
  then show ?case by (simp add: search_step[of n])
next
  case (stops n v r)
  then show ?case by (simp add: search_step[of n])
next
  case (goes_on n v e vs r)
  then have "search e (insert v V) = r" by auto
  with goes_on show ?case by (simp add: search_step[of n])
qed

lemma search_sound: "search n V = r \<Longrightarrow> r \<noteq> give_up \<Longrightarrow> \<exists>vs. follows look bind vs n r"
proof (induction "card (universe - V)" arbitrary: n V rule: less_induct)
  case less
  show ?case
  proof (cases "look n")
    case (Inl r')
    with less.prems show ?thesis by (auto simp: search_step[of n] follows_unfold)
  next
    case (Inr v)
    with less.prems have new: "v \<notin> V" by (auto simp: search_step[of n])
    show ?thesis
    proof (cases "bind v")
      case (Inl r')
      with Inr less.prems new show ?thesis by (auto simp: search_step[of n] follows_unfold)
    next
      case e: (Inr e)
      with Inr less.prems new have "search e (insert v V) = r" by (simp add: search_step[of n])
      moreover have "card (universe - insert v V) < card (universe - V)"
        using card_unvisited_less[OF finite_universe bound_known[OF e] new] .
      ultimately obtain vs where "follows look bind vs e r" using less.hyps less.prems(2) by blast
      with Inr e show ?thesis by (auto intro: goes_on)
    qed
  qed
qed

theorem search_iff: "r \<noteq> give_up \<Longrightarrow> search n {} = r \<longleftrightarrow> (\<exists>vs. follows look bind vs n r)"
  using search_sound search_complete follows_distinct by fastforce

lemma search_cyclic: "(\<And>vs r. \<not> follows look bind vs n r) \<Longrightarrow> search n {} = give_up"
  using search_sound by blast

end

end
