(* ===== verification/Array_Method.thy ===== *)
theory Array_Method
  imports Wrappers Binding_Search
begin

text \<open>
  \<open>shared/array-method.ts\<close>: which expressions are arrays by local evidence, and the rule
  \<open>no-array-filter-map\<close> built on it.
\<close>

section \<open>Unwrapping\<close>

fun unwrapArrayExpression :: "node \<Rightarrow> node" where
  "unwrapArrayExpression (ParenthesizedExpression i e) = unwrapArrayExpression e"
| "unwrapArrayExpression (ChainExpression i e) = unwrapArrayExpression e"
| "unwrapArrayExpression (TSAsExpression i e t) = unwrapArrayExpression e"
| "unwrapArrayExpression (TSTypeAssertion i e t) = unwrapArrayExpression e"
| "unwrapArrayExpression (TSNonNullExpression i e) = unwrapArrayExpression e"
| "unwrapArrayExpression (TSSatisfiesExpression i e t) = unwrapArrayExpression e"
| "unwrapArrayExpression n = n"

definition array_inner :: "node \<Rightarrow> node option" where
  "array_inner n = (case n of
     ParenthesizedExpression i e \<Rightarrow> Some e | ChainExpression i e \<Rightarrow> Some e
   | TSAsExpression i e t \<Rightarrow> Some e | TSTypeAssertion i e t \<Rightarrow> Some e
   | TSNonNullExpression i e \<Rightarrow> Some e | TSSatisfiesExpression i e t \<Rightarrow> Some e
   | _ \<Rightarrow> None)"

interpretation array: syntax_wrapper array_inner unwrapArrayExpression
proof unfold_locales
  fix n m
  show "array_inner n = Some m \<Longrightarrow> unwrapArrayExpression n = unwrapArrayExpression m"
    by (cases n rule: unwrapArrayExpression.cases) (simp_all add: array_inner_def)
  show "array_inner n = None \<Longrightarrow> unwrapArrayExpression n = n"
    by (cases n rule: unwrapArrayExpression.cases) (simp_all add: array_inner_def)
  show "array_inner n = Some m \<Longrightarrow> size m < size n"
    by (cases n rule: unwrapArrayExpression.cases) (simp_all add: array_inner_def)
qed

section \<open>Bindings and method targets\<close>

definition resolveArrayBinding :: "source_code \<Rightarrow> node \<Rightarrow> variable_id option" where
  "resolveArrayBinding sc node =
     (case unwrapArrayExpression node of
        Identifier i x t \<Rightarrow>
          resolve_from (Some (getScope sc (Identifier i x t))) x
      | _ \<Rightarrow> None)"

definition arrayMethodTarget :: "node \<Rightarrow> (string \<times> node) option" where
  "arrayMethodTarget node =
     (case unwrapArrayExpression node of
        MemberExpression i computed obj property \<Rightarrow>
          (case property of
             Identifier j x t \<Rightarrow> if computed then None else Some (x, obj)
           | Literal j (StringValue x) \<Rightarrow> if computed then Some (x, obj) else None
           | _ \<Rightarrow> None)
      | _ \<Rightarrow> None)"

lemma arrayMethodTarget_size: "arrayMethodTarget n = Some (x, obj) \<Longrightarrow> size obj < size n"
  using array.unwrap_size[of n]
  by (auto simp: arrayMethodTarget_def split: node.splits form.splits expr_form.splits
      literal_value.splits if_splits)

fun isArrayAnnotation :: "node \<Rightarrow> bool" where
  "isArrayAnnotation (TSArrayType i t) = True"
| "isArrayAnnotation (TSTupleType i ts) = True"
| "isArrayAnnotation (TSParenthesizedType i t) = isArrayAnnotation t"
| "isArrayAnnotation (TSTypeOperator i operator t) =
     (operator = ''readonly'' \<and> isArrayAnnotation t)"
| "isArrayAnnotation (TSTypeReference i (Identifier j x t) args) =
     (x = ''Array'' \<or> x = ''ReadonlyArray'')"
| "isArrayAnnotation t = False"

section \<open>Local array evidence\<close>

fun identifier_annotation :: "node \<Rightarrow> node option" where
  "identifier_annotation (Identifier i x (Some a)) = annotation_type a"
| "identifier_annotation _ = None"

definition declared_annotation :: "variable \<Rightarrow> node option" where
  "declared_annotation v = first_some (identifier_annotation \<circ> fst) (identifiers v)"

text \<open>The initializer of a definition \<open>const x = init\<close>.\<close>

definition const_initializer :: "binding_def \<Rightarrow> node option" where
  "const_initializer d =
     (if def_type d = ''Variable'' then
        (case def_node d of
           (VariableDeclarator i (Identifier j x t) (Some e), VariableDeclaration k kind ds # anc) \<Rightarrow>
             if kind = ''const'' then Some e else None
         | _ \<Rightarrow> None)
      else None)"

definition const_value :: "source_code \<Rightarrow> variable_id \<Rightarrow> node option" where
  "const_value sc v = first_some const_initializer (defs (variable_at sc v))"

lemma const_value_known: "const_value sc v = Some e \<Longrightarrow> v \<in> variable_ids sc"
  by (rule defined_variable) (auto simp: const_value_def)

definition array_producers :: "string list" where
  "array_producers =
     [''map'', ''filter'', ''flatMap'', ''slice'', ''concat'', ''toSorted'', ''toReversed'', ''toSpliced'']"

lemma call_receiver_size:
  "unwrapArrayExpression n = CallExpression i callee ts as \<Longrightarrow> arrayMethodTarget callee = Some (x, obj) \<Longrightarrow>
     size obj < size n"
  using arrayMethodTarget_size[of callee x obj] array.unwrap_size[of n] by simp

function isKnownArrayExpression :: "source_code \<Rightarrow> node \<Rightarrow> variable_id set \<Rightarrow> bool" where
  "isKnownArrayExpression sc node visited =
     (case unwrapArrayExpression node of
        ArrayExpression i es \<Rightarrow> True
      | CallExpression i callee ts as \<Rightarrow>
          (case arrayMethodTarget callee of
             None \<Rightarrow> False
           | Some (name, obj) \<Rightarrow>
               if name \<in> set array_producers then isKnownArrayExpression sc obj visited else False)
      | Identifier i x t \<Rightarrow>
          (case resolveArrayBinding sc (Identifier i x t) of
             None \<Rightarrow> False
           | Some v \<Rightarrow>
               if v \<in> visited then False
               else if reassigned (variable_at sc v) then False
               else (case declared_annotation (variable_at sc v) of
                       Some ann \<Rightarrow> isArrayAnnotation ann
                     | None \<Rightarrow>
                         (case const_value sc v of
                            None \<Rightarrow> False
                          | Some e \<Rightarrow> isKnownArrayExpression sc e (insert v visited))))
      | _ \<Rightarrow> False)"
  by pat_completeness auto
termination
  by (relation "measures [\<lambda>(sc, n, V). card (variable_ids sc - V), \<lambda>(sc, n, V). size n]")
    (auto dest: call_receiver_size const_value_known)

declare isKnownArrayExpression.simps [simp del]

subsection \<open>Evidence without a visited set\<close>

text \<open>
  The specification: \<open>array_evidence sc vs n\<close> holds when \<open>n\<close> is an array literal, an array
  method call on evidence, or a name whose binding is annotated as an array or initialized by
  evidence; \<open>vs\<close> lists the bindings followed. It has no visited set: an infinite descent through
  cyclic initializers is simply not a derivation.
\<close>

definition stable_binding :: "source_code \<Rightarrow> node \<Rightarrow> variable_id \<Rightarrow> bool" where
  "stable_binding sc n v \<longleftrightarrow>
     (\<exists>i x t. unwrapArrayExpression n = Identifier i x t) \<and>
     resolveArrayBinding sc n = Some v \<and> \<not> reassigned (variable_at sc v)"

inductive array_evidence :: "source_code \<Rightarrow> variable_id list \<Rightarrow> node \<Rightarrow> bool" for sc where
  literal: "unwrapArrayExpression n = ArrayExpression i es \<Longrightarrow> array_evidence sc [] n"
| via_call: "unwrapArrayExpression n = CallExpression i callee ts as \<Longrightarrow>
    arrayMethodTarget callee = Some (name, obj) \<Longrightarrow> name \<in> set array_producers \<Longrightarrow>
    array_evidence sc vs obj \<Longrightarrow> array_evidence sc vs n"
| annotated: "stable_binding sc n v \<Longrightarrow> declared_annotation (variable_at sc v) = Some ann \<Longrightarrow>
    isArrayAnnotation ann \<Longrightarrow> array_evidence sc [v] n"
| initialized: "stable_binding sc n v \<Longrightarrow> declared_annotation (variable_at sc v) = None \<Longrightarrow>
    const_value sc v = Some e \<Longrightarrow> array_evidence sc vs e \<Longrightarrow> array_evidence sc (v # vs) n"

lemma resolve_unwrapped:
  "unwrapArrayExpression n = Identifier i x t \<Longrightarrow>
     resolveArrayBinding sc (Identifier i x t) = resolveArrayBinding sc n"
  by (simp add: resolveArrayBinding_def)

lemma evidence_literal:
  "unwrapArrayExpression n = ArrayExpression i es \<Longrightarrow> array_evidence sc vs n \<longleftrightarrow> vs = []"
  by (subst array_evidence.simps) (simp add: stable_binding_def)

lemma evidence_call:
  "unwrapArrayExpression n = CallExpression i callee ts as \<Longrightarrow>
     array_evidence sc vs n \<longleftrightarrow>
       (\<exists>name obj. arrayMethodTarget callee = Some (name, obj) \<and> name \<in> set array_producers \<and>
          array_evidence sc vs obj)"
  by (subst array_evidence.simps) (auto simp: stable_binding_def)

lemma evidence_binding:
  "stable_binding sc n v \<Longrightarrow> array_evidence sc vs n \<longleftrightarrow>
     (case declared_annotation (variable_at sc v) of
        Some ann \<Rightarrow> vs = [v] \<and> isArrayAnnotation ann
      | None \<Rightarrow> (\<exists>e ws. vs = v # ws \<and> const_value sc v = Some e \<and> array_evidence sc ws e))"
  by (subst array_evidence.simps) (auto simp: stable_binding_def split: option.splits)

lemma array_shape_cases:
  obtains (array) i es where "n = ArrayExpression i es"
  | (call) i callee ts as where "n = CallExpression i callee ts as"
  | (ident) i x t where "n = Identifier i x t"
  | (other) "\<forall>i es. n \<noteq> ArrayExpression i es" "\<forall>i c ts as. n \<noteq> CallExpression i c ts as"
      "\<forall>i x t. n \<noteq> Identifier i x t"
  by blast

text \<open>The recursion as a search along bindings: what an expression and what a binding answers.\<close>

function array_look :: "source_code \<Rightarrow> node \<Rightarrow> bool + variable_id" where
  "array_look sc n =
     (case unwrapArrayExpression n of
        ArrayExpression i es \<Rightarrow> Inl True
      | CallExpression i callee ts as \<Rightarrow>
          (case arrayMethodTarget callee of
             None \<Rightarrow> Inl False
           | Some (name, obj) \<Rightarrow> if name \<in> set array_producers then array_look sc obj else Inl False)
      | Identifier i x t \<Rightarrow>
          (case resolveArrayBinding sc (Identifier i x t) of None \<Rightarrow> Inl False | Some v \<Rightarrow> Inr v)
      | _ \<Rightarrow> Inl False)"
  by pat_completeness auto
termination
  by (relation "measure (\<lambda>(sc, n). size n)") (auto dest: call_receiver_size)

declare array_look.simps [simp del]

definition array_bind :: "source_code \<Rightarrow> variable_id \<Rightarrow> bool + node" where
  "array_bind sc v =
     (if reassigned (variable_at sc v) then Inl False
      else case declared_annotation (variable_at sc v) of
             Some ann \<Rightarrow> Inl (isArrayAnnotation ann)
           | None \<Rightarrow> (case const_value sc v of None \<Rightarrow> Inl False | Some e \<Rightarrow> Inr e))"

lemma isKnownArrayExpression_step:
  "isKnownArrayExpression sc n V =
     (case array_look sc n of Inl r \<Rightarrow> r
      | Inr v \<Rightarrow> if v \<in> V then False
                 else (case array_bind sc v of Inl r \<Rightarrow> r
                       | Inr e \<Rightarrow> isKnownArrayExpression sc e (insert v V)))"
proof (induction sc n rule: array_look.induct)
  case (1 sc n)
  show ?case
  proof (cases "unwrapArrayExpression n" rule: array_shape_cases)
    case (call i callee ts as)
    with 1 show ?thesis
      by (auto simp: isKnownArrayExpression.simps[of sc n] array_look.simps[of sc n] split: option.split)
  next
    case other
    then show ?thesis
      by (simp add: isKnownArrayExpression.simps[of sc n] array_look.simps[of sc n] split: node.split
          form.split expr_form.split)
  qed (auto simp: isKnownArrayExpression.simps[of sc n] array_look.simps[of sc n] array_bind_def
      split: option.split)
qed

interpretation array_search: binding_search "array_look sc" "array_bind sc" False
    "variable_ids sc" "isKnownArrayExpression sc" for sc
proof unfold_locales
  show "v \<in> variable_ids sc" if "array_bind sc v = Inr e" for v e
    using that const_value_known by (auto simp: array_bind_def split: if_splits option.splits)
qed (simp_all add: isKnownArrayExpression_step[symmetric])

lemma evidence_follows:
  "array_evidence sc vs n \<Longrightarrow> follows (array_look sc) (array_bind sc) vs n True"
proof (induction rule: array_evidence.induct)
  case (via_call n i callee ts as name obj vs)
  then have "array_look sc n = array_look sc obj" by (simp add: array_look.simps[of sc n])
  with via_call.IH show ?case by (cases "array_look sc obj") (simp_all add: follows_unfold)
qed (auto simp: array_look.simps[of sc n for n] stable_binding_def array_bind_def resolve_unwrapped
    intro: follows.intros)

lemma look_literal_evidence: "array_look sc n = Inl True \<Longrightarrow> array_evidence sc [] n"
proof (induction sc n rule: array_look.induct)
  case (1 sc n)
  then show ?case
    by (cases "unwrapArrayExpression n" rule: array_shape_cases)
      (auto simp: array_look.simps[of sc n] evidence_literal evidence_call
        split: option.splits if_splits node.splits form.splits expr_form.splits)
qed

lemma look_binding_evidence:
  "array_look sc n = Inr v \<Longrightarrow> \<not> reassigned (variable_at sc v) \<Longrightarrow>
     (\<And>m. stable_binding sc m v \<Longrightarrow> array_evidence sc vs m) \<Longrightarrow> array_evidence sc vs n"
proof (induction sc n rule: array_look.induct)
  case (1 sc n)
  show ?case
  proof (cases "unwrapArrayExpression n" rule: array_shape_cases)
    case (call i callee ts as)
    with 1 show ?thesis
      by (auto simp: array_look.simps[of sc n] evidence_call split: option.splits if_splits)
  next
    case (ident i x t)
    with "1.prems"(1,2) have "stable_binding sc n v"
      by (auto simp: array_look.simps[of sc n] stable_binding_def resolve_unwrapped split: option.splits)
    then show ?thesis by (rule "1.prems"(3))
  qed (use "1.prems"(1) in \<open>auto simp: array_look.simps[of sc n]
      split: node.splits form.splits expr_form.splits\<close>)
qed

lemma follows_evidence:
  "follows (array_look sc) (array_bind sc) vs n r \<Longrightarrow> r \<Longrightarrow> array_evidence sc vs n"
proof (induction rule: follows.induct)
  case (here n r)
  then show ?case by (simp add: look_literal_evidence)
next
  case (stops n v r)
  then show ?case
    by (intro look_binding_evidence[of sc n v])
      (auto simp: array_bind_def intro: annotated split: if_splits option.splits)
next
  case (goes_on n v e vs r)
  then show ?case
    by (intro look_binding_evidence[of sc n v])
      (auto simp: array_bind_def intro: initialized split: if_splits option.splits)
qed

lemma isKnownArrayExpression_iff: "isKnownArrayExpression sc n {} \<longleftrightarrow> (\<exists>vs. array_evidence sc vs n)"
  using array_search.search_iff[of True sc n] evidence_follows[of sc _ n] follows_evidence[of sc _ n True]
  by blast

section \<open>Properties\<close>

text \<open>
  C7: the search for array evidence ends and answers yes exactly when a finite derivation of array
  evidence exists; the visited set loses nothing, and cyclic initializers give no evidence.
\<close>
theorem isKnownArrayExpression_exact:
  "isKnownArrayExpression sc n {} \<longleftrightarrow> (\<exists>vs. array_evidence sc vs n)"
  by (rule isKnownArrayExpression_iff)

end
