(* ===== verification/Array_Rules.thy ===== *)
theory Array_Rules
  imports Array_Method
begin

text \<open>
  The rules \<open>no-array-filter-map\<close> and \<open>no-reduce-accumulator-copy\<close>: the handlers of
  \<open>CallExpression\<close>, with the walk from a copying call up to the reducer around it.
\<close>

section \<open>Adjacent filter and map passes\<close>

definition noArrayFilterMap :: "source_code \<Rightarrow> node \<Rightarrow> report list" where
  "noArrayFilterMap sc node =
     (case as_call node of
        None \<Rightarrow> []
      | Some (callee, arguments) \<Rightarrow>
          (case arrayMethodTarget callee of
             None \<Rightarrow> []
           | Some (outer_name, outer_object) \<Rightarrow>
               if outer_name \<noteq> ''map'' \<and> outer_name \<noteq> ''filter'' then []
               else (case as_call (unwrapArrayExpression outer_object) of
                       None \<Rightarrow> []
                     | Some (inner_callee, inner_arguments) \<Rightarrow>
                         (case arrayMethodTarget inner_callee of
                            None \<Rightarrow> []
                          | Some (inner_name, inner_object) \<Rightarrow>
                              if inner_name \<noteq> (if outer_name = ''map'' then ''filter'' else ''map'') then []
                              else if \<not> isKnownArrayExpression sc inner_object {} then []
                              else [\<lparr>report_node = node, message_id = ''arrayFilterMap'',
                                     report_data = [(''first'', inner_name), (''second'', outer_name)]\<rparr>]))))"

text \<open>
  A map pass directly on a filter pass, or the converse, over an expression with local array
  evidence.
\<close>

definition adjacent_passes :: "source_code \<Rightarrow> node \<Rightarrow> string \<Rightarrow> string \<Rightarrow> bool" where
  "adjacent_passes sc node first second \<longleftrightarrow>
     (\<exists>i callee ts as receiver j callee' ts' as' source vs.
        node = CallExpression i callee ts as \<and> arrayMethodTarget callee = Some (second, receiver) \<and>
        unwrapArrayExpression receiver = CallExpression j callee' ts' as' \<and>
        arrayMethodTarget callee' = Some (first, source) \<and>
        {first, second} = {''map'', ''filter''} \<and> array_evidence sc vs source)"

definition filter_map_report :: "node \<Rightarrow> string \<Rightarrow> string \<Rightarrow> report" where
  "filter_map_report node first second =
     \<lparr>report_node = node, message_id = ''arrayFilterMap'',
      report_data = [(''first'', first), (''second'', second)]\<rparr>"

lemma noArrayFilterMap_cases:
  "noArrayFilterMap sc node = [] \<or>
     (\<exists>first second. adjacent_passes sc node first second \<and>
        noArrayFilterMap sc node = [filter_map_report node first second])"
  by (auto simp: noArrayFilterMap_def adjacent_passes_def isKnownArrayExpression_iff
      filter_map_report_def doubleton_eq_iff split: option.split prod.split)

lemma adjacent_passes_reported:
  "adjacent_passes sc node first second \<Longrightarrow>
     noArrayFilterMap sc node = [filter_map_report node first second]"
  by (auto simp: noArrayFilterMap_def adjacent_passes_def isKnownArrayExpression_iff
      filter_map_report_def doubleton_eq_iff)

section \<open>Copies of a reducer's accumulator\<close>

record reducer =
  callback :: node
  accumulator :: node
  initialValue :: "node option"

fun parameter_target :: "node \<Rightarrow> node" where
  "parameter_target (AssignmentPattern i l r t) = l"
| "parameter_target p = p"

definition reducer_at :: "node \<Rightarrow> node list \<Rightarrow> node list \<Rightarrow> reducer option" where
  "reducer_at callback_node params ancestors =
     (case dropWhile (\<lambda>owner. same_node (unwrapArrayExpression owner) callback_node) ancestors of
        [] \<Rightarrow> None
      | owner # _ \<Rightarrow>
          (case as_call owner of None \<Rightarrow> None | Some (callee, as) \<Rightarrow>
          (case (arrayMethodTarget callee, as) of
             (Some (m, _), firstArgument # _) \<Rightarrow>
               if (m \<noteq> ''reduce'' \<and> m \<noteq> ''reduceRight'') \<or> length as > 2 \<or>
                  \<not> same_node (unwrapArrayExpression firstArgument) callback_node then None
               else (case map_option parameter_target (at params 0) of
                       None \<Rightarrow> None
                     | Some p \<Rightarrow>
                         if as_identifier p = None then None
                         else Some \<lparr>callback = callback_node, accumulator = p, initialValue = at as 1\<rparr>)
           | _ \<Rightarrow> None)))"

fun reducer_above :: "node list \<Rightarrow> reducer option" where
  "reducer_above [] = None"
| "reducer_above (p # ps) =
     (case as_function p of
        Some (kind, params, r) \<Rightarrow>
          if kind = ''FunctionDeclaration'' then None
          else if kind = ''ArrowFunctionExpression'' \<or> kind = ''FunctionExpression''
          then reducer_at p params ps
          else reducer_above ps
      | None \<Rightarrow> reducer_above ps)"

definition enclosingReducer :: "loc \<Rightarrow> reducer option" where
  "enclosingReducer l = reducer_above (snd l)"

function referencesAccumulator ::
  "source_code \<Rightarrow> node \<Rightarrow> variable_id \<Rightarrow> variable_id set \<Rightarrow> bool" where
  "referencesAccumulator sc node acc visited =
     (case resolveArrayBinding sc node of
        None \<Rightarrow> False
      | Some v \<Rightarrow>
          if v \<in> visited then False
          else if v = acc then True
          else if reassigned (variable_at sc v) then False
          else (case const_value sc v of
                  None \<Rightarrow> False
                | Some e \<Rightarrow> referencesAccumulator sc e acc (insert v visited)))"
  by pat_completeness auto
termination
  by (relation "measure (\<lambda>(sc, n, acc, V). card (variable_ids sc - V))")
    (auto dest: const_value_known)

declare referencesAccumulator.simps [simp del]

text \<open>A name of the accumulator: the parameter itself, or a constant bound to a name of it.\<close>

inductive accumulator_alias :: "source_code \<Rightarrow> variable_id \<Rightarrow> node \<Rightarrow> bool" for sc acc where
  itself: "resolveArrayBinding sc n = Some acc \<Longrightarrow> accumulator_alias sc acc n"
| bound_to: "resolveArrayBinding sc n = Some v \<Longrightarrow> \<not> reassigned (variable_at sc v) \<Longrightarrow>
    const_value sc v = Some e \<Longrightarrow> accumulator_alias sc acc e \<Longrightarrow> accumulator_alias sc acc n"

definition alias_look :: "source_code \<Rightarrow> node \<Rightarrow> bool + variable_id" where
  "alias_look sc n = (case resolveArrayBinding sc n of None \<Rightarrow> Inl False | Some v \<Rightarrow> Inr v)"

definition alias_bind :: "source_code \<Rightarrow> variable_id \<Rightarrow> variable_id \<Rightarrow> bool + node" where
  "alias_bind sc acc v =
     (if v = acc then Inl True
      else if reassigned (variable_at sc v) then Inl False
      else case const_value sc v of None \<Rightarrow> Inl False | Some e \<Rightarrow> Inr e)"

interpretation alias_search: binding_search "alias_look sc" "alias_bind sc acc" False
    "variable_ids sc" "\<lambda>n. referencesAccumulator sc n acc" for sc acc
proof unfold_locales
  show "referencesAccumulator sc n acc V =
     (case alias_look sc n of Inl r \<Rightarrow> r
      | Inr v \<Rightarrow> if v \<in> V then False
                 else (case alias_bind sc acc v of Inl r \<Rightarrow> r
                       | Inr e \<Rightarrow> referencesAccumulator sc e acc (insert v V)))" for n V
    by (auto simp: referencesAccumulator.simps[of sc n] alias_look_def alias_bind_def split: option.split)
  show "v \<in> variable_ids sc" if "alias_bind sc acc v = Inr e" for v e
    using that const_value_known by (auto simp: alias_bind_def split: if_splits option.splits)
qed simp

lemma alias_follows:
  "accumulator_alias sc acc n \<Longrightarrow> \<exists>vs. follows (alias_look sc) (alias_bind sc acc) vs n True"
proof (induction rule: accumulator_alias.induct)
  case (bound_to n v e)
  then have look: "alias_look sc n = Inr v" by (simp add: alias_look_def)
  show ?case
  proof (cases "v = acc")
    case True
    with look show ?thesis
      by (intro exI[of _ "[acc]"] follows.stops[of _ _ acc]) (simp_all add: alias_bind_def)
  next
    case False
    with bound_to have "alias_bind sc acc v = Inr e" by (simp add: alias_bind_def)
    with look bound_to.IH show ?thesis by (auto intro: follows.goes_on)
  qed
next
  case (itself n)
  then show ?case by (intro exI[of _ "[acc]"] follows.stops[of _ _ acc])
      (simp_all add: alias_look_def alias_bind_def)
qed

lemma follows_alias:
  "follows (alias_look sc) (alias_bind sc acc) vs n r \<Longrightarrow> r \<Longrightarrow> accumulator_alias sc acc n"
  by (induction rule: follows.induct)
    (auto simp: alias_look_def alias_bind_def intro: accumulator_alias.intros
      split: option.splits if_splits)

lemma referencesAccumulator_iff: "referencesAccumulator sc n acc {} \<longleftrightarrow> accumulator_alias sc acc n"
  using alias_search.search_iff[of True sc n acc] alias_follows[of sc acc n]
    follows_alias[of sc acc _ n True] by auto

definition isGlobalCopyOwner :: "source_code \<Rightarrow> node \<Rightarrow> string \<Rightarrow> bool" where
  "isGlobalCopyOwner sc node name =
     (as_identifier (unwrapArrayExpression node) = Some name \<and>
      (case resolveArrayBinding sc (unwrapArrayExpression node) of
         None \<Rightarrow> True | Some v \<Rightarrow> defs (variable_at sc v) = []))"

definition copy_methods :: "string list" where
  "copy_methods = [''concat'', ''slice'', ''toSpliced'', ''toSorted'', ''toReversed'', ''with'']"

definition copiesAccumulator ::
  "source_code \<Rightarrow> reducer \<Rightarrow> variable_id \<Rightarrow> string \<Rightarrow> node \<Rightarrow> node list \<Rightarrow> bool" where
  "copiesAccumulator sc red acc name object arguments =
     (if name = ''assign'' \<and> isGlobalCopyOwner sc object ''Object'' then
        (case at arguments 0 of
           None \<Rightarrow> False
         | Some target \<Rightarrow> as_object (unwrapArrayExpression target) \<noteq> None \<and>
             list_ex (\<lambda>e. referencesAccumulator sc e acc {}) (drop 1 arguments))
      else if name = ''from'' \<and> isGlobalCopyOwner sc object ''Array'' then
        (case at arguments 0 of
           None \<Rightarrow> False | Some source \<Rightarrow> referencesAccumulator sc source acc {})
      else if name \<in> set copy_methods then
        (case initialValue red of
           None \<Rightarrow> False | Some v \<Rightarrow> isKnownArrayExpression sc v {}) \<and>
        referencesAccumulator sc object acc {}
      else False)"

definition accumulator_variable :: "source_code \<Rightarrow> reducer \<Rightarrow> variable_id option" where
  "accumulator_variable sc red =
     find (\<lambda>v. list_ex (\<lambda>(n, anc). start (info n) = start (info (accumulator red)))
                 (identifiers (variable_at sc v)))
       (getDeclaredVariables sc (callback red))"

definition noReduceAccumulatorCopy :: "source_code \<Rightarrow> loc \<Rightarrow> report list" where
  "noReduceAccumulatorCopy sc l =
     (case as_call (fst l) of
        None \<Rightarrow> []
      | Some (callee, arguments) \<Rightarrow>
          (case (arrayMethodTarget callee, enclosingReducer l) of
             (Some (name, object), Some red) \<Rightarrow>
               (case accumulator_variable sc red of
                  None \<Rightarrow> []
                | Some acc \<Rightarrow>
                    if copiesAccumulator sc red acc name object arguments
                    then [\<lparr>report_node = fst l, message_id = ''accumulatorCopy'', report_data = []\<rparr>]
                    else [])
           | _ \<Rightarrow> []))"

section \<open>The reducer around a call\<close>

text \<open>Where a callback stands: the first argument of a call of reduce, up to wrappers around it.\<close>

definition reduces :: "node \<Rightarrow> node list \<Rightarrow> node list \<Rightarrow> reducer \<Rightarrow> bool" where
  "reduces f params outer r \<longleftrightarrow>
     (\<exists>wraps call rest callee first more m ob p ps.
        outer = wraps @ call # rest \<and> list_all (\<lambda>w. same_node (unwrapArrayExpression w) f) wraps \<and>
        \<not> same_node (unwrapArrayExpression call) f \<and>
        as_call call = Some (callee, first # more) \<and> arrayMethodTarget callee = Some (m, ob) \<and>
        (m = ''reduce'' \<or> m = ''reduceRight'') \<and> length more \<le> 1 \<and> same_node (unwrapArrayExpression first) f \<and>
        params = p # ps \<and> as_identifier (parameter_target p) \<noteq> None \<and>
        r = \<lparr>callback = f, accumulator = parameter_target p, initialValue = at more 0\<rparr>)"

lemma drop_while_split: "dropWhile P xs = y # ys \<longleftrightarrow> (\<exists>ws. xs = ws @ y # ys \<and> list_all P ws \<and> \<not> P y)"
proof
  assume d: "dropWhile P xs = y # ys"
  then have "xs = takeWhile P xs @ y # ys" by (metis takeWhile_dropWhile_id)
  moreover have "list_all P (takeWhile P xs)" by (auto simp: list_all_iff dest: set_takeWhileD)
  moreover have "\<not> P y" using d by (metis hd_dropWhile list.discI list.sel(1))
  ultimately show "\<exists>ws. xs = ws @ y # ys \<and> list_all P ws \<and> \<not> P y" by blast
qed (auto simp: list_all_iff dropWhile_append)

lemma reducer_at_iff: "reducer_at f params outer = Some r \<longleftrightarrow> reduces f params outer r"
proof (cases "dropWhile (\<lambda>owner. same_node (unwrapArrayExpression owner) f) outer")
  case Nil
  then have "\<not> reduces f params outer r"
    by (auto simp: reduces_def dropWhile_append list_all_iff)
  then show ?thesis unfolding reducer_at_def Nil by simp
next
  case (Cons call rest)
  have split: "outer = wraps @ call' # rest' \<and> list_all (\<lambda>w. same_node (unwrapArrayExpression w) f) wraps \<and>
      \<not> same_node (unwrapArrayExpression call') f \<Longrightarrow> call' = call" for wraps call' rest'
    using drop_while_split[of "\<lambda>w. same_node (unwrapArrayExpression w) f" outer call' rest'] Cons by auto
  obtain wraps where "outer = wraps @ call # rest \<and> list_all (\<lambda>w. same_node (unwrapArrayExpression w) f) wraps \<and>
      \<not> same_node (unwrapArrayExpression call) f"
    using Cons drop_while_split[of "\<lambda>w. same_node (unwrapArrayExpression w) f" outer call rest] by blast
  then have reduces: "reduces f params outer r \<longleftrightarrow>
     (\<exists>callee first more m ob p ps. as_call call = Some (callee, first # more) \<and> arrayMethodTarget callee = Some (m, ob) \<and>
        (m = ''reduce'' \<or> m = ''reduceRight'') \<and> length more \<le> 1 \<and> same_node (unwrapArrayExpression first) f \<and>
        params = p # ps \<and> as_identifier (parameter_target p) \<noteq> None \<and>
        r = \<lparr>callback = f, accumulator = parameter_target p, initialValue = at more 0\<rparr>)"
    unfolding reduces_def using split by blast
  show ?thesis
    unfolding reduces reducer_at_def Cons
    by (cases params) (auto split: option.splits list.splits prod.splits if_splits simp del: as_call_Some)
qed

text \<open>Functions with a body, by kind; declarations end the search.\<close>

definition callable :: "node \<Rightarrow> bool" where
  "callable n \<longleftrightarrow>
     (\<exists>kind params ret. as_function n = Some (kind, params, ret) \<and>
        kind \<in> {''FunctionDeclaration'', ''ArrowFunctionExpression'', ''FunctionExpression''})"

definition reducer_around :: "node list \<Rightarrow> reducer \<Rightarrow> bool" where
  "reducer_around ns r \<longleftrightarrow>
     (\<exists>inner f outer kind params ret. ns = inner @ f # outer \<and> list_all (\<lambda>n. \<not> callable n) inner \<and>
        as_function f = Some (kind, params, ret) \<and> kind \<in> {''ArrowFunctionExpression'', ''FunctionExpression''} \<and>
        reduces f params outer r)"

lemma reducer_around_Cons:
  "reducer_around (n # ns) r \<longleftrightarrow>
     (if callable n
      then (\<exists>kind params ret. as_function n = Some (kind, params, ret) \<and>
        kind \<in> {''ArrowFunctionExpression'', ''FunctionExpression''} \<and> reduces n params ns r)
      else reducer_around ns r)"
proof (cases "callable n")
  case True
  then have "n # ns = inner @ f # outer \<Longrightarrow> list_all (\<lambda>n. \<not> callable n) inner \<Longrightarrow> inner = [] \<and> f = n \<and> outer = ns" for inner f outer
    by (cases inner) auto
  with True show ?thesis unfolding reducer_around_def by (metis append_Nil list.pred_inject(1))
next
  case False
  have "callable f" if "as_function f = Some (kind, params, ret)" "kind \<in> {''ArrowFunctionExpression'', ''FunctionExpression''}" for f kind params ret
    using that by (auto simp: callable_def)
  with False have "n # ns = inner @ f # outer \<Longrightarrow> as_function f = Some (kind, params, ret) \<Longrightarrow>
      kind \<in> {''ArrowFunctionExpression'', ''FunctionExpression''} \<Longrightarrow> inner \<noteq> []" for inner f outer kind params ret
    by (cases inner) auto
  with False show ?thesis
    unfolding reducer_around_def by (auto simp: Cons_eq_append_conv) (metis append_Cons list.pred_inject(2))+
qed

lemma reducer_above_iff: "reducer_above ns = Some r \<longleftrightarrow> reducer_around ns r"
proof (induction ns)
  case Nil
  show ?case by (simp add: reducer_around_def)
next
  case (Cons n ns)
  show ?case
  proof (cases "as_function n")
    case None
    with Cons show ?thesis by (simp add: reducer_around_Cons callable_def)
  next
    case (Some k)
    then obtain kind params ret where "as_function n = Some (kind, params, ret)" by (cases k) auto
    with Cons show ?thesis by (auto simp: reducer_around_Cons callable_def reducer_at_iff)
  qed
qed

section \<open>Properties\<close>

text \<open>
  A call is reported exactly when it is a map pass directly on a filter pass, or the converse,
  over an expression with array evidence; the report names the passes in execution order.
\<close>
theorem noArrayFilterMap_exact:
  "noArrayFilterMap sc node = [r] \<longleftrightarrow>
     (\<exists>first second. adjacent_passes sc node first second \<and> r = filter_map_report node first second)"
proof
  assume "noArrayFilterMap sc node = [r]"
  with noArrayFilterMap_cases[of sc node] show
    "\<exists>first second. adjacent_passes sc node first second \<and> r = filter_map_report node first second"
    by (metis list.inject not_Cons_self2)
next
  assume "\<exists>first second. adjacent_passes sc node first second \<and> r = filter_map_report node first second"
  then show "noArrayFilterMap sc node = [r]" by (metis adjacent_passes_reported)
qed

text \<open>
  C24: an expression is taken for the accumulator exactly when a finite chain of constants, never
  reassigned, leads from it to the accumulator parameter.
\<close>
theorem referencesAccumulator_exact: "referencesAccumulator sc n acc {} \<longleftrightarrow> accumulator_alias sc acc n"
  by (rule referencesAccumulator_iff)



end
