(* ===== verification/Linter.thy ===== *)
theory Linter
  imports Scopes
begin

text \<open>
  How Oxlint runs a rule: it visits the nodes of a program, each before its children, and calls the
  handlers the rule registered for the node's type. A rule with state (a captured environment, a set
  of nodes seen) is a step function on that state; a handler that may run out of fuel answers
  \<open>None\<close>.
\<close>

section \<open>Running a rule\<close>

fun run_rule :: "('s \<Rightarrow> 'l \<Rightarrow> ('s \<times> 'r list) option) \<Rightarrow> 's \<Rightarrow> 'l list \<Rightarrow> ('s \<times> 'r list) option" where
  "run_rule step st [] = Some (st, [])"
| "run_rule step st (l # ls) =
     (case step st l of
        None \<Rightarrow> None
      | Some (st', rs) \<Rightarrow> map_option (map_prod id ((@) rs)) (run_rule step st' ls))"

text \<open>Handlers that leave the state alone: the reports are those of the single nodes, in order.\<close>

lemma run_rule_steady:
  "(\<And>l. l \<in> set ls \<Longrightarrow> step st l = Some (st, f l)) \<Longrightarrow> run_rule step st ls = Some (st, concat (map f ls))"
  by (induction ls) simp_all

text \<open>The \<open>Program\<close> handler of a rule runs once, at the root, before all others.\<close>

definition lint :: "(node \<Rightarrow> 's \<Rightarrow> 's) \<Rightarrow> ('s \<Rightarrow> loc \<Rightarrow> ('s \<times> report list) option) \<Rightarrow> 's \<Rightarrow> node \<Rightarrow>
    report list option" where
  "lint on_program step st program =
     map_option snd (run_rule step (on_program program st) (locations program []))"

text \<open>A loop over an array that collects reports and may run out of fuel.\<close>

definition concat_map_m :: "('a \<Rightarrow> 'b list option) \<Rightarrow> 'a list \<Rightarrow> 'b list option" where
  "concat_map_m f xs = map_option concat (map_m f xs)"

lemma concat_map_m_total: "(\<And>x. x \<in> set xs \<Longrightarrow> f x = Some (g x)) \<Longrightarrow> concat_map_m f xs = Some (concat (map g xs))"
  by (induction xs) (auto simp: concat_map_m_def)

text \<open>Enough fuel for each of finitely many loops is enough for all of them.\<close>

definition enough :: "(nat \<Rightarrow> bool) \<Rightarrow> bool" where
  "enough P \<longleftrightarrow> (\<exists>N. \<forall>k. P (N + k))"

lemma enoughI: "(\<And>k. P (N + k)) \<Longrightarrow> enough P"
  by (auto simp: enough_def)

lemma enough_le: "(\<exists>N. \<forall>fuel \<ge> N. P fuel) \<Longrightarrow> enough P"
  unfolding enough_def by (metis le_add1)

lemma enough_always: "(\<And>fuel. P fuel) \<Longrightarrow> enough P"
  by (auto simp: enough_def)

lemma enough_mp: "enough P \<Longrightarrow> (\<And>fuel. P fuel \<Longrightarrow> Q fuel) \<Longrightarrow> enough Q"
  by (auto simp: enough_def)

lemma enough_conj: "enough P \<Longrightarrow> enough Q \<Longrightarrow> enough (\<lambda>fuel. P fuel \<and> Q fuel)"
proof -
  assume "enough P" "enough Q"
  then obtain M N where "\<forall>k. P (M + k)" "\<forall>k. Q (N + k)" by (auto simp: enough_def)
  then have "P (M + N + k) \<and> Q (M + N + k)" for k
    by (metis add.assoc add.commute)
  then show ?thesis by (intro enoughI[of _ "M + N"]) simp
qed

lemma enough_list: "(\<And>x. x \<in> set xs \<Longrightarrow> enough (P x)) \<Longrightarrow> enough (\<lambda>fuel. \<forall>x \<in> set xs. P x fuel)"
  by (induction xs) (auto intro: enough_always enough_conj)

end
