(* ===== verification/Type_Parameters.thy ===== *)
theory Type_Parameters
  imports Views
begin

text \<open>
  \<open>shared/lexical-type-parameters.ts\<close>: the type binders in scope at a node, which can shadow module
  aliases. The set of names the code fills is the list of the names it adds, in order; the code only
  asks whether a name is in it.
\<close>

section \<open>Names bound by infer\<close>

fun type_parameter_name :: "node \<Rightarrow> string list" where
  "type_parameter_name (TSTypeParameter i (Identifier j x t) c d) = [x]"
| "type_parameter_name _ = []"

fun inferred_name :: "node \<Rightarrow> string list" where
  "inferred_name (TSInferType i p) = type_parameter_name p"
| "inferred_name _ = []"

fun collectInferTypeParameterNames :: "visitor_keys \<Rightarrow> node \<Rightarrow> string list" where
  "collectInferTypeParameterNames vk n =
     inferred_name n @ concat (map (collectInferTypeParameterNames vk) (visited_children vk n))"

declare collectInferTypeParameterNames.simps [simp del]

text \<open>The nodes a traversal by visitor keys reaches.\<close>

inductive visited :: "visitor_keys \<Rightarrow> node \<Rightarrow> node \<Rightarrow> bool" for vk where
  self: "visited vk n n"
| child: "visited vk c m \<Longrightarrow> c \<in> set (visited_children vk n) \<Longrightarrow> visited vk n m"

lemma collectInfer_iff:
  "x \<in> set (collectInferTypeParameterNames vk n) \<longleftrightarrow> (\<exists>m. visited vk n m \<and> x \<in> set (inferred_name m))"
proof (induction vk n rule: collectInferTypeParameterNames.induct)
  case (1 vk n)
  have "(\<exists>m. visited vk n m \<and> x \<in> set (inferred_name m)) \<longleftrightarrow>
     x \<in> set (inferred_name n) \<or>
     (\<exists>c \<in> set (visited_children vk n). \<exists>m. visited vk c m \<and> x \<in> set (inferred_name m))"
    by (subst visited.simps) (auto intro: visited.intros)
  with 1 show ?case by (subst collectInferTypeParameterNames.simps) simp
qed

section \<open>The binders in scope at a node\<close>

fun parameter_names :: "node option \<Rightarrow> string list" where
  "parameter_names (Some (TSTypeParameterDeclaration i ps)) = concat (map type_parameter_name ps)"
| "parameter_names _ = []"

text \<open>\<open>current.typeParameters?.params\<close>, for the nodes that have the field.\<close>

fun typeParameters_of :: "node \<Rightarrow> node option" where
  "typeParameters_of (Function i k d tps ps r b) = tps"
| "typeParameters_of (ArrowFunctionExpression i tps ps r b) = tps"
| "typeParameters_of (Class i k d tps s b) = tps"
| "typeParameters_of (TSTypeAliasDeclaration i d tps t) = tps"
| "typeParameters_of (TSInterfaceDeclaration i d tps es b) = tps"
| "typeParameters_of (TSSignature i k key tps ps r) = tps"
| "typeParameters_of _ = None"

definition declared_parameters :: "node \<Rightarrow> string list" where
  "declared_parameters n = parameter_names (typeParameters_of n)"

text \<open>Names a mapped or conditional type binds for the part of it the walk comes from.\<close>

fun bound_for :: "visitor_keys \<Rightarrow> node \<Rightarrow> node \<Rightarrow> string list" where
  "bound_for vk descendant (TSMappedType i (Identifier j x t) c nameType typeAnnotation) =
     (if (\<exists>m \<in> set_option nameType \<union> set_option typeAnnotation. same_node descendant m) then [x] else [])"
| "bound_for vk descendant (TSConditionalType i check_type extendsType trueType falseType) =
     (if same_node descendant trueType then collectInferTypeParameterNames vk extendsType else [])"
| "bound_for vk descendant _ = []"

fun names_from :: "visitor_keys \<Rightarrow> node \<Rightarrow> node list \<Rightarrow> string list" where
  "names_from vk descendant [] = []"
| "names_from vk descendant (current # rest) =
     (if node_type current = ''Program'' then []
      else declared_parameters current @ bound_for vk descendant current @ names_from vk current rest)"

definition lexicalTypeParameterNames :: "visitor_keys \<Rightarrow> loc \<Rightarrow> string list" where
  "lexicalTypeParameterNames vk l = names_from vk (fst l) (fst l # snd l)"

text \<open>A binder of the chain from a node outwards, before the program.\<close>

inductive in_type_scope :: "visitor_keys \<Rightarrow> node \<Rightarrow> node list \<Rightarrow> string \<Rightarrow> bool" for vk where
  declared: "node_type n \<noteq> ''Program'' \<Longrightarrow> x \<in> set (declared_parameters n) \<Longrightarrow> in_type_scope vk d (n # anc) x"
| bound: "node_type n \<noteq> ''Program'' \<Longrightarrow> x \<in> set (bound_for vk d n) \<Longrightarrow> in_type_scope vk d (n # anc) x"
| outer: "node_type n \<noteq> ''Program'' \<Longrightarrow> in_type_scope vk n anc x \<Longrightarrow> in_type_scope vk d (n # anc) x"

lemma names_from_iff: "x \<in> set (names_from vk d ns) \<longleftrightarrow> in_type_scope vk d ns x"
proof (induction vk d ns rule: names_from.induct)
  case (1 vk d)
  show ?case by (auto elim: in_type_scope.cases)
next
  case (2 vk d n rest)
  then show ?case
    by (subst in_type_scope.simps) auto
qed


section \<open>Properties\<close>

text \<open>
  The names collected at a node are exactly those some binder around it puts in scope there:
  declared parameters of the enclosing nodes, the key of a mapped type for its value and name types,
  and the inferred names of a conditional type for its true branch only.
\<close>
theorem lexicalTypeParameterNames_exact:
  "x \<in> set (lexicalTypeParameterNames vk l) \<longleftrightarrow> in_type_scope vk (fst l) (fst l # snd l) x"
  unfolding lexicalTypeParameterNames_def by (rule names_from_iff)

end
