(* ===== verification/Type_Aliases.thy ===== *)
theory Type_Aliases
  imports Type_Parameters
begin

text \<open>
  \<open>shared/type-alias-resolution.ts\<close>, first half: the environment of type aliases and competing
  bindings that a program declares, cached per program, and the lexical lookup in it.
\<close>

section \<open>Collecting the bindings of a program\<close>

record type_binding =
  binding_alias :: "loc option"
  binding_name :: string
  binding_scope :: node

record environment =
  aliases :: "loc list"
  bindingsByName :: "(string, type_binding list) js_map"
  environmentKeys :: visitor_keys

definition type_scope_types :: "string list" where
  "type_scope_types =
     [''Program'', ''BlockStatement'', ''TSModuleBlock'', ''StaticBlock'', ''SwitchStatement'']"

definition enclosingTypeScope :: "loc \<Rightarrow> node" where
  "enclosingTypeScope l =
     nullish (find (\<lambda>p. node_type p \<in> set type_scope_types) (snd l)) (fst l)"

text \<open>The name a declaration introduces; only an alias declaration is an alias.\<close>

fun declaredTypeBinding :: "loc \<Rightarrow> (loc option \<times> string) option" where
  "declaredTypeBinding (TSTypeAliasDeclaration i d tps t, anc) =
     Some (Some (TSTypeAliasDeclaration i d tps t, anc), identifier_name d)"
| "declaredTypeBinding (TSInterfaceDeclaration i d tps es b, anc) = Some (None, identifier_name d)"
| "declaredTypeBinding (TSEnumDeclaration i d b, anc) = Some (None, identifier_name d)"
| "declaredTypeBinding (Class i k d tps s b, anc) =
     (case d of None \<Rightarrow> None | Some x \<Rightarrow> Some (None, identifier_name x))"
| "declaredTypeBinding (ImportSpecifier i m x, anc) = Some (None, identifier_name x)"
| "declaredTypeBinding (ImportDefaultSpecifier i x, anc) = Some (None, identifier_name x)"
| "declaredTypeBinding (ImportNamespaceSpecifier i x, anc) = Some (None, identifier_name x)"
| "declaredTypeBinding _ = None"

type_synonym collected = "(string, type_binding list) js_map \<times> loc list"

definition addTypeBinding :: "loc \<Rightarrow> collected \<Rightarrow> collected" where
  "addTypeBinding l st = (case st of (byName, found) \<Rightarrow>
     (case declaredTypeBinding l of
        None \<Rightarrow> (byName, found)
      | Some (alias, name) \<Rightarrow>
          (put name (nullish (get byName name) [] @
             [\<lparr>binding_alias = alias, binding_name = name, binding_scope = enclosingTypeScope l\<rparr>]) byName,
           found @ (case alias of None \<Rightarrow> [] | Some a \<Rightarrow> [a]))))"

fun collectTypeBindings :: "visitor_keys \<Rightarrow> node \<Rightarrow> node list \<Rightarrow> collected \<Rightarrow> collected" where
  "collectTypeBindings vk n anc st =
     fold (\<lambda>c. collectTypeBindings vk c (n # anc)) (visited_children vk n) (addTypeBinding (n, anc) st)"

declare collectTypeBindings.simps [simp del]

definition environmentOf :: "node \<Rightarrow> visitor_keys \<Rightarrow> environment" where
  "environmentOf program vk =
     (case collectTypeBindings vk program [] ([], []) of (byName, found) \<Rightarrow>
        \<lparr>aliases = found, bindingsByName = byName, environmentKeys = vk\<rparr>)"

text \<open>\<open>environmentsByProgram\<close>, the weak map from programs to environments, by identity.\<close>

type_synonym environment_cache = "(nat, environment) js_map"

definition createTypeAliasEnvironment ::
  "environment_cache \<Rightarrow> node \<Rightarrow> visitor_keys \<Rightarrow> environment \<times> environment_cache" where
  "createTypeAliasEnvironment cache program vk =
     (case get cache (nid (info program)) of
        Some cached \<Rightarrow> (cached, cache)
      | None \<Rightarrow> (let environment = environmentOf program vk in
                 (environment, put (nid (info program)) environment cache)))"

subsection \<open>What is collected\<close>

text \<open>The locations the traversal visits, in the order it visits them.\<close>

fun visited_locations :: "visitor_keys \<Rightarrow> node \<Rightarrow> node list \<Rightarrow> loc list" where
  "visited_locations vk n anc =
     (n, anc) # concat (map (\<lambda>c. visited_locations vk c (n # anc)) (visited_children vk n))"

declare visited_locations.simps [simp del]

definition binding_at :: "loc \<Rightarrow> type_binding list" where
  "binding_at l = (case declaredTypeBinding l of
     None \<Rightarrow> []
   | Some (alias, name) \<Rightarrow>
       [\<lparr>binding_alias = alias, binding_name = name, binding_scope = enclosingTypeScope l\<rparr>])"

definition declared_bindings :: "visitor_keys \<Rightarrow> node \<Rightarrow> type_binding list" where
  "declared_bindings vk program = concat (map binding_at (visited_locations vk program []))"

lemma fold_visited:
  "collectTypeBindings vk n anc st = fold addTypeBinding (visited_locations vk n anc) st"
proof (induction vk n anc st rule: collectTypeBindings.induct)
  case (1 vk n anc st)
  have "fold (\<lambda>c. collectTypeBindings vk c (n # anc)) cs s =
      fold addTypeBinding (concat (map (\<lambda>c. visited_locations vk c (n # anc)) cs)) s"
    if "set cs \<subseteq> set (visited_children vk n)" for cs s
    using that 1 by (induction cs arbitrary: s) auto
  from this[OF subset_refl]
  show ?case by (simp add: collectTypeBindings.simps[of vk n] visited_locations.simps[of vk n])
qed

definition bindings_named :: "collected \<Rightarrow> string \<Rightarrow> type_binding list" where
  "bindings_named st x = nullish (get (fst st) x) []"

lemma add_named:
  "bindings_named (addTypeBinding l st) x = bindings_named st x @ filter (\<lambda>b. binding_name b = x) (binding_at l)"
  by (auto simp: addTypeBinding_def bindings_named_def binding_at_def split: prod.splits option.splits)

lemma fold_named:
  "bindings_named (fold addTypeBinding ls st) x =
     bindings_named st x @ filter (\<lambda>b. binding_name b = x) (concat (map binding_at ls))"
  by (induction ls arbitrary: st) (simp_all add: add_named)

lemma fold_aliases:
  "snd (fold addTypeBinding ls st) =
     snd st @ List.map_filter binding_alias (concat (map binding_at ls))"
  by (induction ls arbitrary: st)
    (auto simp: addTypeBinding_def binding_at_def List.map_filter_def split: prod.splits option.splits)

lemma environment_bindings:
  "nullish (get (bindingsByName (environmentOf program vk)) x) [] =
     filter (\<lambda>b. binding_name b = x) (declared_bindings vk program)"
  using fold_named[of "visited_locations vk program []" "([], [])" x]
  by (simp add: environmentOf_def fold_visited bindings_named_def declared_bindings_def case_prod_beta)

lemma environment_aliases:
  "aliases (environmentOf program vk) = List.map_filter binding_alias (declared_bindings vk program)"
  using fold_aliases[of "visited_locations vk program []" "([], [])"]
  by (simp add: environmentOf_def fold_visited declared_bindings_def case_prod_beta)

lemma environment_keys [simp]: "environmentKeys (environmentOf program vk) = vk"
  by (simp add: environmentOf_def split: prod.split)

text \<open>The cache is transparent as long as the visitor keys and the trees do not change.\<close>

definition cache_ok :: "(nat \<Rightarrow> node) \<Rightarrow> visitor_keys \<Rightarrow> environment_cache \<Rightarrow> bool" where
  "cache_ok programs vk cache \<longleftrightarrow>
     list_all (\<lambda>(k, e). e = environmentOf (programs k) vk) cache"

lemma cache_ok_get: "cache_ok programs vk cache \<Longrightarrow> get cache k = Some e \<Longrightarrow> e = environmentOf (programs k) vk"
  by (auto simp: cache_ok_def list_all_iff dest!: map_of_SomeD)

lemma cache_ok_create:
  assumes "cache_ok programs vk cache" and "programs (nid (info program)) = program"
  shows "fst (createTypeAliasEnvironment cache program vk) = environmentOf program vk \<and>
    cache_ok programs vk (snd (createTypeAliasEnvironment cache program vk))"
  using assms cache_ok_get[OF assms(1), of "nid (info program)"]
  by (auto simp: createTypeAliasEnvironment_def Let_def cache_ok_def intro!: put_list_all
      split: option.split)

section \<open>Lexical lookup\<close>

fun distance_from :: "node list \<Rightarrow> node \<Rightarrow> nat \<Rightarrow> nat option" where
  "distance_from [] a d = None"
| "distance_from (current # rest) a d =
     (if same_node current a then Some d else distance_from rest a (d + 1))"

definition ancestorDistance :: "node \<Rightarrow> loc \<Rightarrow> nat option" where
  "ancestorDistance a l = distance_from (fst l # snd l) a 0"

definition nearer :: "loc \<Rightarrow> type_binding \<Rightarrow> nat option \<times> type_binding list \<Rightarrow>
    nat option \<times> type_binding list" where
  "nearer use candidate st = (case st of (nearestDistance, nearest) \<Rightarrow>
     (case ancestorDistance (binding_scope candidate) use of
        None \<Rightarrow> st
      | Some distance \<Rightarrow>
          (case nearestDistance of
             None \<Rightarrow> (Some distance, [candidate])
           | Some best \<Rightarrow>
               if distance > best then st
               else if distance = best then (nearestDistance, nearest @ [candidate])
               else (Some distance, [candidate]))))"

definition nearestTypeBindings :: "string \<Rightarrow> loc \<Rightarrow> environment \<Rightarrow> type_binding list" where
  "nearestTypeBindings name use env =
     snd (fold (nearer use) (nullish (get (bindingsByName env) name) []) (None, []))"

definition visibleTypeAlias :: "string \<Rightarrow> loc \<Rightarrow> environment \<Rightarrow> loc option" where
  "visibleTypeAlias name use env =
     (if name \<in> set (lexicalTypeParameterNames (environmentKeys env) use) then None
      else (case nearestTypeBindings name use env of [b] \<Rightarrow> binding_alias b | _ \<Rightarrow> None))"

definition hasVisibleTypeBinding :: "string \<Rightarrow> loc \<Rightarrow> environment \<Rightarrow> bool" where
  "hasVisibleTypeBinding name use env \<longleftrightarrow>
     name \<in> set (lexicalTypeParameterNames (environmentKeys env) use) \<or>
     length (nearestTypeBindings name use env) > 0"

text \<open>The loop keeps the least distance seen and the candidates at that distance, in order.\<close>

definition distances :: "loc \<Rightarrow> type_binding list \<Rightarrow> nat list" where
  "distances use cs = List.map_filter (\<lambda>c. ancestorDistance (binding_scope c) use) cs"

definition least :: "nat list \<Rightarrow> nat option" where
  "least ds = (if ds = [] then None else Some (Min (set ds)))"

definition at_distance :: "loc \<Rightarrow> nat option \<Rightarrow> type_binding list \<Rightarrow> type_binding list" where
  "at_distance use d cs =
     filter (\<lambda>c. ancestorDistance (binding_scope c) use \<noteq> None \<and> ancestorDistance (binding_scope c) use = d) cs"

lemma distances_append [simp]: "distances use (xs @ ys) = distances use xs @ distances use ys"
  by (simp add: distances_def List.map_filter_def)

lemma distances_one:
  "distances use [c] = (case ancestorDistance (binding_scope c) use of None \<Rightarrow> [] | Some d \<Rightarrow> [d])"
  by (simp add: distances_def List.map_filter_def split: option.split)

lemma least_snoc:
  "least (ds @ [d]) = Some (case least ds of None \<Rightarrow> d | Some b \<Rightarrow> min b d)"
  by (auto simp: least_def min.commute)

lemma least_le:
  "least (distances use cs) = Some b \<Longrightarrow> c \<in> set cs \<Longrightarrow> ancestorDistance (binding_scope c) use = Some d \<Longrightarrow> b \<le> d"
proof -
  assume b: "least (distances use cs) = Some b" and "c \<in> set cs"
    and "ancestorDistance (binding_scope c) use = Some d"
  then have "d \<in> set (distances use cs)" by (force simp: distances_def List.map_filter_def)
  with b show "b \<le> d" by (auto simp: least_def split: if_splits)
qed

lemma least_bound: "least (distances use cs) = Some b \<Longrightarrow> d < b \<Longrightarrow> at_distance use (Some d) cs = []"
  by (auto simp: at_distance_def filter_empty_conv dest!: least_le)

lemma least_empty: "least (distances use cs) = None \<Longrightarrow> at_distance use d cs = []"
  by (auto simp: least_def at_distance_def distances_def List.map_filter_def filter_empty_conv
      split: if_splits)

lemma nearer_loop:
  "fold (nearer use) cs (None, []) = (least (distances use cs), at_distance use (least (distances use cs)) cs)"
proof (induction cs rule: rev_induct)
  case Nil
  show ?case by (simp add: least_def distances_def List.map_filter_def at_distance_def)
next
  case (snoc c cs)
  show ?case
  proof (cases "ancestorDistance (binding_scope c) use")
    case None
    with snoc show ?thesis by (simp add: nearer_def distances_one at_distance_def)
  next
    case (Some d)
    show ?thesis
    proof (cases "least (distances use cs)")
      case None
      with Some snoc least_empty[OF None] show ?thesis
        by (simp add: nearer_def distances_one least_snoc) (simp add: at_distance_def)
    next
      case best: (Some b)
      with Some snoc least_bound[OF best, of d] show ?thesis
        by (auto simp: nearer_def distances_one least_snoc min_def)
          (auto simp: at_distance_def)
    qed
  qed
qed

lemma nearestTypeBindings_filter:
  "nearestTypeBindings name use env =
     (let cs = nullish (get (bindingsByName env) name) [] in at_distance use (least (distances use cs)) cs)"
  by (simp add: nearestTypeBindings_def nearer_loop Let_def)

lemma nearest_subset:
  "set (nearestTypeBindings name use env) \<subseteq> set (nullish (get (bindingsByName env) name) [])"
  by (auto simp: nearestTypeBindings_filter Let_def at_distance_def)

lemma visible_alias_candidate:
  "visibleTypeAlias name use env = Some a \<Longrightarrow>
     \<exists>b. nearestTypeBindings name use env = [b] \<and> binding_alias b = Some a \<and>
         name \<notin> set (lexicalTypeParameterNames (environmentKeys env) use)"
  by (auto simp: visibleTypeAlias_def split: if_splits list.splits)

text \<open>A name with a visible alias has a visible binding.\<close>

lemma visible_alias_binding: "visibleTypeAlias name use env = Some a \<Longrightarrow> hasVisibleTypeBinding name use env"
  by (auto simp: hasVisibleTypeBinding_def dest: visible_alias_candidate)

section \<open>Properties\<close>

text \<open>
  C18: the environment of a program holds, for every name, exactly the declarations of that name
  the traversal meets, in program order, and its aliases are the alias declarations in that order.
\<close>
theorem environment_exact:
  "nullish (get (bindingsByName (environmentOf program vk)) x) [] =
     filter (\<lambda>b. binding_name b = x) (declared_bindings vk program) \<and>
   aliases (environmentOf program vk) = List.map_filter binding_alias (declared_bindings vk program)"
  by (simp add: environment_bindings environment_aliases)

text \<open>
  C15: lexical lookup finds the candidates whose scope is nearest to the use, all of them and in
  order, and no candidate whose scope does not enclose the use.
\<close>
theorem nearestTypeBindings_exact:
  "nearestTypeBindings name use env =
     (let candidates = nullish (get (bindingsByName env) name) []
      in at_distance use (least (distances use candidates)) candidates)"
  by (rule nearestTypeBindings_filter)


text \<open>
  A cache that holds the environment of every program it knows still does after an environment is
  asked for, and the answer is the environment of the program, cached or not.
\<close>
theorem createTypeAliasEnvironment_cached:
  "cache_ok programs vk cache \<Longrightarrow> programs (nid (info program)) = program \<Longrightarrow>
     fst (createTypeAliasEnvironment cache program vk) = environmentOf program vk \<and>
     cache_ok programs vk (snd (createTypeAliasEnvironment cache program vk))"
  by (rule cache_ok_create)

theorem createTypeAliasEnvironment_cached_witness:
  "fst (createTypeAliasEnvironment [] (Program \<lparr>nid = 0, start = 0, stop = 0, start_line = 1, end_line = 1\<rparr> []) Map.empty) =
     environmentOf (Program \<lparr>nid = 0, start = 0, stop = 0, start_line = 1, end_line = 1\<rparr> []) Map.empty"
  using createTypeAliasEnvironment_cached
    [of "\<lambda>k. Program \<lparr>nid = 0, start = 0, stop = 0, start_line = 1, end_line = 1\<rparr> []" Map.empty "[]"
        "Program \<lparr>nid = 0, start = 0, stop = 0, start_line = 1, end_line = 1\<rparr> []"]
  by (simp add: cache_ok_def)

end
