(* ===== verification/Type_Resolution.thy ===== *)
theory Type_Resolution
  imports Type_Aliases
begin

text \<open>
  \<open>shared/type-alias-resolution.ts\<close>, second half: matching a type after resolving visible aliases
  and substituting their parameters. The matcher is a callback that is handed the recursive call, so
  the evaluation carries fuel: \<open>None\<close> says the fuel ran out. A lexicographic measure (aliases not
  yet being resolved, nesting of the substitutions, size of the type) shows that some fuel is always
  enough, for every matcher that looks at smaller types only.
\<close>

section \<open>Evaluation\<close>

datatype substitution = Substitution (substituted_type: loc) (inner_substitutions: "(string \<times> substitution) list")

type_synonym substitutions = "(string, substitution) js_map"

type_synonym matcher = "loc \<Rightarrow> (loc \<Rightarrow> bool option) \<Rightarrow> bool option"

text \<open>\<open>typeArguments?.params\<close>, with the location of each.\<close>

fun type_arguments :: "loc \<Rightarrow> loc list" where
  "type_arguments (TSTypeReference i n (Some (TSTypeParameterInstantiation j ts)), anc) =
     map (\<lambda>t. (t, TSTypeParameterInstantiation j ts # TSTypeReference i n (Some (TSTypeParameterInstantiation j ts)) # anc)) ts"
| "type_arguments _ = []"

fun typeReferenceName :: "node \<Rightarrow> string option" where
  "typeReferenceName (TSTypeReference i (Identifier j x t) a) = Some x"
| "typeReferenceName _ = None"

fun alias_annotation :: "loc \<Rightarrow> loc" where
  "alias_annotation (TSTypeAliasDeclaration i d tps t, anc) = (t, TSTypeAliasDeclaration i d tps t # anc)"
| "alias_annotation l = l"

text \<open>The parameters of an alias: each name, with its default.\<close>

fun parameter_of :: "node list \<Rightarrow> node \<Rightarrow> string \<times> loc option" where
  "parameter_of anc (TSTypeParameter i n c d) =
     (identifier_name n, map_option (\<lambda>t. (t, TSTypeParameter i n c d # anc)) d)"
| "parameter_of anc _ = ([], None)"

fun alias_parameters :: "loc \<Rightarrow> (string \<times> loc option) list" where
  "alias_parameters (TSTypeAliasDeclaration i d (Some (TSTypeParameterDeclaration j ps)) t, anc) =
     map (parameter_of (TSTypeParameterDeclaration j ps #
        TSTypeAliasDeclaration i d (Some (TSTypeParameterDeclaration j ps)) t # anc)) ps"
| "alias_parameters _ = []"

text \<open>
  The loop of \<open>aliasSubstitutions\<close>: an explicit argument is read under the substitutions of the
  reference, a default under the substitutions built so far.
\<close>

fun bind_parameters ::
  "(string \<times> loc option) list \<Rightarrow> loc list \<Rightarrow> substitutions \<Rightarrow> substitutions \<Rightarrow> substitutions option" where
  "bind_parameters [] arguments base next_map = Some next_map"
| "bind_parameters ((name, default_type) # ps) [] base next_map =
     (case default_type of
        None \<Rightarrow> None
      | Some d \<Rightarrow> bind_parameters ps [] base (put name (Substitution d next_map) next_map))"
| "bind_parameters ((name, default_type) # ps) (a # arguments) base next_map =
     bind_parameters ps arguments base (put name (Substitution a base) next_map)"

definition aliasSubstitutions :: "loc \<Rightarrow> loc \<Rightarrow> substitutions \<Rightarrow> substitutions option" where
  "aliasSubstitutions alias reference base =
     bind_parameters (alias_parameters alias) (type_arguments reference) base base"

text \<open>
  What a type reference leads to: the type substituted for a parameter, the body of a visible alias,
  or nothing, when the matcher decides.
\<close>

definition redirect ::
  "environment \<Rightarrow> loc \<Rightarrow> substitutions \<Rightarrow> nat set \<Rightarrow> (loc \<times> substitutions \<times> nat set) option" where
  "redirect env current substs resolving =
     (case typeReferenceName (fst current) of
        None \<Rightarrow> None
      | Some name \<Rightarrow>
          (case (get substs name, type_arguments current) of
             (Some s, []) \<Rightarrow> Some (substituted_type s, inner_substitutions s, resolving)
           | _ \<Rightarrow>
               (case visibleTypeAlias name current env of
                  None \<Rightarrow> None
                | Some alias \<Rightarrow>
                    if nid (info (fst alias)) \<in> resolving then None
                    else (case aliasSubstitutions alias current substs of
                            None \<Rightarrow> None
                          | Some next_map \<Rightarrow>
                              Some (alias_annotation alias, next_map,
                                insert (nid (info (fst alias))) resolving)))))"

fun evaluate ::
  "matcher \<Rightarrow> environment \<Rightarrow> nat \<Rightarrow> loc \<Rightarrow> substitutions \<Rightarrow> nat set \<Rightarrow> bool option" where
  "evaluate matcher env 0 current substs resolving = None"
| "evaluate matcher env (Suc fuel) current substs resolving =
     (case redirect env current substs resolving of
        Some (next_type, next_map, next_resolving) \<Rightarrow>
          evaluate matcher env fuel next_type next_map next_resolving
      | None \<Rightarrow> matcher current (\<lambda>child. evaluate matcher env fuel child substs resolving))"

definition resolvedTypeMatches :: "nat \<Rightarrow> loc \<Rightarrow> environment \<Rightarrow> matcher \<Rightarrow> bool option" where
  "resolvedTypeMatches fuel l env matcher = evaluate matcher env fuel l [] {}"

section \<open>Every redirection makes progress\<close>

definition alias_ids :: "environment \<Rightarrow> nat set" where
  "alias_ids env = (\<lambda>a. nid (info (fst a))) `
     (\<Union>(k, bs) \<in> set (bindingsByName env). \<Union>b \<in> set bs. set_option (binding_alias b))"

lemma finite_alias_ids [simp]: "finite (alias_ids env)"
  by (auto simp: alias_ids_def intro!: finite_imageI finite_UN_I split: prod.splits)

lemma visible_alias_known: "visibleTypeAlias name use env = Some a \<Longrightarrow> nid (info (fst a)) \<in> alias_ids env"
proof -
  assume "visibleTypeAlias name use env = Some a"
  then obtain b where b: "nearestTypeBindings name use env = [b]" "binding_alias b = Some a"
    using visible_alias_candidate by blast
  with nearest_subset[of name use env] have "b \<in> set (nullish (get (bindingsByName env) name) [])" by simp
  then obtain bs where "get (bindingsByName env) name = Some bs" "b \<in> set bs"
    by (cases "get (bindingsByName env) name") auto
  with b have "a \<in> (\<Union>(k, bs) \<in> set (bindingsByName env). \<Union>b \<in> set bs. set_option (binding_alias b))"
    by (force dest: map_of_SomeD)
  then show ?thesis unfolding alias_ids_def by (rule imageI)
qed

definition nesting :: "substitutions \<Rightarrow> nat" where
  "nesting m = size_list (size_prod (\<lambda>_. 0) size) m"

lemma inner_nesting: "get m x = Some s \<Longrightarrow> nesting (inner_substitutions s) < nesting m"
proof -
  assume "get m x = Some s"
  then have "(x, s) \<in> set m" by (rule map_of_SomeD)
  then show ?thesis
    unfolding nesting_def by (rule size_list_estimation) (cases s; simp)
qed

text \<open>The lexicographic measure of an evaluation.\<close>

definition work :: "environment \<Rightarrow> ((loc \<times> substitutions \<times> nat set) \<times> (loc \<times> substitutions \<times> nat set)) set" where
  "work env = measures [\<lambda>(l, m, R). card (alias_ids env - R), \<lambda>(l, m, R). nesting m, \<lambda>(l, m, R). size (fst l)]"

lemma wf_work: "wf (work env)"
  by (simp add: work_def)

lemma redirect_work:
  "redirect env l m R = Some (l', m', R') \<Longrightarrow> ((l', m', R'), (l, m, R)) \<in> work env"
  by (auto simp: redirect_def work_def dest: inner_nesting visible_alias_known
      split: option.splits list.splits if_splits)

section \<open>The interface of a matcher\<close>

text \<open>
  What the evaluation needs of a matcher: it asks about finitely many, strictly smaller types, is
  defined when they are, and more defined answers below do not change a defined answer above.
\<close>

locale resolved_type_matcher =
  fixes matcher :: matcher
    and parts :: "loc \<Rightarrow> loc list"
  assumes matcher_mono: "refines f g \<Longrightarrow> matcher l f = Some b \<Longrightarrow> matcher l g = Some b"
    and matcher_defined: "(\<And>c. c \<in> set (parts l) \<Longrightarrow> f c \<noteq> None) \<Longrightarrow> matcher l f \<noteq> None"
    and part_size: "c \<in> set (parts l) \<Longrightarrow> size (fst c) < size (fst l)"
begin

lemma eval_step: "evaluate matcher env fuel l m R = Some b \<Longrightarrow> evaluate matcher env (Suc fuel) l m R = Some b"
proof (induction fuel arbitrary: l m R b)
  case (Suc fuel)
  show ?case
  proof (cases "redirect env l m R")
    case None
    have "refines (\<lambda>c. evaluate matcher env fuel c m R) (\<lambda>c. evaluate matcher env (Suc fuel) c m R)"
      using Suc.IH by (simp add: refines_def)
    from matcher_mono[OF this] None Suc.prems show ?thesis by simp
  next
    case (Some p)
    with Suc show ?thesis by (cases p) simp
  qed
qed simp

lemma eval_mono:
  "evaluate matcher env fuel l m R = Some b \<Longrightarrow> fuel \<le> fuel' \<Longrightarrow> evaluate matcher env fuel' l m R = Some b"
proof (induction fuel')
  case (Suc fuel')
  then show ?case using eval_step[of env fuel' l m R b] by (cases "fuel = Suc fuel'") auto
qed simp

text \<open>The answer, when there is one, does not depend on the fuel.\<close>

lemma eval_agree:
  "evaluate matcher env fuel l m R = Some b \<Longrightarrow> evaluate matcher env fuel' l m R = Some b' \<Longrightarrow> b = b'"
  using eval_mono[of env fuel l m R b "max fuel fuel'"] eval_mono[of env fuel' l m R b' "max fuel fuel'"]
  by simp

lemma part_work: "c \<in> set (parts l) \<Longrightarrow> ((c, m, R), (l, m, R)) \<in> work env"
  by (simp add: work_def part_size)

text \<open>Enough fuel for finitely many types at once.\<close>

lemma common_fuel:
  assumes "\<And>c. c \<in> set cs \<Longrightarrow> \<exists>N. \<forall>fuel \<ge> N. evaluate matcher env fuel c m R \<noteq> None"
  shows "\<exists>N. \<forall>fuel \<ge> N. \<forall>c \<in> set cs. evaluate matcher env fuel c m R \<noteq> None"
  using assms
proof (induction cs)
  case (Cons c cs)
  then obtain N where "\<forall>fuel \<ge> N. \<forall>c \<in> set cs. evaluate matcher env fuel c m R \<noteq> None" by auto
  moreover from Cons.prems[of c]
  obtain M where "\<forall>fuel \<ge> M. evaluate matcher env fuel c m R \<noteq> None" by auto
  ultimately show ?case by (intro exI[of _ "max M N"]) simp
qed simp

lemma eval_terminates: "\<exists>N. \<forall>fuel \<ge> N. evaluate matcher env fuel l m R \<noteq> None"
proof (induction "(l, m, R)" arbitrary: l m R rule: wf_induct_rule[OF wf_work[of env]])
  case (1 l m R)
  show ?case
  proof (cases "redirect env l m R")
    case None
    obtain N where N: "\<forall>fuel \<ge> N. \<forall>c \<in> set (parts l). evaluate matcher env fuel c m R \<noteq> None"
      using common_fuel[of "parts l" env m R] 1 part_work by blast
    have "evaluate matcher env fuel l m R \<noteq> None" if "fuel \<ge> Suc N" for fuel
      using that None N matcher_defined by (cases fuel) auto
    then show ?thesis by blast
  next
    case (Some p)
    then obtain l' m' R' where step: "redirect env l m R = Some (l', m', R')" by (cases p) auto
    from 1[OF redirect_work[OF this]] obtain N where
      N: "\<forall>fuel \<ge> N. evaluate matcher env fuel l' m' R' \<noteq> None" by blast
    have "evaluate matcher env fuel l m R \<noteq> None" if "fuel \<ge> Suc N" for fuel
      using that step N by (cases fuel) auto
    then show ?thesis by blast
  qed
qed

end

section \<open>Matchers that search\<close>

text \<open>
  The matchers of the rules all have one shape: a type is a hit, or one of its parts matches. For
  these the evaluation is a search, and \<open>reaches\<close> says what it looks for.
\<close>

inductive reaches ::
  "environment \<Rightarrow> (loc \<Rightarrow> bool) \<Rightarrow> (loc \<Rightarrow> loc list) \<Rightarrow> loc \<Rightarrow> substitutions \<Rightarrow> nat set \<Rightarrow> bool"
  for env hit parts where
  redirected: "redirect env l m R = Some (l', m', R') \<Longrightarrow> reaches env hit parts l' m' R' \<Longrightarrow>
    reaches env hit parts l m R"
| hits: "redirect env l m R = None \<Longrightarrow> hit l \<Longrightarrow> reaches env hit parts l m R"
| in_part: "redirect env l m R = None \<Longrightarrow> c \<in> set (parts l) \<Longrightarrow> reaches env hit parts c m R \<Longrightarrow>
    reaches env hit parts l m R"

locale search_matcher =
  fixes matcher :: matcher
    and hit :: "loc \<Rightarrow> bool"
    and parts :: "loc \<Rightarrow> loc list"
  assumes matcher_searches: "matcher l f = (if hit l then Some True else some_m f (parts l))"
    and search_part_size: "c \<in> set (parts l) \<Longrightarrow> size (fst c) < size (fst l)"

sublocale search_matcher \<subseteq> resolved_type_matcher matcher parts
proof unfold_locales
  show "matcher l g = Some b" if "refines f g" "matcher l f = Some b" for f g l b
    using that some_m_mono by (simp add: matcher_searches split: if_splits)
  show "matcher l f \<noteq> None" if "\<And>c. c \<in> set (parts l) \<Longrightarrow> f c \<noteq> None" for f l
    using some_m_defined[of "parts l" f, OF that] by (cases "hit l") (auto simp: matcher_searches)
qed (rule search_part_size)

context search_matcher
begin

lemma eval_sound: "evaluate matcher env fuel l m R = Some True \<Longrightarrow> reaches env hit parts l m R"
proof (induction fuel arbitrary: l m R)
  case (Suc fuel)
  show ?case
  proof (cases "redirect env l m R")
    case None
    with Suc.prems have "hit l \<or> some_m (\<lambda>c. evaluate matcher env fuel c m R) (parts l) = Some True"
      by (simp add: matcher_searches[of l] split: if_splits)
    then show ?thesis using None Suc.IH hits in_part some_m_True by metis
  next
    case (Some p)
    with Suc show ?thesis by (cases p) (auto intro: redirected)
  qed
qed simp

lemma eval_complete:
  "reaches env hit parts l m R \<Longrightarrow> evaluate matcher env fuel l m R \<noteq> Some False"
proof (induction arbitrary: fuel rule: reaches.induct)
  case (redirected l m R l' m' R')
  then show ?case by (cases fuel) simp_all
next
  case (hits l m R)
  then show ?case by (cases fuel) (simp_all add: matcher_searches)
next
  case (in_part l m R c)
  then show ?case by (cases fuel) (auto simp: matcher_searches some_m_False)
qed

lemma eval_reaches: "\<exists>N. \<forall>fuel \<ge> N. evaluate matcher env fuel l m R = Some (reaches env hit parts l m R)"
proof -
  obtain N where N: "\<forall>fuel \<ge> N. evaluate matcher env fuel l m R \<noteq> None" using eval_terminates by blast
  have "evaluate matcher env fuel l m R = Some (reaches env hit parts l m R)" if "fuel \<ge> N" for fuel
  proof (cases "evaluate matcher env fuel l m R")
    case None
    with N that show ?thesis by blast
  next
    case (Some b)
    then show ?thesis using eval_sound eval_complete by (cases b) fastforce+
  qed
  then show ?thesis by blast
qed

end

text \<open>A search that hits more and looks into more parts finds more.\<close>

lemma reaches_mono:
  "reaches env hit parts l m R \<Longrightarrow> (\<And>l. hit l \<Longrightarrow> hit' l) \<Longrightarrow>
     (\<And>l. set (parts l) \<subseteq> set (parts' l)) \<Longrightarrow> reaches env hit' parts' l m R"
proof (induction rule: reaches.induct)
  case (in_part l m R c)
  then show ?case using reaches.in_part by (metis subsetD)
qed (simp_all add: reaches.redirected reaches.hits)

end
