(* ===== verification/Text.thy ===== *)
theory Text
  imports Main
begin

text \<open>
  The string operations of JavaScript the rules use, and the JSON values of rule options. A string
  is a list of characters, so the model covers texts whose code units are below 256.
\<close>

section \<open>White space and case\<close>

text \<open>
  The characters \<open>trim\<close>, \<open>trimEnd\<close> and the regular expression class of white space take for white
  space: spaces and line terminators.
\<close>

definition js_space :: "char \<Rightarrow> bool" where
  "js_space c \<longleftrightarrow> of_char c \<in> {9, 10, 11, 12, 13, 32, 160 :: nat}"

definition trimEnd :: "string \<Rightarrow> string" where
  "trimEnd s = rev (dropWhile js_space (rev s))"

definition trim :: "string \<Rightarrow> string" where
  "trim s = dropWhile js_space (trimEnd s)"

text \<open>
  \<open>toLowerCase\<close> on the characters of the model (code units below 256): ASCII letters and the
  Latin-1 letters from 192 to 222, the multiplication sign 215 apart.
\<close>

definition lower :: "char \<Rightarrow> char" where
  "lower c = (let n = of_char c :: nat in
     if 65 \<le> n \<and> n \<le> 90 \<or> 192 \<le> n \<and> n \<le> 222 \<and> n \<noteq> 215 then char_of (n + 32) else c)"

definition toLowerCase :: "string \<Rightarrow> string" where
  "toLowerCase s = map lower s"

fun starts_with :: "string \<Rightarrow> string \<Rightarrow> bool" where
  "starts_with [] s = True"
| "starts_with (p # ps) [] = False"
| "starts_with (p # ps) (c # cs) = (p = c \<and> starts_with ps cs)"

fun has_substring :: "string \<Rightarrow> string \<Rightarrow> bool" where
  "has_substring [] p = (p = [])"
| "has_substring (c # cs) p = (starts_with p (c # cs) \<or> has_substring cs p)"

lemma starts_with_iff: "starts_with p s \<longleftrightarrow> (\<exists>r. s = p @ r)"
  by (induction p s rule: starts_with.induct) auto

lemma has_substring_iff: "has_substring s p \<longleftrightarrow> (\<exists>a b. s = a @ p @ b)"
proof (induction s)
  case (Cons c cs)
  show ?case (is "_ \<longleftrightarrow> ?split")
  proof
    assume "has_substring (c # cs) p"
    then consider r where "c # cs = p @ r" | a b where "cs = a @ p @ b"
      using Cons by (auto simp: starts_with_iff)
    then show ?split by cases (metis append_Nil, metis append_Cons)
  next
    assume ?split
    then obtain a b where "c # cs = a @ p @ b" by blast
    then have "starts_with p (c # cs) \<or> (\<exists>a b. cs = a @ p @ b)"
      by (cases a) (auto simp: starts_with_iff)
    then show "has_substring (c # cs) p" using Cons by auto
  qed
qed auto

lemma has_substring_map: "has_substring (map f s) p \<longleftrightarrow> (\<exists>a m b. s = a @ m @ b \<and> map f m = p)"
proof
  assume "has_substring (map f s) p"
  then obtain a b where "map f s = a @ (p @ b)" by (auto simp: has_substring_iff)
  then obtain n k where s: "s = n @ k" and "p @ b = map f k" unfolding map_eq_append_conv by metis
  then have "map f k = p @ b" by simp
  then obtain m j where "k = m @ j" "map f m = p" unfolding map_eq_append_conv by metis
  with s show "\<exists>a m b. s = a @ m @ b \<and> map f m = p" by auto
next
  assume "\<exists>a m b. s = a @ m @ b \<and> map f m = p"
  then show "has_substring (map f s) p" unfolding has_substring_iff by (metis map_append)
qed

lemma trim_solid: "trim s \<noteq> [] \<Longrightarrow> \<not> js_space (hd (trim s))"
  unfolding trim_def by (rule hd_dropWhile) simp

section \<open>Options\<close>

text \<open>An option of a rule, as the configuration file gives it.\<close>

datatype json =
    JNull
  | JBool bool
  | JNumber int
  | JString string
  | JArray "json list"
  | JObject "(string \<times> json) list"

end
