(* ===== verification/Contracts.thy ===== *)
theory Contracts
  imports Linter Type_Resolution Text
begin

text \<open>
  Rules on function contracts: \<open>shared/function-parameters.ts\<close>, \<open>no-unknown-parameters\<close>,
  \<open>no-unknown-returns\<close>, \<open>no-unknown-type-aliases\<close> and \<open>no-object-parameters\<close>.
\<close>

section \<open>Parameters and annotations\<close>

text \<open>The nodes with \<open>params\<close> and \<open>returnType\<close>, which the rules register handlers for.\<close>

fun as_contract :: "node \<Rightarrow> (node list \<times> node option) option" where
  "as_contract (Function i k d tps ps r b) = Some (ps, r)"
| "as_contract (ArrowFunctionExpression i tps ps r b) = Some (ps, r)"
| "as_contract (TSSignature i k key tps ps r) = Some (ps, r)"
| "as_contract _ = None"

text \<open>\<open>annotation.typeAnnotation\<close>.\<close>

fun annotated_type :: "loc \<Rightarrow> loc option" where
  "annotated_type (TSTypeAnnotation i t, anc) = Some (t, TSTypeAnnotation i t # anc)"
| "annotated_type _ = None"

fun containsUnknownType :: "node \<Rightarrow> bool" where
  "containsUnknownType (TSKeyword i k) = (k = TSUnknownKeyword)"
| "containsUnknownType (TSParenthesizedType i t) = containsUnknownType t"
| "containsUnknownType (TSUnionType i ts) = list_ex containsUnknownType ts"
| "containsUnknownType _ = False"

fun own_annotation :: "node \<Rightarrow> node option" where
  "own_annotation (Identifier i x t) = t"
| "own_annotation (BindingPattern i k xs t) = t"
| "own_annotation (RestElement i a t) = t"
| "own_annotation (AssignmentPattern i l r t) = t"
| "own_annotation _ = None"

function functionParameterTypeAnnotation :: "node \<Rightarrow> node list \<Rightarrow> loc option" where
  "functionParameterTypeAnnotation n anc =
     (case n of
        TSParameterProperty i p \<Rightarrow> functionParameterTypeAnnotation p (n # anc)
      | RestElement i a t \<Rightarrow>
          (case t of Some x \<Rightarrow> Some (x, n # anc) | None \<Rightarrow> functionParameterTypeAnnotation a (n # anc))
      | AssignmentPattern i l r t \<Rightarrow>
          (case t of Some x \<Rightarrow> Some (x, n # anc) | None \<Rightarrow> functionParameterTypeAnnotation l (n # anc))
      | _ \<Rightarrow> map_option (\<lambda>x. (x, n # anc)) (own_annotation n))"
  by pat_completeness auto
termination by (relation "measure (\<lambda>(n, anc). size n)") auto

declare functionParameterTypeAnnotation.simps [simp del]

fun functionParameterBindingName :: "source_code \<Rightarrow> node \<Rightarrow> string" where
  "functionParameterBindingName sc (TSParameterProperty i p) = functionParameterBindingName sc p"
| "functionParameterBindingName sc (AssignmentPattern i l r t) = functionParameterBindingName sc l"
| "functionParameterBindingName sc (RestElement i a t) = functionParameterBindingName sc a"
| "functionParameterBindingName sc (Identifier i x t) = x"
| "functionParameterBindingName sc n =
     (case own_annotation n of
        None \<Rightarrow> getText sc n
      | Some t \<Rightarrow> trimEnd (take (start (info t) - start (info n)) (getText sc n)))"

text \<open>
  The syntactic wrappers of a binding do not change its name, and the annotation found is that of
  the outermost wrapper that has one.
\<close>

fun binding_inner :: "node \<Rightarrow> node option" where
  "binding_inner (TSParameterProperty i p) = Some p"
| "binding_inner (AssignmentPattern i l r t) = Some l"
| "binding_inner (RestElement i a t) = Some a"
| "binding_inner _ = None"

fun binding_chain :: "node \<Rightarrow> node list \<Rightarrow> loc list" where
  "binding_chain (TSParameterProperty i p) anc = (TSParameterProperty i p, anc) # binding_chain p (TSParameterProperty i p # anc)"
| "binding_chain (AssignmentPattern i l r t) anc = (AssignmentPattern i l r t, anc) # binding_chain l (AssignmentPattern i l r t # anc)"
| "binding_chain (RestElement i a t) anc = (RestElement i a t, anc) # binding_chain a (RestElement i a t # anc)"
| "binding_chain n anc = [(n, anc)]"

lemma annotation_outermost:
  "functionParameterTypeAnnotation n anc =
     first_some (\<lambda>(m, ps). map_option (\<lambda>a. (a, m # ps)) (own_annotation m)) (binding_chain n anc)"
  by (induction n anc rule: binding_chain.induct)
    (simp_all add: functionParameterTypeAnnotation.simps[of "Node i x" for i x] split: option.split)

section \<open>Unknown parameters\<close>

definition isTypePredicateSubject :: "node option \<Rightarrow> string \<Rightarrow> bool" where
  "isTypePredicateSubject returnType parameterName =
     (case Option.bind returnType annotation_type of
        Some (TSTypePredicate i (Identifier j x t) p) \<Rightarrow> x = parameterName
      | _ \<Rightarrow> False)"

definition unknown_parameter :: "source_code \<Rightarrow> loc \<Rightarrow> node option \<Rightarrow> node \<Rightarrow> report list" where
  "unknown_parameter sc l returnType p =
     (case Option.bind (functionParameterTypeAnnotation p (fst l # snd l)) annotated_type of
        None \<Rightarrow> []
      | Some t \<Rightarrow>
          if \<not> containsUnknownType (fst t) then []
          else (let name = functionParameterBindingName sc p in
                if name = ''cause'' \<or> isTypePredicateSubject returnType name then []
                else [\<lparr>report_node = fst t, message_id = ''unknownParameter'',
                       report_data = [(''parameter'', name)]\<rparr>]))"

definition noUnknownParameters :: "source_code \<Rightarrow> loc \<Rightarrow> report list" where
  "noUnknownParameters sc l =
     (case as_contract (fst l) of
        None \<Rightarrow> []
      | Some (params, returnType) \<Rightarrow> concat (map (unknown_parameter sc l returnType) params))"

section \<open>Rules that capture the alias environment\<close>

text \<open>
  The closure variable \<open>environment\<close> of a rule, null until the program is entered, and the cache
  its \<open>Program\<close> handler shares with the other rules.
\<close>

record captured =
  captured_environment :: "environment option"
  environmentsByProgram :: environment_cache

definition not_started :: captured where
  "not_started = \<lparr>captured_environment = None, environmentsByProgram = []\<rparr>"

definition captureEnvironment :: "source_code \<Rightarrow> node \<Rightarrow> captured \<Rightarrow> captured" where
  "captureEnvironment sc program st =
     (case createTypeAliasEnvironment (environmentsByProgram st) program (visitorKeys sc) of
        (env, cache) \<Rightarrow> \<lparr>captured_environment = Some env, environmentsByProgram = cache\<rparr>)"

definition resolvesTo :: "matcher \<Rightarrow> nat \<Rightarrow> environment option \<Rightarrow> loc \<Rightarrow> bool option" where
  "resolvesTo matcher fuel env l =
     (case env of None \<Rightarrow> Some False | Some e \<Rightarrow> resolvedTypeMatches fuel l e matcher)"

text \<open>
  The interface of such a rule: its node handler only reads the environment, and with enough fuel it
  reports what the environment determines.
\<close>

locale capturing_rule =
  fixes handler :: "nat \<Rightarrow> captured \<Rightarrow> loc \<Rightarrow> (captured \<times> report list) option"
    and expected :: "environment \<Rightarrow> loc \<Rightarrow> report list"
  assumes handler_expected: "captured_environment st = Some env \<Longrightarrow>
      enough (\<lambda>fuel. handler fuel st l = Some (st, expected env l))"
begin

lemma lint_expected:
  "enough (\<lambda>fuel. lint (captureEnvironment sc) (handler fuel) not_started program =
     Some (concat (map (expected (environmentOf program (visitorKeys sc))) (locations program []))))"
proof -
  let ?st = "captureEnvironment sc program not_started"
  let ?env = "environmentOf program (visitorKeys sc)"
  have "captured_environment ?st = Some ?env"
    by (simp add: captureEnvironment_def not_started_def createTypeAliasEnvironment_def Let_def)
  then have "enough (\<lambda>fuel. \<forall>l \<in> set (locations program []). handler fuel ?st l = Some (?st, expected ?env l))"
    by (intro enough_list handler_expected)
  then show ?thesis
    by (rule enough_mp) (simp add: lint_def run_rule_steady[of _ _ _ "expected ?env"])
qed

end

subsection \<open>Matchers\<close>

fun union_parts :: "loc \<Rightarrow> loc list" where
  "union_parts (TSParenthesizedType i t, anc) = [child_loc (TSParenthesizedType i t, anc) t]"
| "union_parts (TSUnionType i ts, anc) = map (child_loc (TSUnionType i ts, anc)) ts"
| "union_parts _ = []"

fun promised_value :: "loc \<Rightarrow> loc list" where
  "promised_value (TSTypeReference i (Identifier j x t) a, anc) =
     (if x = ''Promise'' \<or> x = ''PromiseLike''
      then take 1 (type_arguments (TSTypeReference i (Identifier j x t) a, anc)) else [])"
| "promised_value _ = []"

definition is_keyword :: "keyword_type \<Rightarrow> loc \<Rightarrow> bool" where
  "is_keyword k l \<longleftrightarrow> (\<exists>i. fst l = TSKeyword i k)"

fun unknown_alias_matcher :: matcher where
  "unknown_alias_matcher (TSKeyword i k, anc) matches = Some (k = TSUnknownKeyword)"
| "unknown_alias_matcher (TSParenthesizedType i t, anc) matches =
     matches (child_loc (TSParenthesizedType i t, anc) t)"
| "unknown_alias_matcher (TSUnionType i ts, anc) matches =
     some_m matches (map (child_loc (TSUnionType i ts, anc)) ts)"
| "unknown_alias_matcher _ matches = Some False"

fun object_matcher :: matcher where
  "object_matcher (TSKeyword i k, anc) matches = Some (k = TSObjectKeyword)"
| "object_matcher (TSParenthesizedType i t, anc) matches =
     matches (child_loc (TSParenthesizedType i t, anc) t)"
| "object_matcher (TSUnionType i ts, anc) matches =
     some_m matches (map (child_loc (TSUnionType i ts, anc)) ts)"
| "object_matcher _ matches = Some False"

fun unknown_return_matcher :: matcher where
  "unknown_return_matcher (TSKeyword i k, anc) matches = Some (k = TSUnknownKeyword)"
| "unknown_return_matcher (TSParenthesizedType i t, anc) matches =
     matches (child_loc (TSParenthesizedType i t, anc) t)"
| "unknown_return_matcher (TSUnionType i ts, anc) matches =
     some_m matches (map (child_loc (TSUnionType i ts, anc)) ts)"
| "unknown_return_matcher (TSTypeReference i (Identifier j x t) a, anc) matches =
     (if x \<noteq> ''Promise'' \<and> x \<noteq> ''PromiseLike'' then Some False
      else (case at (type_arguments (TSTypeReference i (Identifier j x t) a, anc)) 0 of
              None \<Rightarrow> Some False
            | Some v \<Rightarrow> matches v))"
| "unknown_return_matcher _ matches = Some False"

definition return_parts :: "loc \<Rightarrow> loc list" where
  "return_parts l = union_parts l @ promised_value l"

lemma is_keyword_simps [simp]:
  "is_keyword k (TSKeyword i k', anc) \<longleftrightarrow> k' = k"
  "is_keyword k (Node i (TypeForm (ParenthesizedT t)), anc) \<longleftrightarrow> False"
  by (auto simp: is_keyword_def)

lemma some_m_last [simp]:
  "(case f x of None \<Rightarrow> None | Some True \<Rightarrow> Some True | Some False \<Rightarrow> some_m g []) = f x"
  by (simp split: option.split bool.split)

lemma some_m_first: "(case at xs 0 of None \<Rightarrow> Some False | Some v \<Rightarrow> f v) = some_m f (take 1 xs)"
  by (cases xs) simp_all

lemma union_part_size: "c \<in> set (union_parts l) \<Longrightarrow> size (fst c) < size (fst l)"
  by (cases l rule: union_parts.cases) (auto dest: size_member)

lemma type_argument_size: "c \<in> set (type_arguments l) \<Longrightarrow> size (fst c) < size (fst l)"
  by (cases l rule: type_arguments.cases) (auto dest: size_member)

lemma promised_size: "c \<in> set (promised_value l) \<Longrightarrow> size (fst c) < size (fst l)"
  by (cases l rule: promised_value.cases) (auto dest!: in_set_takeD type_argument_size split: if_splits)

interpretation unknown_alias: search_matcher unknown_alias_matcher "is_keyword TSUnknownKeyword" union_parts
proof unfold_locales
  show "unknown_alias_matcher l f = (if is_keyword TSUnknownKeyword l then Some True else some_m f (union_parts l))" for l f
    by (cases "(l, f)" rule: unknown_alias_matcher.cases) (simp_all add: is_keyword_def)
qed (rule union_part_size)

interpretation object_type: search_matcher object_matcher "is_keyword TSObjectKeyword" union_parts
proof unfold_locales
  show "object_matcher l f = (if is_keyword TSObjectKeyword l then Some True else some_m f (union_parts l))" for l f
    by (cases "(l, f)" rule: object_matcher.cases) (simp_all add: is_keyword_def)
qed (rule union_part_size)

interpretation unknown_return: search_matcher unknown_return_matcher "is_keyword TSUnknownKeyword" return_parts
proof unfold_locales
  show "unknown_return_matcher l f = (if is_keyword TSUnknownKeyword l then Some True else some_m f (return_parts l))" for l f
    by (cases "(l, f)" rule: unknown_return_matcher.cases)
      (simp_all add: is_keyword_def return_parts_def some_m_first)
qed (auto simp: return_parts_def dest: union_part_size promised_size)


text \<open>
  The annotation of a parameter is that of the outermost pattern that has one, looking through
  parameter properties, default values and rest elements; its location is the place it is written.
\<close>
theorem functionParameterTypeAnnotation_exact:
  "functionParameterTypeAnnotation n anc =
     first_some (\<lambda>(m, ps). map_option (\<lambda>a. (a, m # ps)) (own_annotation m)) (binding_chain n anc)"
  by (rule annotation_outermost)

end
