(* ===== verification/Contract_Rules.thy ===== *)
theory Contract_Rules
  imports Contracts
begin

text \<open>
  The handlers of \<open>no-unknown-returns\<close>, \<open>no-unknown-type-aliases\<close> and \<open>no-object-parameters\<close>, and
  what each of them reports on a whole program.
\<close>

section \<open>Handlers\<close>

text \<open>\<open>node.returnType?.typeAnnotation\<close>, of the nodes with a handler.\<close>

definition return_annotation :: "loc \<Rightarrow> loc option" where
  "return_annotation l =
     (case as_contract (fst l) of
        Some (params, Some a) \<Rightarrow> annotated_type (child_loc l a)
      | _ \<Rightarrow> None)"

definition checkReturnType :: "nat \<Rightarrow> captured \<Rightarrow> loc \<Rightarrow> report list option" where
  "checkReturnType fuel st l =
     (case return_annotation l of
        None \<Rightarrow> Some []
      | Some t \<Rightarrow>
          map_option (\<lambda>b. if b then [\<lparr>report_node = fst t, message_id = ''unknownReturn'', report_data = []\<rparr>]
                          else [])
            (resolvesTo unknown_return_matcher fuel (captured_environment st) t))"

definition noUnknownReturns :: "nat \<Rightarrow> captured \<Rightarrow> loc \<Rightarrow> (captured \<times> report list) option" where
  "noUnknownReturns fuel st l = map_option (Pair st) (checkReturnType fuel st l)"

definition noUnknownTypeAliases :: "nat \<Rightarrow> captured \<Rightarrow> loc \<Rightarrow> (captured \<times> report list) option" where
  "noUnknownTypeAliases fuel st l =
     (case fst l of
        TSTypeAliasDeclaration i d tps t \<Rightarrow>
          map_option (\<lambda>b. (st, if b then [\<lparr>report_node = d, message_id = ''unknownAlias'',
                                          report_data = [(''alias'', identifier_name d)]\<rparr>] else []))
            (resolvesTo unknown_alias_matcher fuel (captured_environment st) (child_loc l t))
      | _ \<Rightarrow> Some (st, []))"

definition object_parameter ::
  "source_code \<Rightarrow> nat \<Rightarrow> environment option \<Rightarrow> loc \<Rightarrow> node \<Rightarrow> report list option" where
  "object_parameter sc fuel env l p =
     (case Option.bind (functionParameterTypeAnnotation p (fst l # snd l)) annotated_type of
        None \<Rightarrow> Some []
      | Some t \<Rightarrow>
          map_option (\<lambda>b. if b then [\<lparr>report_node = fst t, message_id = ''objectParameter'',
                                       report_data = [(''parameter'', functionParameterBindingName sc p)]\<rparr>]
                          else [])
            (resolvesTo object_matcher fuel env t))"

definition noObjectParameters ::
  "source_code \<Rightarrow> nat \<Rightarrow> captured \<Rightarrow> loc \<Rightarrow> (captured \<times> report list) option" where
  "noObjectParameters sc fuel st l =
     (case as_contract (fst l) of
        None \<Rightarrow> Some (st, [])
      | Some (params, returnType) \<Rightarrow>
          map_option (Pair st)
            (concat_map_m (object_parameter sc fuel (captured_environment st) l) params))"

section \<open>What the rules report\<close>

text \<open>
  A type exposes unknown when following aliases and substitutions, and looking through parentheses,
  unions and promises, reaches the keyword.
\<close>

definition exposes_unknown :: "environment \<Rightarrow> loc \<Rightarrow> bool" where
  "exposes_unknown env t \<longleftrightarrow> reaches env (is_keyword TSUnknownKeyword) return_parts t [] {}"

definition hides_unknown :: "environment \<Rightarrow> loc \<Rightarrow> bool" where
  "hides_unknown env t \<longleftrightarrow> reaches env (is_keyword TSUnknownKeyword) union_parts t [] {}"

definition broad_object :: "environment \<Rightarrow> loc \<Rightarrow> bool" where
  "broad_object env t \<longleftrightarrow> reaches env (is_keyword TSObjectKeyword) union_parts t [] {}"

definition return_reports :: "environment \<Rightarrow> loc \<Rightarrow> report list" where
  "return_reports env l =
     (case return_annotation l of
        None \<Rightarrow> []
      | Some t \<Rightarrow>
          if exposes_unknown env t
          then [\<lparr>report_node = fst t, message_id = ''unknownReturn'', report_data = []\<rparr>] else [])"

definition alias_reports :: "environment \<Rightarrow> loc \<Rightarrow> report list" where
  "alias_reports env l =
     (case fst l of
        TSTypeAliasDeclaration i d tps t \<Rightarrow>
          if hides_unknown env (child_loc l t)
          then [\<lparr>report_node = d, message_id = ''unknownAlias'',
                 report_data = [(''alias'', identifier_name d)]\<rparr>] else []
      | _ \<Rightarrow> [])"

definition broad_parameter :: "source_code \<Rightarrow> environment \<Rightarrow> loc \<Rightarrow> node \<Rightarrow> report list" where
  "broad_parameter sc env l p =
     (case Option.bind (functionParameterTypeAnnotation p (fst l # snd l)) annotated_type of
        None \<Rightarrow> []
      | Some t \<Rightarrow>
          if broad_object env t
          then [\<lparr>report_node = fst t, message_id = ''objectParameter'',
                 report_data = [(''parameter'', functionParameterBindingName sc p)]\<rparr>] else [])"

definition object_reports :: "source_code \<Rightarrow> environment \<Rightarrow> loc \<Rightarrow> report list" where
  "object_reports sc env l =
     (case as_contract (fst l) of
        None \<Rightarrow> []
      | Some (params, returnType) \<Rightarrow>
          concat (map (broad_parameter sc env l) params))"

lemma resolves_unknown_return:
  "enough (\<lambda>fuel. resolvesTo unknown_return_matcher fuel (Some env) t = Some (exposes_unknown env t))"
  using enough_le[OF unknown_return.eval_reaches]
  by (simp add: resolvesTo_def resolvedTypeMatches_def exposes_unknown_def)

lemma resolves_unknown_alias:
  "enough (\<lambda>fuel. resolvesTo unknown_alias_matcher fuel (Some env) t = Some (hides_unknown env t))"
  using enough_le[OF unknown_alias.eval_reaches]
  by (simp add: resolvesTo_def resolvedTypeMatches_def hides_unknown_def)

lemma resolves_object:
  "enough (\<lambda>fuel. resolvesTo object_matcher fuel (Some env) t = Some (broad_object env t))"
  using enough_le[OF object_type.eval_reaches]
  by (simp add: resolvesTo_def resolvedTypeMatches_def broad_object_def)

interpretation unknown_returns: capturing_rule noUnknownReturns return_reports
proof unfold_locales
  fix st :: captured and env l assume env: "captured_environment st = Some env"
  show "enough (\<lambda>fuel. noUnknownReturns fuel st l = Some (st, return_reports env l))"
  proof (cases "return_annotation l")
    case None
    then show ?thesis
      by (intro enough_always) (simp add: noUnknownReturns_def checkReturnType_def return_reports_def)
  next
    case (Some t)
    show ?thesis
      using resolves_unknown_return[of env t]
      by (rule enough_mp) (simp add: Some env noUnknownReturns_def checkReturnType_def return_reports_def)
  qed
qed

interpretation unknown_type_aliases: capturing_rule noUnknownTypeAliases alias_reports
proof unfold_locales
  fix st :: captured and env l assume env: "captured_environment st = Some env"
  show "enough (\<lambda>fuel. noUnknownTypeAliases fuel st l = Some (st, alias_reports env l))"
  proof (cases "\<exists>i d tps t. fst l = TSTypeAliasDeclaration i d tps t")
    case True
    then obtain i d tps t where l: "fst l = TSTypeAliasDeclaration i d tps t" by blast
    show ?thesis
      using resolves_unknown_alias[of env "child_loc l t"]
      by (rule enough_mp) (simp add: l env noUnknownTypeAliases_def alias_reports_def)
  next
    case False
    then show ?thesis
      by (intro enough_always)
        (auto simp: noUnknownTypeAliases_def alias_reports_def split: node.splits form.splits statement_form.splits)
  qed
qed

lemma object_parameter_enough:
  "enough (\<lambda>fuel. object_parameter sc fuel (Some env) l p = Some (broad_parameter sc env l p))"
proof (cases "Option.bind (functionParameterTypeAnnotation p (fst l # snd l)) annotated_type")
  case None
  then show ?thesis by (intro enough_always) (simp add: object_parameter_def broad_parameter_def)
next
  case (Some t)
  show ?thesis
    using resolves_object[of env t] by (rule enough_mp) (simp add: Some object_parameter_def broad_parameter_def)
qed

interpretation object_parameters: capturing_rule "noObjectParameters sc" "object_reports sc" for sc
proof unfold_locales
  fix st :: captured and env l assume env: "captured_environment st = Some env"
  show "enough (\<lambda>fuel. noObjectParameters sc fuel st l = Some (st, object_reports sc env l))"
  proof (cases "as_contract (fst l)")
    case None
    then show ?thesis by (intro enough_always) (simp add: noObjectParameters_def object_reports_def)
  next
    case (Some c)
    obtain params r where c: "c = (params, r)" by (cases c)
    show ?thesis
      using enough_list[of params "\<lambda>p fuel. object_parameter sc fuel (Some env) l p =
        Some (broad_parameter sc env l p)", OF object_parameter_enough]
      by (rule enough_mp)
        (simp add: Some c env noObjectParameters_def object_reports_def concat_map_m_total)
  qed
qed

section \<open>How the rules relate\<close>

text \<open>Unknown in plain sight is found whatever the aliases are.\<close>

lemma not_reference_redirect: "typeReferenceName (fst l) = None \<Longrightarrow> redirect env l m R = None"
  by (simp add: redirect_def)

lemma contains_part:
  "containsUnknownType n \<Longrightarrow> typeReferenceName n = None \<and>
     (is_keyword TSUnknownKeyword (n, anc) \<or> (\<exists>c \<in> set (union_parts (n, anc)). containsUnknownType (fst c)))"
  by (cases n rule: containsUnknownType.cases) (auto simp: list_ex_iff)

lemma contains_reaches:
  "containsUnknownType (fst l) \<Longrightarrow> reaches env (is_keyword TSUnknownKeyword) union_parts l m R"
proof (induction l rule: measure_induct_rule[of "\<lambda>l. size (fst l)"])
  case (less l)
  from contains_part[OF less.prems, of "snd l"] have plain: "redirect env l m R = None"
    and "is_keyword TSUnknownKeyword l \<or> (\<exists>c \<in> set (union_parts l). containsUnknownType (fst c))"
    by (simp_all add: not_reference_redirect)
  then show ?case
    using less.IH union_part_size hits[OF plain] in_part[OF plain] by metis
qed

lemma hidden_exposed: "hides_unknown env t \<Longrightarrow> exposes_unknown env t"
  unfolding hides_unknown_def exposes_unknown_def
  by (erule reaches_mono) (auto simp: return_parts_def)

section \<open>Properties\<close>

text \<open>
  C1: with enough fuel a run of \<open>no-unknown-returns\<close> over a program ends, and reports exactly the
  return annotations from which unknown is reachable through aliases, their substituted parameters,
  parentheses, unions and promises, in source order.
\<close>
theorem noUnknownReturns_lint:
  "enough (\<lambda>fuel. lint (captureEnvironment sc) (noUnknownReturns fuel) not_started program =
     Some (concat (map (return_reports (environmentOf program (visitorKeys sc))) (locations program []))))"
  by (rule unknown_returns.lint_expected)

text \<open>
  C13: with enough fuel a run of \<open>no-unknown-type-aliases\<close> ends, and reports exactly the alias
  declarations whose body resolves to unknown or a union containing it.
\<close>
theorem noUnknownTypeAliases_lint:
  "enough (\<lambda>fuel. lint (captureEnvironment sc) (noUnknownTypeAliases fuel) not_started program =
     Some (concat (map (alias_reports (environmentOf program (visitorKeys sc))) (locations program []))))"
  by (rule unknown_type_aliases.lint_expected)

text \<open>
  C12: with enough fuel a run of \<open>no-object-parameters\<close> ends, and reports exactly the annotated
  parameters whose type resolves to object or a union containing it.
\<close>
theorem noObjectParameters_lint:
  "enough (\<lambda>fuel. lint (captureEnvironment sc) (noObjectParameters sc fuel) not_started program =
     Some (concat (map (object_reports sc (environmentOf program (visitorKeys sc))) (locations program []))))"
  by (rule object_parameters.lint_expected)


end
