(* ===== verification/Reflect_Rules.thy ===== *)
theory Reflect_Rules
  imports Views
begin

text \<open>
  Rules on calls of well-known objects: \<open>shared/reflect-method.ts\<close> with \<open>no-reflect-apply\<close> and
  \<open>no-reflect-get\<close>, and \<open>no-module-mocking\<close>. The question they share is whether a name still
  means the global, or was bound by the program.
\<close>

section \<open>Global Reflect\<close>

definition isGlobalReflect :: "source_code \<Rightarrow> node \<Rightarrow> bool" where
  "isGlobalReflect sc expression =
     (if as_identifier expression \<noteq> Some ''Reflect'' then False
      else if isGlobalReference sc expression then True
      else (case resolveVariable sc expression of
              None \<Rightarrow> True | Some v \<Rightarrow> length (defs (variable_at sc v)) = 0))"

definition isGlobalReflectMethodCall :: "source_code \<Rightarrow> node \<Rightarrow> string \<Rightarrow> bool" where
  "isGlobalReflectMethodCall sc callee methodName =
     (case as_member callee of
        None \<Rightarrow> False
      | Some (computed, object, property) \<Rightarrow>
          if \<not> isGlobalReflect sc object then False
          else if computed then as_string_literal property = Some methodName
          else as_identifier property = Some methodName)"

definition reflect_rule :: "string \<Rightarrow> string \<Rightarrow> source_code \<Rightarrow> node \<Rightarrow> report list" where
  "reflect_rule methodName messageId sc node =
     (case as_call node of
        None \<Rightarrow> []
      | Some (callee, arguments) \<Rightarrow>
          if isGlobalReflectMethodCall sc callee methodName
          then [\<lparr>report_node = node, message_id = messageId, report_data = []\<rparr>] else [])"

definition noReflectApply :: "source_code \<Rightarrow> node \<Rightarrow> report list" where
  "noReflectApply = reflect_rule ''apply'' ''reflectApply''"

definition noReflectGet :: "source_code \<Rightarrow> node \<Rightarrow> report list" where
  "noReflectGet = reflect_rule ''get'' ''reflectGet''"

section \<open>Module mocking\<close>

definition moduleMockMethods :: "string list" where
  "moduleMockMethods = [''doMock'', ''mock'', ''unstable_mockModule'']"

fun importedName :: "node \<Rightarrow> string option" where
  "importedName (ImportSpecifier i (Identifier j x t) local) = Some x"
| "importedName (ImportSpecifier i (Literal j (StringValue s)) local) = Some s"
| "importedName _ = None"

fun import_source :: "node option \<Rightarrow> string option" where
  "import_source (Some (ImportDeclaration i s specifiers)) = as_string_literal s"
| "import_source _ = None"

definition framework_import :: "binding_def \<Rightarrow> bool" where
  "framework_import d =
     (if def_type d \<noteq> ''ImportBinding'' then False
      else (import_source (def_parent d) = Some ''vitest'' \<and> importedName (fst (def_node d)) = Some ''vi'') \<or>
           (import_source (def_parent d) = Some ''@jest/globals'' \<and> importedName (fst (def_node d)) = Some ''jest''))"

definition isTestFrameworkObject :: "source_code \<Rightarrow> node \<Rightarrow> bool" where
  "isTestFrameworkObject sc expression =
     (case as_identifier expression of
        None \<Rightarrow> False
      | Some name \<Rightarrow>
          if (name = ''vi'' \<or> name = ''jest'') \<and> isGlobalReference sc expression then True
          else (case resolveVariable sc expression of
                  None \<Rightarrow> name = ''vi'' \<or> name = ''jest''
                | Some v \<Rightarrow>
                    if length (defs (variable_at sc v)) = 0 then name = ''vi'' \<or> name = ''jest''
                    else list_ex framework_import (defs (variable_at sc v))))"

definition mock_method :: "bool \<Rightarrow> node \<Rightarrow> string option" where
  "mock_method computed property =
     (if computed
      then (case as_string_literal property of
              None \<Rightarrow> None | Some s \<Rightarrow> if s \<in> set moduleMockMethods then Some s else None)
      else as_identifier property)"

definition moduleMockCall :: "source_code \<Rightarrow> node \<Rightarrow> bool" where
  "moduleMockCall sc callee =
     (case as_member callee of
        None \<Rightarrow> False
      | Some (computed, object, property) \<Rightarrow>
          if \<not> isTestFrameworkObject sc object then False
          else (case mock_method computed property of
                  None \<Rightarrow> False | Some m \<Rightarrow> m \<in> set moduleMockMethods))"

definition noModuleMocking :: "source_code \<Rightarrow> node \<Rightarrow> report list" where
  "noModuleMocking sc node =
     (case as_call node of
        None \<Rightarrow> []
      | Some (callee, arguments) \<Rightarrow>
          if moduleMockCall sc callee
          then [\<lparr>report_node = node, message_id = ''moduleMock'', report_data = []\<rparr>] else [])"

section \<open>Names the program does not bind\<close>

text \<open>
  A name is free when Oxlint marks it global, or no scope binds it, or the binding found has no
  definition in the program.
\<close>

definition free_name :: "source_code \<Rightarrow> node \<Rightarrow> bool" where
  "free_name sc n \<longleftrightarrow> isGlobalReference sc n \<or>
     (case nearest_binding (scope_chain (Some (getScope sc n))) (identifier_name n) of
        None \<Rightarrow> True | Some v \<Rightarrow> defs (variable_at sc v) = [])"

text \<open>The members a static access can name: \<open>object.name\<close> or \<open>object["name"]\<close>.\<close>

definition static_access :: "node \<Rightarrow> node \<Rightarrow> string \<Rightarrow> bool" where
  "static_access n object name \<longleftrightarrow>
     (\<exists>i j t. n = MemberExpression i False object (Identifier j name t)) \<or>
     (\<exists>i j. n = MemberExpression i True object (Literal j (StringValue name)))"

lemma resolve_nearest:
  "resolveVariable sc n = nearest_binding (scope_chain (Some (getScope sc n))) (identifier_name n)"
  unfolding resolveVariable_def by (rule by_scope.lookup_nearest)

lemma isGlobalReflect_iff:
  "isGlobalReflect sc n \<longleftrightarrow> (\<exists>i t. n = Identifier i ''Reflect'' t) \<and> free_name sc n"
  by (auto simp: isGlobalReflect_def free_name_def resolve_nearest simp del: scope_chain.simps
      split: option.split)

lemma reflect_call_iff:
  "isGlobalReflectMethodCall sc callee name \<longleftrightarrow>
     (\<exists>object. static_access callee object name \<and> isGlobalReflect sc object)"
  by (auto simp: isGlobalReflectMethodCall_def static_access_def split: option.split)

text \<open>What an object that offers module mocking is: a free vi or jest, or an import of it.\<close>

definition framework_object :: "source_code \<Rightarrow> node \<Rightarrow> bool" where
  "framework_object sc n \<longleftrightarrow> (\<exists>i name t. n = Identifier i name t \<and>
     (name \<in> {''vi'', ''jest''} \<and> free_name sc n \<or>
      (\<exists>v. nearest_binding (scope_chain (Some (getScope sc n))) name = Some v \<and>
         list_ex framework_import (defs (variable_at sc v)))))"

lemma isTestFrameworkObject_iff: "isTestFrameworkObject sc n \<longleftrightarrow> framework_object sc n"
proof (cases "as_identifier n")
  case None
  then show ?thesis by (auto simp: isTestFrameworkObject_def framework_object_def)
next
  case (Some name)
  then obtain i t where n: "n = Identifier i name t" by auto
  show ?thesis
    by (auto simp: n isTestFrameworkObject_def framework_object_def free_name_def resolve_nearest
        simp del: scope_chain.simps split: option.split)
qed

lemma module_mock_iff:
  "moduleMockCall sc callee \<longleftrightarrow>
     (\<exists>object name. static_access callee object name \<and> name \<in> set moduleMockMethods \<and>
        framework_object sc object)"
  by (auto simp: moduleMockCall_def mock_method_def static_access_def isTestFrameworkObject_iff
      split: option.splits if_splits)

section \<open>Properties\<close>

text \<open>
  Both Reflect rules report a call exactly when it statically accesses their function on a name
  \<open>Reflect\<close> that the program does not bind.
\<close>
theorem reflect_rules_exact:
  "reflect_rule name message sc node = [r] \<longleftrightarrow>
     (\<exists>i callee ts arguments object j t.
        node = CallExpression i callee ts arguments \<and> static_access callee object name \<and>
        object = Identifier j ''Reflect'' t \<and> free_name sc object \<and>
        r = \<lparr>report_node = node, message_id = message, report_data = []\<rparr>)"
  by (auto simp: reflect_rule_def reflect_call_iff isGlobalReflect_iff split: option.split) blast

text \<open>
  C34: module mocking is reported exactly for static accesses to a mocking function on a free
  \<open>vi\<close> or \<open>jest\<close>, or on a name that an import of the framework binds, under any local name.
\<close>
theorem noModuleMocking_exact:
  "noModuleMocking sc node = [r] \<longleftrightarrow>
     (\<exists>i callee ts arguments object name.
        node = CallExpression i callee ts arguments \<and> static_access callee object name \<and>
        name \<in> set moduleMockMethods \<and> framework_object sc object \<and>
        r = \<lparr>report_node = node, message_id = ''moduleMock'', report_data = []\<rparr>)"
  by (auto simp: noModuleMocking_def module_mock_iff split: option.split)

end
