(* ===== verification/Syntax_Rules.thy ===== *)
theory Syntax_Rules
  imports Views Wrappers Text
begin

text \<open>
  Rules that look at syntax alone: \<open>no-conditional-empty-object-spread\<close>, \<open>no-runtime-typeof\<close> and
  \<open>no-shape-in-symbol-names\<close>.
\<close>

section \<open>Conditional empty object spreads\<close>

fun unwrapParentheses :: "node \<Rightarrow> node" where
  "unwrapParentheses (ParenthesizedExpression i e) = unwrapParentheses e"
| "unwrapParentheses n = n"

fun parenthesized :: "node \<Rightarrow> node option" where
  "parenthesized (ParenthesizedExpression i e) = Some e"
| "parenthesized _ = None"

interpretation parens: syntax_wrapper parenthesized unwrapParentheses
proof unfold_locales
  fix n m
  show "parenthesized n = Some m \<Longrightarrow> unwrapParentheses n = unwrapParentheses m"
    by (cases n rule: parenthesized.cases) simp_all
  show "parenthesized n = None \<Longrightarrow> unwrapParentheses n = n"
    by (cases n rule: parenthesized.cases) simp_all
  show "parenthesized n = Some m \<Longrightarrow> size m < size n"
    by (cases n rule: parenthesized.cases) simp_all
qed

definition isEmptyObjectExpression :: "node \<Rightarrow> bool" where
  "isEmptyObjectExpression n = (as_object n = Some [])"

fun as_conditional :: "node \<Rightarrow> (node \<times> node) option" where
  "as_conditional (ConditionalExpression i test consequent alternate) = Some (consequent, alternate)"
| "as_conditional _ = None"

definition isConditionalEmptyObjectSpread :: "node \<Rightarrow> bool" where
  "isConditionalEmptyObjectSpread n =
     (case as_conditional (unwrapParentheses n) of
        None \<Rightarrow> False
      | Some (consequent, alternate) \<Rightarrow>
          isEmptyObjectExpression consequent \<or> isEmptyObjectExpression alternate)"

fun as_spread :: "node \<Rightarrow> node option" where
  "as_spread (SpreadElement i e) = Some e"
| "as_spread _ = None"

definition noConditionalEmptyObjectSpread :: "loc \<Rightarrow> report list" where
  "noConditionalEmptyObjectSpread l =
     (case as_spread (fst l) of
        None \<Rightarrow> []
      | Some argument \<Rightarrow>
          if parent_type l \<noteq> ''ObjectExpression'' then []
          else if isConditionalEmptyObjectSpread argument
          then [\<lparr>report_node = fst l, message_id = ''avoid'', report_data = []\<rparr>] else [])"

section \<open>Runtime typeof\<close>

definition allowInTypeGuards :: "json list \<Rightarrow> bool" where
  "allowInTypeGuards options =
     (case at options 0 of
        Some (JObject entries) \<Rightarrow> map_of entries ''allowInTypeGuards'' = Some (JBool True)
      | _ \<Rightarrow> False)"

definition runtime_functions :: "string list" where
  "runtime_functions = [''ArrowFunctionExpression'', ''FunctionDeclaration'', ''FunctionExpression'']"

definition isRuntimeFunction :: "node \<Rightarrow> bool" where
  "isRuntimeFunction n = (node_type n \<in> set runtime_functions)"

definition returns_predicate :: "node \<Rightarrow> bool" where
  "returns_predicate n =
     (case as_function n of
        Some (k, ps, Some a) \<Rightarrow>
          (case annotation_type a of Some t \<Rightarrow> node_type t = ''TSTypePredicate'' | None \<Rightarrow> False)
      | _ \<Rightarrow> False)"

fun inside_type_guard :: "node list \<Rightarrow> bool" where
  "inside_type_guard [] = False"
| "inside_type_guard (current # rest) =
     (if node_type current = ''Program'' then False
      else if isRuntimeFunction current then returns_predicate current
      else inside_type_guard rest)"

definition isInsideTypeGuard :: "loc \<Rightarrow> bool" where
  "isInsideTypeGuard l = inside_type_guard (snd l)"

fun as_binary :: "node \<Rightarrow> (string \<times> node \<times> node) option" where
  "as_binary (BinaryExpression i operator left right) = Some (operator, left, right)"
| "as_binary _ = None"

definition isExistenceProbe :: "loc \<Rightarrow> bool" where
  "isExistenceProbe l =
     (case Option.bind (parent l) (as_binary \<circ> fst) of
        None \<Rightarrow> False
      | Some (operator, left, right) \<Rightarrow>
          if operator \<notin> {''==='', ''!=='', ''=='', ''!=''} then False
          else as_string_literal (if same_node left (fst l) then right else left) = Some ''undefined'')"

fun unary_operator :: "node \<Rightarrow> string option" where
  "unary_operator (UnaryExpression i operator e) = Some operator"
| "unary_operator _ = None"

definition noRuntimeTypeof :: "json list \<Rightarrow> loc \<Rightarrow> report list" where
  "noRuntimeTypeof options l =
     (if unary_operator (fst l) = Some ''typeof'' \<and> \<not> isExistenceProbe l \<and>
         (\<not> allowInTypeGuards options \<or> \<not> isInsideTypeGuard l)
      then [\<lparr>report_node = fst l, message_id = ''runtimeTypeof'', report_data = []\<rparr>] else [])"

text \<open>The innermost function around a node, up to the program.\<close>

definition innermost_function :: "loc \<Rightarrow> node option" where
  "innermost_function l =
     find isRuntimeFunction (takeWhile (\<lambda>n. node_type n \<noteq> ''Program'') (snd l))"

lemma inside_type_guard_innermost:
  "isInsideTypeGuard l \<longleftrightarrow> (\<exists>f. innermost_function l = Some f \<and> returns_predicate f)"
proof -
  have "inside_type_guard ns \<longleftrightarrow>
      (\<exists>f. find isRuntimeFunction (takeWhile (\<lambda>n. node_type n \<noteq> ''Program'') ns) = Some f \<and> returns_predicate f)" for ns
    by (induction ns) simp_all
  then show ?thesis by (simp add: isInsideTypeGuard_def innermost_function_def)
qed

text \<open>Turning the option on only removes reports.\<close>

lemma typeof_option_monotone: "set (noRuntimeTypeof options l) \<subseteq> set (noRuntimeTypeof [] l)"
  by (auto simp: noRuntimeTypeof_def allowInTypeGuards_def split: if_splits)

section \<open>Symbol names\<close>

definition containsForbiddenSymbolName :: "string \<Rightarrow> bool" where
  "containsForbiddenSymbolName name = has_substring (toLowerCase name) ''shape''"

definition isBorrowedMemberName :: "loc \<Rightarrow> bool" where
  "isBorrowedMemberName l =
     (case Option.bind (parent l) (as_member \<circ> fst) of
        None \<Rightarrow> False
      | Some (computed, object, property) \<Rightarrow> same_node property (fst l) \<and> \<not> computed)"

fun symbol_name :: "node \<Rightarrow> string option" where
  "symbol_name (Identifier i x t) = Some x"
| "symbol_name (PrivateIdentifier i x) = Some x"
| "symbol_name (JSXIdentifier i x) = Some x"
| "symbol_name _ = None"

definition noShapeInSymbolNames :: "loc \<Rightarrow> report list" where
  "noShapeInSymbolNames l =
     (case symbol_name (fst l) of
        None \<Rightarrow> []
      | Some name \<Rightarrow>
          if \<not> containsForbiddenSymbolName name \<or> isBorrowedMemberName l then []
          else [\<lparr>report_node = fst l, message_id = ''forbiddenSymbolName'', report_data = [(''name'', name)]\<rparr>])"

lemma forbidden_name_iff:
  "containsForbiddenSymbolName name \<longleftrightarrow> (\<exists>a m b. name = a @ m @ b \<and> toLowerCase m = ''shape'')"
  unfolding containsForbiddenSymbolName_def toLowerCase_def by (rule has_substring_map)

section \<open>Properties\<close>

text \<open>
  A name is forbidden exactly when some stretch of it spells shape in any mixture of cases.
\<close>
theorem containsForbiddenSymbolName_exact:
  "containsForbiddenSymbolName name \<longleftrightarrow> (\<exists>a m b. name = a @ m @ b \<and> toLowerCase m = ''shape'')"
  by (rule forbidden_name_iff)

text \<open>
  A typeof is reported exactly when it is not compared with the string undefined and the option
  does not excuse it; the option excuses it when the innermost function around it, below the program,
  returns a type predicate.
\<close>
theorem noRuntimeTypeof_exact:
  "noRuntimeTypeof options l = [r] \<longleftrightarrow>
     (\<exists>i e. fst l = UnaryExpression i ''typeof'' e) \<and> \<not> isExistenceProbe l \<and>
     \<not> (allowInTypeGuards options \<and> (\<exists>f. innermost_function l = Some f \<and> returns_predicate f)) \<and>
     r = \<lparr>report_node = fst l, message_id = ''runtimeTypeof'', report_data = []\<rparr>"
proof -
  have "unary_operator (fst l) = Some ''typeof'' \<longleftrightarrow> (\<exists>i e. fst l = UnaryExpression i ''typeof'' e)"
    by (cases "fst l" rule: unary_operator.cases) auto
  then show ?thesis by (auto simp: noRuntimeTypeof_def inside_type_guard_innermost)
qed

end
