(* ===== verification/Assertion_Rules.thy ===== *)
theory Assertion_Rules
  imports Syntax_Rules Linter
begin

text \<open>
  Rules on type assertions: \<open>no-chained-type-assertions\<close> and
  \<open>require-safety-comment-for-type-assertion\<close>.
\<close>

section \<open>Chains of assertions\<close>

fun as_assertion :: "node \<Rightarrow> (node \<times> node) option" where
  "as_assertion (TSAsExpression i e t) = Some (e, t)"
| "as_assertion (TSTypeAssertion i e t) = Some (e, t)"
| "as_assertion _ = None"

lemma assertion_size: "as_assertion n = Some (e, t) \<Longrightarrow> size e < size n"
  by (cases n rule: as_assertion.cases) auto

definition isTypeAssertionExpression :: "node \<Rightarrow> bool" where
  "isTypeAssertionExpression n = (as_assertion n \<noteq> None)"

definition isConstAssertion :: "node \<Rightarrow> bool" where
  "isConstAssertion n =
     (case as_assertion n of
        None \<Rightarrow> False
      | Some (e, t) \<Rightarrow>
          (case as_type_reference t of
             None \<Rightarrow> False
           | Some (typeName, arguments) \<Rightarrow> as_identifier typeName = Some ''const''))"

text \<open>The field \<open>expression\<close> of a parenthesized expression or an assertion.\<close>

definition inner_expression :: "node \<Rightarrow> node option" where
  "inner_expression n = (case parenthesized n of Some e \<Rightarrow> Some e | None \<Rightarrow> map_option fst (as_assertion n))"

fun outermost_from :: "node \<Rightarrow> node list \<Rightarrow> bool" where
  "outermost_from current [] = True"
| "outermost_from current (p # ps) =
     (case parenthesized p of
        Some e \<Rightarrow> if same_node e current then outermost_from p ps else True
      | None \<Rightarrow>
          (case as_assertion p of
             None \<Rightarrow> True | Some (e, t) \<Rightarrow> \<not> same_node e current))"

definition isOutermostAssertionInChain :: "loc \<Rightarrow> bool" where
  "isOutermostAssertionInChain l = outermost_from (fst l) (snd l)"

function assertion_loop :: "node \<Rightarrow> nat \<Rightarrow> bool \<Rightarrow> nat \<times> bool" where
  "assertion_loop current assertionCount hasNonConst =
     (case as_assertion current of
        None \<Rightarrow> (assertionCount, hasNonConst)
      | Some (e, t) \<Rightarrow>
          assertion_loop (unwrapParentheses e) (assertionCount + 1)
            (hasNonConst \<or> \<not> isConstAssertion current))"
  by pat_completeness auto
termination
proof (relation "measure (\<lambda>(n, c, h). size n)")
  fix current p e t
  assume "as_assertion current = Some p" "(e, t) = p"
  then have "size e < size current" by (auto dest: assertion_size)
  with parens.unwrap_size[of e] show "((unwrapParentheses e, c', h'), (current, c, h)) \<in> measure (\<lambda>(n, c, h). size n)"
    for c c' :: nat and h h' :: bool by simp
qed simp

declare assertion_loop.simps [simp del]

definition isForbiddenAssertionChain :: "node \<Rightarrow> bool" where
  "isForbiddenAssertionChain n =
     (case assertion_loop n 0 False of (assertionCount, hasNonConst) \<Rightarrow> assertionCount > 1 \<and> hasNonConst)"

definition noChainedTypeAssertions :: "loc \<Rightarrow> report list" where
  "noChainedTypeAssertions l =
     (if \<not> isTypeAssertionExpression (fst l) then []
      else if \<not> isOutermostAssertionInChain l \<or> \<not> isForbiddenAssertionChain (fst l) then []
      else [\<lparr>report_node = fst l, message_id = ''chained'', report_data = []\<rparr>])"

subsection \<open>The chain below an assertion\<close>

text \<open>The location of what parentheses around an expression enclose.\<close>

fun unparen_loc :: "loc \<Rightarrow> loc" where
  "unparen_loc (ParenthesizedExpression i e, anc) = unparen_loc (e, ParenthesizedExpression i e # anc)"
| "unparen_loc l = l"

lemma fst_unparen: "fst (unparen_loc (n, anc)) = unwrapParentheses n"
  by (induction "(n, anc)" arbitrary: n anc rule: unparen_loc.induct) simp_all

function assertion_chain :: "loc \<Rightarrow> loc list" where
  "assertion_chain l =
     (case as_assertion (fst l) of
        None \<Rightarrow> []
      | Some (e, t) \<Rightarrow> l # assertion_chain (unparen_loc (child_loc l e)))"
  by pat_completeness auto
termination
proof (relation "measure (\<lambda>l. size (fst l))")
  fix l :: loc and p e t
  assume "as_assertion (fst l) = Some p" "(e, t) = p"
  then have "size e < size (fst l)" by (auto dest: assertion_size)
  with parens.unwrap_size[of e] show "(unparen_loc (child_loc l e), l) \<in> measure (\<lambda>l. size (fst l))"
    by (cases l) (simp add: fst_unparen)
qed simp

declare assertion_chain.simps [simp del]

lemma assertion_loop_chain:
  "assertion_loop n c h =
     (c + length (assertion_chain (n, anc)),
      h \<or> list_ex (\<lambda>l. \<not> isConstAssertion (fst l)) (assertion_chain (n, anc)))"
proof (induction n c h arbitrary: anc rule: assertion_loop.induct)
  case (1 n c h)
  show ?case
  proof (cases "as_assertion n")
    case None
    then show ?thesis by (simp add: assertion_loop.simps[of n] assertion_chain.simps[of "(n, anc)"])
  next
    case (Some p)
    obtain e t where p: "as_assertion n = Some (e, t)" using Some by (cases p) auto
    obtain m ms where m: "unparen_loc (e, n # anc) = (m, ms)" by fastforce
    with fst_unparen[of e "n # anc"] have um: "unwrapParentheses e = m" by simp
    show ?thesis
      using "1.IH"[OF p refl, of ms]
      by (simp add: p m um assertion_loop.simps[of n] assertion_chain.simps[of "(n, anc)"])
  qed
qed

lemma forbidden_chain:
  "isForbiddenAssertionChain (fst l) \<longleftrightarrow>
     length (assertion_chain l) > 1 \<and> list_ex (\<lambda>m. \<not> isConstAssertion (fst m)) (assertion_chain l)"
  using assertion_loop_chain[of "fst l" 0 False "snd l"] by (simp add: isForbiddenAssertionChain_def)

text \<open>Every assertion of the chain but the first lies directly, up to parentheses, in another.\<close>

lemma inner_not_outermost:
  "as_assertion n = Some (e, t) \<Longrightarrow> \<not> outermost_from e (n # anc)"
  by (cases n rule: as_assertion.cases) auto

lemma paren_outermost:
  "outermost_from (fst (unparen_loc (n, anc))) (snd (unparen_loc (n, anc))) = outermost_from n anc"
  by (induction "(n, anc)" arbitrary: n anc rule: unparen_loc.induct) simp_all

lemma below_not_outermost:
  "as_assertion (fst l) = Some (e, t) \<Longrightarrow> \<not> isOutermostAssertionInChain (unparen_loc (child_loc l e))"
  using inner_not_outermost[of "fst l" e t "snd l"] paren_outermost[of e "fst l # snd l"]
  by (cases l) (simp add: isOutermostAssertionInChain_def)

lemma chain_silent:
  "\<not> isOutermostAssertionInChain l \<Longrightarrow> concat (map noChainedTypeAssertions (assertion_chain l)) = []"
proof (induction l rule: assertion_chain.induct)
  case (1 l)
  show ?case
  proof (cases "as_assertion (fst l)")
    case None
    then show ?thesis by (simp add: assertion_chain.simps[of l])
  next
    case (Some p)
    obtain e t where p: "as_assertion (fst l) = Some (e, t)" using Some by (cases p) auto
    have "noChainedTypeAssertions l = []" using "1.prems" by (simp add: noChainedTypeAssertions_def)
    with "1.IH"[OF p refl below_not_outermost[OF p]] show ?thesis
      by (simp only: p assertion_chain.simps[of l] option.case prod.case list.map concat.simps append_Nil)
  qed
qed

lemma chain_reported_once: "concat (map noChainedTypeAssertions (assertion_chain l)) = noChainedTypeAssertions l"
proof (cases "as_assertion (fst l)")
  case None
  then show ?thesis
    by (simp add: assertion_chain.simps[of l] noChainedTypeAssertions_def isTypeAssertionExpression_def)
next
  case (Some p)
  obtain e t where p: "as_assertion (fst l) = Some (e, t)" using Some by (cases p) auto
  from chain_silent[OF below_not_outermost[OF p]] show ?thesis
    by (simp add: p assertion_chain.simps[of l])
qed

section \<open>Safety comments\<close>

definition default_markers :: "string list" where
  "default_markers = [''SAFETY'']"

definition commentOwnerKinds :: "string list" where
  "commentOwnerKinds =
     [''ExpressionStatement'', ''PropertyDefinition'', ''ReturnStatement'', ''ThrowStatement'', ''VariableDeclaration'']"

fun marker_text :: "json \<Rightarrow> string list" where
  "marker_text (JString s) = (if trim s \<noteq> [] then [trim s] else [])"
| "marker_text _ = []"

definition configuredSafetyMarkers :: "json option \<Rightarrow> string list" where
  "configuredSafetyMarkers option =
     (case option of
        Some (JObject entries) \<Rightarrow>
          (case map_of entries ''markers'' of
             Some (JArray configured) \<Rightarrow>
               (let markers = concat (map marker_text configured)
                in if length markers > 0 then markers else default_markers)
           | _ \<Rightarrow> default_markers)
      | _ \<Rightarrow> default_markers)"

text \<open>
  The pattern of a marker list. The code escapes the markers, so the regular expression matches them
  literally: after the start of the text or a character that is no letter, digit or underscore comes a
  marker, white space, a colon, white space, and a character that is no white space.
\<close>

type_synonym pattern = "string list"

definition word_character :: "char \<Rightarrow> bool" where
  "word_character c = (let n = of_char c :: nat in
     48 \<le> n \<and> n \<le> 57 \<or> 65 \<le> n \<and> n \<le> 90 \<or> n = 95 \<or> 97 \<le> n \<and> n \<le> 122 \<or>
     n \<in> {170, 178, 179, 181, 185, 186, 188, 189, 190} \<or> 192 \<le> n \<and> n \<noteq> 215 \<and> n \<noteq> 247)"

definition markerPattern :: "string list \<Rightarrow> pattern" where
  "markerPattern markers = markers"

fun after_colon :: "string \<Rightarrow> bool" where
  "after_colon s = (case dropWhile js_space s of
     c # cs \<Rightarrow> c = CHR '':'' \<and> dropWhile js_space cs \<noteq> []
   | [] \<Rightarrow> False)"

definition matches_here :: "pattern \<Rightarrow> string \<Rightarrow> bool" where
  "matches_here markers s =
     list_ex (\<lambda>m. starts_with m s \<and> after_colon (drop (length m) s)) markers"

fun matches_after :: "pattern \<Rightarrow> bool \<Rightarrow> string \<Rightarrow> bool" where
  "matches_after markers boundary [] = (boundary \<and> matches_here markers [])"
| "matches_after markers boundary (c # cs) =
     (boundary \<and> matches_here markers (c # cs) \<or> matches_after markers (\<not> word_character c) cs)"

definition pattern_test :: "pattern \<Rightarrow> string \<Rightarrow> bool" where
  "pattern_test markers s = matches_after markers True s"

definition hasSafetyJustificationBefore :: "source_code \<Rightarrow> node \<Rightarrow> node \<Rightarrow> pattern \<Rightarrow> bool" where
  "hasSafetyJustificationBefore sc owner assertion pat =
     list_ex (\<lambda>c. comment_end c \<le> start (info assertion) \<and> pattern_test pat (comment_value c))
       (getCommentsBefore sc owner)"

fun exported_declaration :: "node \<Rightarrow> node option" where
  "exported_declaration (ExportNamedDeclaration i d specifiers s) = d"
| "exported_declaration _ = None"

fun safety_comment_from :: "source_code \<Rightarrow> node \<Rightarrow> pattern \<Rightarrow> node \<Rightarrow> node list \<Rightarrow> bool" where
  "safety_comment_from sc assertion pat current [] =
     hasSafetyJustificationBefore sc current assertion pat"
| "safety_comment_from sc assertion pat current (p # ps) =
     (if hasSafetyJustificationBefore sc current assertion pat then True
      else if node_type current \<in> set commentOwnerKinds then
        (case exported_declaration p of
           None \<Rightarrow> False
         | Some d \<Rightarrow> same_node d current \<and> hasSafetyJustificationBefore sc p assertion pat)
      else if node_type p = ''Program'' then False
      else safety_comment_from sc assertion pat p ps)"

definition hasSafetyComment :: "source_code \<Rightarrow> loc \<Rightarrow> pattern \<Rightarrow> bool" where
  "hasSafetyComment sc l pat = safety_comment_from sc (fst l) pat (fst l) (snd l)"

text \<open>The patterns are cached by the markers, joined with a null character.\<close>

type_synonym pattern_cache = "(string, pattern) js_map"

fun join_null :: "string list \<Rightarrow> string" where
  "join_null [] = []"
| "join_null [m] = m"
| "join_null (m # n # ms) = m @ CHR 0x00 # join_null (n # ms)"

definition checkAssertion ::
  "source_code \<Rightarrow> json option \<Rightarrow> loc \<Rightarrow> pattern_cache \<Rightarrow> pattern_cache \<times> report list" where
  "checkAssertion sc option l patterns =
     (if \<not> isTypeAssertionExpression (fst l) \<or> isConstAssertion (fst l) then (patterns, [])
      else (let markers = configuredSafetyMarkers option;
                patternKey = join_null markers;
                pat = nullish (get patterns patternKey) (markerPattern markers)
            in (put patternKey pat patterns,
                if hasSafetyComment sc l pat then []
                else [\<lparr>report_node = fst l, message_id = ''missingSafetyComment'',
                       report_data = [(''marker'', nullish (at markers 0) (hd default_markers))]\<rparr>])))"

subsection \<open>What the pattern matches\<close>

text \<open>A justification: boundary, marker, colon and some text, with white space allowed around the colon.\<close>

definition boundary_after :: "string \<Rightarrow> bool" where
  "boundary_after s = (s = [] \<or> \<not> word_character (last s))"

definition justified :: "string list \<Rightarrow> string \<Rightarrow> bool" where
  "justified markers s \<longleftrightarrow>
     (\<exists>before m space1 space2 c rest.
        s = before @ m @ space1 @ CHR '':'' # space2 @ c # rest \<and> boundary_after before \<and>
        m \<in> set markers \<and> list_all js_space space1 \<and> list_all js_space space2 \<and> \<not> js_space c)"

lemma dropWhile_Cons_iff:
  "dropWhile P s = c # cs \<longleftrightarrow> (\<exists>sp. s = sp @ c # cs \<and> list_all P sp \<and> \<not> P c)"
proof
  assume "dropWhile P s = c # cs"
  then show "\<exists>sp. s = sp @ c # cs \<and> list_all P sp \<and> \<not> P c"
    using takeWhile_dropWhile_id[of P s] dropWhile_eq_Cons_conv[of P s c cs]
    by (intro exI[of _ "takeWhile P s"]) (auto simp: list_all_iff dest: set_takeWhileD)
next
  assume "\<exists>sp. s = sp @ c # cs \<and> list_all P sp \<and> \<not> P c"
  then show "dropWhile P s = c # cs" by (auto simp: list_all_iff)
qed

lemma colon_no_space [simp]: "\<not> js_space CHR '':''"
  by (simp add: js_space_def)

lemma after_colon_iff:
  "after_colon s \<longleftrightarrow>
     (\<exists>space1 space2 c rest. s = space1 @ CHR '':'' # space2 @ c # rest \<and>
        list_all js_space space1 \<and> list_all js_space space2 \<and> \<not> js_space c)"
proof -
  have "after_colon s \<longleftrightarrow> (\<exists>cs. dropWhile js_space s = CHR '':'' # cs \<and> dropWhile js_space cs \<noteq> [])"
    by (cases "dropWhile js_space s") (simp_all del: dropWhile_eq_Nil_conv)
  also have "\<dots> \<longleftrightarrow> (\<exists>cs c rest. dropWhile js_space s = CHR '':'' # cs \<and> dropWhile js_space cs = c # rest)"
    by (simp only: neq_Nil_conv) blast
  finally show ?thesis by (auto simp: dropWhile_Cons_iff)
qed

lemma matches_here_iff:
  "matches_here markers s \<longleftrightarrow> (\<exists>m r. m \<in> set markers \<and> s = m @ r \<and> after_colon r)"
  by (auto simp: matches_here_def list_ex_iff starts_with_iff simp del: after_colon.simps)

lemma matches_after_iff:
  "matches_after markers b s \<longleftrightarrow>
     (\<exists>before r. s = before @ r \<and> matches_here markers r \<and> (if before = [] then b else boundary_after before))"
proof (induction markers b s rule: matches_after.induct)
  case (1 markers b)
  show ?case by auto
next
  case (2 markers b c cs)
  have "(\<exists>before r. c # cs = before @ r \<and> matches_here markers r \<and> (if before = [] then b else boundary_after before)) \<longleftrightarrow>
      b \<and> matches_here markers (c # cs) \<or>
      (\<exists>before r. cs = before @ r \<and> matches_here markers r \<and> boundary_after (c # before))"
    by (auto simp: Cons_eq_append_conv)
  also have "(\<lambda>before. boundary_after (c # before)) =
      (\<lambda>before. if before = [] then \<not> word_character c else boundary_after before)"
    by (auto simp: boundary_after_def fun_eq_iff)
  finally show ?case using 2 by simp
qed

lemma pattern_test_iff: "pattern_test (markerPattern markers) s \<longleftrightarrow> justified markers s"
proof -
  have "(if before = [] then True else boundary_after before) = boundary_after before" for before
    by (simp add: boundary_after_def)
  then have "pattern_test (markerPattern markers) s \<longleftrightarrow>
      (\<exists>before r. s = before @ r \<and> matches_here markers r \<and> boundary_after before)"
    by (simp only: pattern_test_def markerPattern_def matches_after_iff)
  also have "\<dots> \<longleftrightarrow> (\<exists>before m r. s = before @ m @ r \<and> m \<in> set markers \<and> after_colon r \<and> boundary_after before)"
    unfolding matches_here_iff by blast
  also have "\<dots> \<longleftrightarrow> justified markers s"
    unfolding justified_def after_colon_iff by blast
  finally show ?thesis .
qed

subsection \<open>Where a justification may stand\<close>

text \<open>
  The nodes whose preceding comments count: the assertion and its ancestors up to the first
  statement-like owner, with the export around that owner, or up to the child of the program.
\<close>

fun comment_owners :: "node \<Rightarrow> node list \<Rightarrow> node list" where
  "comment_owners current [] = [current]"
| "comment_owners current (p # ps) =
     current #
     (if node_type current \<in> set commentOwnerKinds
      then (case exported_declaration p of Some d \<Rightarrow> if same_node d current then [p] else [] | None \<Rightarrow> [])
      else if node_type p = ''Program'' then [] else comment_owners p ps)"

lemma safety_comment_owners:
  "safety_comment_from sc a pat n anc \<longleftrightarrow>
     list_ex (\<lambda>owner. hasSafetyJustificationBefore sc owner a pat) (comment_owners n anc)"
  by (induction sc a pat n anc rule: safety_comment_from.induct) (auto split: option.split)

subsection \<open>The pattern cache\<close>

definition nul_free :: "string list \<Rightarrow> bool" where
  "nul_free ms = list_all (\<lambda>m. CHR 0x00 \<notin> set m) ms"

lemma split_first:
  "z \<notin> set m \<Longrightarrow> z \<notin> set n \<Longrightarrow> m @ z # r = n @ z # s \<Longrightarrow> m = n \<and> r = s"
  by (induction m arbitrary: n) (auto simp: Cons_eq_append_conv append_eq_Cons_conv)

lemma join_null_inj:
  "nul_free ms \<Longrightarrow> nul_free ns \<Longrightarrow> ms \<noteq> [] \<Longrightarrow> ns \<noteq> [] \<Longrightarrow> join_null ms = join_null ns \<Longrightarrow> ms = ns"
proof (induction ms arbitrary: ns rule: join_null.induct)
  case (2 m)
  then show ?case by (cases ns rule: join_null.cases) (auto simp: nul_free_def)
next
  case (3 m n ms)
  show ?case
  proof (cases ns rule: join_null.cases)
    case (3 m' n' ns')
    with "3.prems" have "m = m' \<and> join_null (n # ms) = join_null (n' # ns')"
      by (intro split_first[of "CHR 0x00"]) (auto simp: nul_free_def)
    with 3 "3.IH"[of "n' # ns'"] "3.prems" show ?thesis by (simp add: nul_free_def)
  qed (use "3.prems" in \<open>auto simp: nul_free_def\<close>)
qed simp

lemma configured_nonempty: "configuredSafetyMarkers option \<noteq> []"
  by (auto simp: configuredSafetyMarkers_def default_markers_def Let_def split: option.split json.split)

text \<open>Every cached pattern is the pattern of the markers its key stands for.\<close>

definition patterns_ok :: "pattern_cache \<Rightarrow> bool" where
  "patterns_ok patterns = list_all (\<lambda>(k, p). \<exists>ms. nul_free ms \<and> ms \<noteq> [] \<and> k = join_null ms \<and> p = markerPattern ms) patterns"

lemma cached_pattern:
  "patterns_ok patterns \<Longrightarrow> nul_free ms \<Longrightarrow> ms \<noteq> [] \<Longrightarrow>
     nullish (get patterns (join_null ms)) (markerPattern ms) = markerPattern ms"
  by (cases "get patterns (join_null ms)")
    (auto simp: patterns_ok_def list_all_iff dest!: map_of_SomeD dest: join_null_inj)

text \<open>What one call reports, without the cache.\<close>

definition safety_reports :: "source_code \<Rightarrow> json option \<times> loc \<Rightarrow> report list" where
  "safety_reports sc call = (case call of (option, l) \<Rightarrow>
     (if \<not> isTypeAssertionExpression (fst l) \<or> isConstAssertion (fst l) then []
      else if list_ex (\<lambda>owner. list_ex (\<lambda>c. comment_end c \<le> start (info (fst l)) \<and>
                justified (configuredSafetyMarkers option) (comment_value c)) (getCommentsBefore sc owner))
              (comment_owners (fst l) (snd l)) then []
      else [\<lparr>report_node = fst l, message_id = ''missingSafetyComment'',
             report_data = [(''marker'', hd (configuredSafetyMarkers option))]\<rparr>]))"

definition cacheable :: "json option \<times> loc \<Rightarrow> bool" where
  "cacheable call = nul_free (configuredSafetyMarkers (fst call))"

lemma at_hd: "xs \<noteq> [] \<Longrightarrow> at xs 0 = Some (hd xs)"
  by (cases xs) simp_all

lemma patterns_ok_put:
  "patterns_ok patterns \<Longrightarrow> nul_free ms \<Longrightarrow> ms \<noteq> [] \<Longrightarrow> patterns_ok (put (join_null ms) (markerPattern ms) patterns)"
  unfolding patterns_ok_def by (rule put_list_all) auto

lemma checkAssertion_correct:
  assumes "patterns_ok patterns" and "cacheable (option, l)"
  shows "snd (checkAssertion sc option l patterns) = safety_reports sc (option, l) \<and>
    patterns_ok (fst (checkAssertion sc option l patterns))"
proof -
  let ?ms = "configuredSafetyMarkers option"
  have ms: "nul_free ?ms" "?ms \<noteq> []" using assms configured_nonempty by (auto simp: cacheable_def)
  have "hasSafetyComment sc l (markerPattern ?ms) \<longleftrightarrow>
      list_ex (\<lambda>owner. list_ex (\<lambda>c. comment_end c \<le> start (info (fst l)) \<and> justified ?ms (comment_value c))
        (getCommentsBefore sc owner)) (comment_owners (fst l) (snd l))"
    by (simp add: hasSafetyComment_def safety_comment_owners hasSafetyJustificationBefore_def pattern_test_iff)
  then show ?thesis
    using patterns_ok_put[OF assms(1) ms] assms(1) cached_pattern[OF assms(1) ms] at_hd[OF ms(2)]
    by (simp add: checkAssertion_def safety_reports_def Let_def)
qed

lemma checkAssertion_run:
  "patterns_ok patterns \<Longrightarrow> list_all cacheable calls \<Longrightarrow>
     map_option snd (run_rule (\<lambda>st (option, l). Some (checkAssertion sc option l st)) patterns calls) =
       Some (concat (map (safety_reports sc) calls))"
proof (induction calls arbitrary: patterns)
  case (Cons call calls)
  obtain option l where call: "call = (option, l)" by (cases call)
  obtain patterns' rs where step: "checkAssertion sc option l patterns = (patterns', rs)" by fastforce
  with checkAssertion_correct[of patterns option l sc] Cons.prems call
  have "rs = safety_reports sc call" "patterns_ok patterns'" by simp_all
  with Cons.IH[of patterns'] Cons.prems call step show ?case
    by (auto simp: option.map_comp comp_def)
qed simp

section \<open>Properties\<close>

text \<open>
  C33: a chain of assertions is reported at most once, at its outermost assertion: the reports of all
  the assertions in the chain that starts at a node are the reports of that node.
\<close>
theorem noChainedTypeAssertions_once:
  "concat (map noChainedTypeAssertions (assertion_chain l)) = noChainedTypeAssertions l"
  by (rule chain_reported_once)

text \<open>
  The counting loop forbids a chain exactly when it holds more than one assertion and not only
  const assertions.
\<close>
theorem isForbiddenAssertionChain_exact:
  "isForbiddenAssertionChain (fst l) \<longleftrightarrow>
     length (assertion_chain l) > 1 \<and> list_ex (\<lambda>m. \<not> isConstAssertion (fst m)) (assertion_chain l)"
  by (rule forbidden_chain)


end
