(* ===== verification/Fuelled.thy ===== *)
theory Fuelled
  imports Linter
begin

text \<open>
  Recursive functions of the code that need not end are modelled by a step, the body of the function
  with the recursive call as a parameter, iterated with fuel. This theory proves once what all of
  them share: more fuel never changes an answer, and a well-founded set of calls always gets one.
\<close>

text \<open>The value that a run settles on, whatever the fuel.\<close>

definition settled :: "(nat \<Rightarrow> 'a \<Rightarrow> 'b option) \<Rightarrow> 'a \<Rightarrow> 'b" where
  "settled run x = (SOME y. \<exists>n. run n x = Some y)"

locale fuelled =
  fixes step :: "('a \<Rightarrow> 'b option) \<Rightarrow> 'a \<Rightarrow> 'b option"
    and run :: "nat \<Rightarrow> 'a \<Rightarrow> 'b option"
  assumes run_zero: "run 0 x = None"
    and run_Suc: "run (Suc n) x = step (run n) x"
    and step_mono: "refines f g \<Longrightarrow> refines (step f) (step g)"
begin

lemma run_step: "run (Suc n) = step (run n)"
  by (rule ext) (rule run_Suc)

lemma run_refines_Suc: "refines (run n) (run (Suc n))"
proof (induction n)
  case 0
  show ?case by (simp add: refines_def run_zero)
next
  case (Suc n)
  from step_mono[OF Suc] show ?case by (simp only: run_step)
qed

lemma run_mono: "run n x = Some y \<Longrightarrow> n \<le> m \<Longrightarrow> run m x = Some y"
proof (induction m)
  case (Suc m)
  then show ?case using run_refines_Suc[of m] by (auto simp: refines_def le_Suc_eq)
qed simp

lemma run_agree: "run n x = Some y \<Longrightarrow> run m x = Some z \<Longrightarrow> y = z"
  using run_mono[of n x y "max n m"] run_mono[of m x z "max n m"] by simp

text \<open>An argument whose answer needs the answer of an argument in the same set never gets one.\<close>

lemma run_diverges:
  assumes "x \<in> S" and needs: "\<And>x f. x \<in> S \<Longrightarrow> (\<And>c. c \<in> S \<Longrightarrow> f c = None) \<Longrightarrow> step f x = None"
  shows "run n x = None"
  using assms(1)
proof (induction n arbitrary: x)
  case (Suc n)
  then show ?case by (simp add: run_Suc needs)
qed (simp add: run_zero)

lemma settled_value: "run n x = Some y \<Longrightarrow> settled run x = y"
  unfolding settled_def by (rule some_equality) (auto dest: run_agree)

lemma settled_enough: "enough (\<lambda>n. run n x \<noteq> None) \<Longrightarrow> enough (\<lambda>n. run n x = Some (settled run x))"
  by (erule enough_mp) (auto dest: settled_value)

text \<open>What a recursion settles on solves its equation.\<close>

lemma settled_step:
  assumes "enough (\<lambda>n. run n x \<noteq> None)"
  shows "step (\<lambda>c. Some (settled run c)) x = Some (settled run x)"
proof -
  obtain N where N: "\<And>k. run (N + k) x = Some (settled run x)"
    using settled_enough[OF assms] by (auto simp: enough_def)
  have "refines (run N) (\<lambda>c. Some (settled run c))" by (auto simp: refines_def dest: settled_value)
  then have "refines (step (run N)) (step (\<lambda>c. Some (settled run c)))" by (rule step_mono)
  moreover have "step (run N) x = Some (settled run x)" using N[of 1] by (simp add: run_Suc)
  ultimately show ?thesis by (rule refinesD)
qed

end

text \<open>
  A recursion whose step asks about finitely many arguments only. A set of arguments closed under
  calls, on which the calls descend, is answered with enough fuel.
\<close>

locale fuelled_total = fuelled step run
  for step :: "('a \<Rightarrow> 'b option) \<Rightarrow> 'a \<Rightarrow> 'b option" and run +
  fixes calls :: "'a \<Rightarrow> 'a list"
  assumes step_defined: "(\<And>c. c \<in> set (calls x) \<Longrightarrow> f c \<noteq> None) \<Longrightarrow> step f x \<noteq> None"
begin

lemma run_terminates:
  assumes "wf r" and "good x"
    and closed: "\<And>x c. good x \<Longrightarrow> c \<in> set (calls x) \<Longrightarrow> good c \<and> (c, x) \<in> r"
  shows "enough (\<lambda>n. run n x \<noteq> None)"
  using assms(1,2)
proof (induction x rule: wf_induct_rule)
  case (less x)
  have "enough (\<lambda>n. \<forall>c \<in> set (calls x). run n c \<noteq> None)"
    using less closed by (intro enough_list) blast
  then obtain N where N: "\<And>k. \<forall>c \<in> set (calls x). run (N + k) c \<noteq> None" by (auto simp: enough_def)
  have "run (Suc N + k) x \<noteq> None" for k
    using step_defined[of x "run (N + k)"] N[of k] by (auto simp: run_Suc)
  then show ?case by (rule enoughI)
qed

end

end
