(* ===== verification/Dictionary_Types.thy ===== *)
theory Dictionary_Types
  imports Type_Resolution Fuelled
begin

text \<open>
  \<open>shared/dictionary-types.ts\<close>: which types are dictionaries of unsafe values, and which targets
  widen a value. The recursive classifiers follow substitutions with the same substitution map, so
  they need not end; they carry fuel, and \<open>None\<close> says that the fuel ran out. The theory
  \<open>Dictionary_Termination\<close> says when some fuel is enough and when none is.
\<close>

section \<open>Environment\<close>

definition BUILT_INS :: "string list" where
  "BUILT_INS = [''Record'', ''Readonly'', ''Partial'', ''Required'', ''Pick'', ''Omit'', ''PropertyKey'', ''NonNullable'']"

definition TRANSPARENT_WRAPPERS :: "string list" where
  "TRANSPARENT_WRAPPERS = [''Readonly'', ''Partial'', ''Required'', ''NonNullable'']"

type_synonym argument_map = "(string, loc) js_map"

datatype unsafe_value = AnyValue | EmptyObject | ObjectValue | UnionValue | UnknownValue

datatype widening_kind = AnonymousObject | GenericContainer | ObjectTarget | OpenDictionary | UnknownTarget

record type_environment =
  interfaces :: "(string, node list) js_map"
  typeAliases :: environment

fun declaredStatement :: "node \<Rightarrow> node option" where
  "declaredStatement (ExportNamedDeclaration i d specifiers s) = d"
| "declaredStatement (ExportDefaultDeclaration i d) = Some d"
| "declaredStatement n = Some n"

fun interface_name :: "node \<Rightarrow> string option" where
  "interface_name (TSInterfaceDeclaration i d tps es b) = Some (identifier_name d)"
| "interface_name _ = None"

definition addInterface :: "node \<Rightarrow> (string, node list) js_map \<Rightarrow> (string, node list) js_map" where
  "addInterface stmt found =
     (case declaredStatement stmt of
        None \<Rightarrow> found
      | Some d \<Rightarrow>
          (case interface_name d of
             None \<Rightarrow> found
           | Some x \<Rightarrow> put x (nullish (get found x) [] @ [d]) found))"

fun program_body :: "node \<Rightarrow> node list" where
  "program_body (Program i ss) = ss"
| "program_body _ = []"

definition createTypeEnvironment ::
  "environment_cache \<Rightarrow> node \<Rightarrow> visitor_keys \<Rightarrow> type_environment \<times> environment_cache" where
  "createTypeEnvironment cache program vk =
     (case createTypeAliasEnvironment cache program vk of
        (env, cache') \<Rightarrow>
          (\<lparr>interfaces = fold addInterface (program_body program) [], typeAliases = env\<rparr>, cache'))"

definition isBuiltIn :: "string \<Rightarrow> loc \<Rightarrow> type_environment \<Rightarrow> bool" where
  "isBuiltIn name use env \<longleftrightarrow>
     name \<in> set BUILT_INS \<and> \<not> hasVisibleTypeBinding name use (typeAliases env)"

text \<open>A name of the given list that still means the built-in type.\<close>

definition isBuiltInOf :: "string list \<Rightarrow> string \<Rightarrow> loc \<Rightarrow> type_environment \<Rightarrow> bool" where
  "isBuiltInOf names name use env \<longleftrightarrow> name \<in> set names \<and> isBuiltIn name use env"

section \<open>Shapes of types\<close>

fun unwrapTransparentType :: "loc \<Rightarrow> loc" where
  "unwrapTransparentType (TSParenthesizedType i t, anc) =
     unwrapTransparentType (t, TSParenthesizedType i t # anc)"
| "unwrapTransparentType (TSTypeOperator i operator t, anc) =
     (if operator = ''readonly'' then unwrapTransparentType (t, TSTypeOperator i operator t # anc)
      else (TSTypeOperator i operator t, anc))"
| "unwrapTransparentType l = l"

definition isUnappliedReferenceTo :: "loc \<Rightarrow> string \<Rightarrow> bool" where
  "isUnappliedReferenceTo l name =
     (let unwrapped = unwrapTransparentType l
      in typeReferenceName (fst unwrapped) = Some name \<and> length (type_arguments unwrapped) = 0)"

fun is_never_annotation :: "node \<Rightarrow> bool" where
  "is_never_annotation (TSTypeAnnotation i t) =
     (case fst (unwrapTransparentType (t, [TSTypeAnnotation i t])) of
        TSKeyword j k \<Rightarrow> k = TSNeverKeyword | _ \<Rightarrow> False)"
| "is_never_annotation _ = False"

fun isEffectivelyEmptyMember :: "node \<Rightarrow> bool" where
  "isEffectivelyEmptyMember (TSPropertySignature i computed optional key (Some ann)) =
     (optional \<and> is_never_annotation ann)"
| "isEffectivelyEmptyMember _ = False"

definition isEffectivelyEmptyTypeLiteral :: "node list \<Rightarrow> bool" where
  "isEffectivelyEmptyTypeLiteral members \<longleftrightarrow>
     length members = 0 \<or> list_all isEffectivelyEmptyMember members"

fun empty_interface_body :: "node \<Rightarrow> bool" where
  "empty_interface_body (TSInterfaceDeclaration i d tps es (TSInterfaceBody j members)) =
     (length es = 0 \<and> (length members = 0 \<or> list_all isEffectivelyEmptyMember members))"
| "empty_interface_body _ = False"

fun isEffectivelyEmptyInterface :: "node list \<Rightarrow> bool" where
  "isEffectivelyEmptyInterface [d] = empty_interface_body d"
| "isEffectivelyEmptyInterface _ = False"

text \<open>The members of a union or of an intersection.\<close>

fun union_members :: "loc \<Rightarrow> loc list" where
  "union_members (TSUnionType i ts, anc) = map (child_loc (TSUnionType i ts, anc)) ts"
| "union_members _ = []"

fun intersection_members :: "loc \<Rightarrow> loc list" where
  "intersection_members (TSIntersectionType i ts, anc) = map (child_loc (TSIntersectionType i ts, anc)) ts"
| "intersection_members _ = []"

text \<open>
  The tests of \<open>unwrapped.type\<close> that the classifiers share. A reference by a qualified name is
  like any other type to them: each returns its negative answer for both.
\<close>

datatype type_shape =
    KeywordShape keyword_type
  | LiteralShape "node list"
  | MappedShape node "node option"
  | UnionShape
  | IntersectionShape
  | ReferenceShape string
  | OtherShape

fun shape_of :: "node \<Rightarrow> type_shape" where
  "shape_of (TSKeyword i k) = KeywordShape k"
| "shape_of (TSTypeLiteral i members) = LiteralShape members"
| "shape_of (TSMappedType i key constraint_type nameType typeAnnotation) = MappedShape constraint_type typeAnnotation"
| "shape_of (TSUnionType i ts) = UnionShape"
| "shape_of (TSIntersectionType i ts) = IntersectionShape"
| "shape_of (TSTypeReference i (Identifier j x t) a) = ReferenceShape x"
| "shape_of _ = OtherShape"

lemma reference_shape: "shape_of n = ReferenceShape x \<longleftrightarrow> typeReferenceName n = Some x"
  by (cases n rule: shape_of.cases) auto

section \<open>Substitutions\<close>

function resolvedSubstitutionArgument :: "loc \<Rightarrow> argument_map \<Rightarrow> string set \<Rightarrow> loc" where
  "resolvedSubstitutionArgument l base resolving =
     (case typeReferenceName (fst (unwrapTransparentType l)) of
        None \<Rightarrow> l
      | Some name \<Rightarrow>
          if name \<in> resolving then l
          else (case get base name of
                  None \<Rightarrow> l
                | Some s \<Rightarrow> resolvedSubstitutionArgument s base (insert name resolving)))"
  by pat_completeness auto
termination
proof (relation "measure (\<lambda>(l, base, R). card (dom (get base) - R))")
  show "((s, base, insert name R), (l, base, R)) \<in> measure (\<lambda>(l, base, R). card (dom (get base) - R))"
    if "name \<notin> R" "get base name = Some s" for l s :: loc and base name R
    using that finite_dom_map_of by (auto intro!: card_unvisited_less)
qed simp

declare resolvedSubstitutionArgument.simps [simp del]

text \<open>The loop of \<open>aliasSubstitution\<close>: each argument is resolved in the map built so far.\<close>

fun bind_arguments :: "(string \<times> loc option) list \<Rightarrow> loc list \<Rightarrow> argument_map \<Rightarrow> argument_map option" where
  "bind_arguments [] arguments next_map = Some next_map"
| "bind_arguments ((name, default_type) # ps) arguments next_map =
     (case (case arguments of [] \<Rightarrow> default_type | a # _ \<Rightarrow> Some a) of
        None \<Rightarrow> None
      | Some argument \<Rightarrow>
          bind_arguments ps (drop 1 arguments)
            (put name (resolvedSubstitutionArgument argument next_map {}) next_map))"

definition aliasSubstitution :: "loc \<Rightarrow> loc \<Rightarrow> argument_map \<Rightarrow> argument_map option" where
  "aliasSubstitution alias l base = bind_arguments (alias_parameters alias) (type_arguments l) base"

section \<open>Unsafe values\<close>

type_synonym classified = "loc \<times> argument_map \<times> string set"

definition first_unsafe :: "unsafe_value option list \<Rightarrow> unsafe_value option" where
  "first_unsafe found =
     (if Some AnyValue \<in> set found then Some AnyValue
      else if length found > 0 \<and> list_all (\<lambda>v. v \<noteq> None) found then hd found
      else None)"

text \<open>One call of \<open>unsafeDirectValue\<close> on a type reference; \<open>rec\<close> is the recursive call.\<close>

definition unsafe_reference ::
  "type_environment \<Rightarrow> (classified \<Rightarrow> unsafe_value option option) \<Rightarrow> classified \<Rightarrow> string \<Rightarrow>
     unsafe_value option option" where
  "unsafe_reference env rec c name = (case c of (unwrapped, substs, resolving) \<Rightarrow>
     if isBuiltInOf TRANSPARENT_WRAPPERS name unwrapped env then
       (case at (type_arguments unwrapped) 0 of
          None \<Rightarrow> Some None | Some wrapped \<Rightarrow> rec (wrapped, substs, resolving))
     else (case get substs name of
       Some s \<Rightarrow> if isUnappliedReferenceTo s name then Some None else rec (s, substs, resolving)
     | None \<Rightarrow>
         (case get (interfaces env) name of
            Some ds \<Rightarrow> Some (if isEffectivelyEmptyInterface ds then Some EmptyObject else None)
          | None \<Rightarrow>
              (case visibleTypeAlias name unwrapped (typeAliases env) of
                 None \<Rightarrow> Some None
               | Some alias \<Rightarrow>
                   if name \<in> resolving then Some None
                   else (case aliasSubstitution alias unwrapped substs of
                           None \<Rightarrow> Some None
                         | Some next_map \<Rightarrow>
                             rec (alias_annotation alias, next_map, insert name resolving))))))"

definition unsafe_step ::
  "type_environment \<Rightarrow> (classified \<Rightarrow> unsafe_value option option) \<Rightarrow> classified \<Rightarrow>
     unsafe_value option option" where
  "unsafe_step env rec c = (case c of (l, substs, resolving) \<Rightarrow>
     (let unwrapped = unwrapTransparentType l in
      case shape_of (fst unwrapped) of
        KeywordShape k \<Rightarrow>
          Some (if k = TSUnknownKeyword then Some UnknownValue
                else if k = TSAnyKeyword then Some AnyValue
                else if k = TSObjectKeyword then Some ObjectValue else None)
      | LiteralShape members \<Rightarrow>
          Some (if isEffectivelyEmptyTypeLiteral members then Some EmptyObject else None)
      | UnionShape \<Rightarrow>
          map_option (\<lambda>b. if b then Some UnionValue else None)
            (some_m (\<lambda>m. map_option (\<lambda>v. v \<noteq> None) (rec (m, substs, resolving))) (union_members unwrapped))
      | IntersectionShape \<Rightarrow>
          map_option first_unsafe
            (map_m (\<lambda>m. rec (m, substs, resolving)) (intersection_members unwrapped))
      | ReferenceShape name \<Rightarrow> unsafe_reference env rec (unwrapped, substs, resolving) name
      | _ \<Rightarrow> Some None))"

fun unsafeDirectValue :: "type_environment \<Rightarrow> nat \<Rightarrow> classified \<Rightarrow> unsafe_value option option" where
  "unsafeDirectValue env 0 c = None"
| "unsafeDirectValue env (Suc fuel) c = unsafe_step env (unsafeDirectValue env fuel) c"

section \<open>Value types of a dictionary\<close>

fun index_value :: "loc \<Rightarrow> node \<Rightarrow> loc list" where
  "index_value l (TSIndexSignature i ps (Some (TSTypeAnnotation j t))) =
     [(t, TSTypeAnnotation j t # TSIndexSignature i ps (Some (TSTypeAnnotation j t)) # fst l # snd l)]"
| "index_value l _ = []"

definition dictionary_reference ::
  "type_environment \<Rightarrow> (classified \<Rightarrow> (loc \<times> argument_map) list option) \<Rightarrow> classified \<Rightarrow> string \<Rightarrow>
     (loc \<times> argument_map) list option" where
  "dictionary_reference env rec c name = (case c of (unwrapped, substs, resolving) \<Rightarrow>
     (case get substs name of
        Some s \<Rightarrow> if isUnappliedReferenceTo s name then Some [] else rec (s, substs, resolving)
      | None \<Rightarrow>
          if isBuiltInOf TRANSPARENT_WRAPPERS name unwrapped env then
            (case at (type_arguments unwrapped) 0 of
               None \<Rightarrow> Some [] | Some wrapped \<Rightarrow> rec (wrapped, substs, resolving))
          else if isBuiltInOf [''Record''] name unwrapped env then
            (case at (type_arguments unwrapped) 1 of
               None \<Rightarrow> Some [] | Some v \<Rightarrow> Some [(v, substs)])
          else if isBuiltInOf [''Pick'', ''Omit''] name unwrapped env then
            (case at (type_arguments unwrapped) 0 of
               None \<Rightarrow> Some [] | Some s \<Rightarrow> rec (s, substs, resolving))
          else
            (case visibleTypeAlias name unwrapped (typeAliases env) of
               None \<Rightarrow> Some []
             | Some alias \<Rightarrow>
                 if name \<in> resolving then Some []
                 else (case aliasSubstitution alias unwrapped substs of
                         None \<Rightarrow> Some []
                       | Some next_map \<Rightarrow>
                           rec (alias_annotation alias, next_map, insert name resolving)))))"

definition dictionary_step ::
  "type_environment \<Rightarrow> (classified \<Rightarrow> (loc \<times> argument_map) list option) \<Rightarrow> classified \<Rightarrow>
     (loc \<times> argument_map) list option" where
  "dictionary_step env rec c = (case c of (l, substs, resolving) \<Rightarrow>
     (let unwrapped = unwrapTransparentType l in
      case shape_of (fst unwrapped) of
        LiteralShape members \<Rightarrow>
          Some (concat (map (\<lambda>m. map (\<lambda>t. (t, substs)) (index_value unwrapped m)) members))
      | MappedShape constraint_type typeAnnotation \<Rightarrow>
          Some (case typeAnnotation of None \<Rightarrow> [] | Some t \<Rightarrow> [(child_loc unwrapped t, substs)])
      | ReferenceShape name \<Rightarrow> dictionary_reference env rec (unwrapped, substs, resolving) name
      | _ \<Rightarrow> Some []))"

fun dictionaryValueTypes ::
  "type_environment \<Rightarrow> nat \<Rightarrow> classified \<Rightarrow> (loc \<times> argument_map) list option" where
  "dictionaryValueTypes env 0 c = None"
| "dictionaryValueTypes env (Suc fuel) c = dictionary_step env (dictionaryValueTypes env fuel) c"

section \<open>Classification of dictionaries\<close>

definition classifyUnsafeDictionaryValue ::
  "nat \<Rightarrow> loc \<Rightarrow> type_environment \<Rightarrow> unsafe_value option option" where
  "classifyUnsafeDictionaryValue fuel valueType env = unsafeDirectValue env fuel (valueType, [], {})"

fun first_unsafe_value ::
  "type_environment \<Rightarrow> nat \<Rightarrow> (loc \<times> argument_map) list \<Rightarrow> unsafe_value option option" where
  "first_unsafe_value env fuel [] = Some None"
| "first_unsafe_value env fuel ((t, substs) # rest) =
     (case unsafeDirectValue env fuel (t, substs, {}) of
        None \<Rightarrow> None
      | Some (Some v) \<Rightarrow> Some (Some v)
      | Some None \<Rightarrow> first_unsafe_value env fuel rest)"

definition classifyUnsafeDictionary ::
  "nat \<Rightarrow> loc \<Rightarrow> type_environment \<Rightarrow> unsafe_value option option" where
  "classifyUnsafeDictionary fuel l env =
     Option.bind (dictionaryValueTypes env fuel (l, [], {})) (first_unsafe_value env fuel)"

end
