(* ===== verification/Widening_Targets.thy ===== *)
theory Widening_Targets
  imports Dictionary_Types Wrappers
begin

text \<open>
  \<open>shared/dictionary-types.ts\<close>, continued: the targets that widen a value, and the expressions
  that are evidence of a more precise type.
\<close>

section \<open>Broad keys\<close>

text \<open>The substitution of a name, unless it is the bare name again.\<close>

definition proper_substitution :: "argument_map \<Rightarrow> string \<Rightarrow> loc option" where
  "proper_substitution substs name =
     (case get substs name of
        None \<Rightarrow> None | Some s \<Rightarrow> if isUnappliedReferenceTo s name then None else Some s)"

definition key_reference ::
  "type_environment \<Rightarrow> (classified \<Rightarrow> bool option) \<Rightarrow> classified \<Rightarrow> string \<Rightarrow> bool option" where
  "key_reference env rec c name = (case c of (unwrapped, substs, visitedAliases) \<Rightarrow>
     (case proper_substitution substs name of
        Some s \<Rightarrow> rec (s, substs, visitedAliases)
      | None \<Rightarrow>
          if isBuiltInOf [''PropertyKey''] name unwrapped env then Some True
          else (case visibleTypeAlias name unwrapped (typeAliases env) of
                  None \<Rightarrow> Some False
                | Some alias \<Rightarrow>
                    if length (alias_parameters alias) > 0 \<or> name \<in> visitedAliases then Some False
                    else rec (alias_annotation alias, substs, insert name visitedAliases))))"

definition broad_key_step ::
  "type_environment \<Rightarrow> (classified \<Rightarrow> bool option) \<Rightarrow> classified \<Rightarrow> bool option" where
  "broad_key_step env rec c = (case c of (l, substs, visitedAliases) \<Rightarrow>
     (let unwrapped = unwrapTransparentType l in
      case shape_of (fst unwrapped) of
        KeywordShape k \<Rightarrow> Some (k \<in> {TSStringKeyword, TSNumberKeyword, TSSymbolKeyword})
      | UnionShape \<Rightarrow> some_m (\<lambda>m. rec (m, substs, visitedAliases)) (union_members unwrapped)
      | ReferenceShape name \<Rightarrow> key_reference env rec (unwrapped, substs, visitedAliases) name
      | _ \<Rightarrow> Some False))"

fun isBroadMappedKey :: "type_environment \<Rightarrow> nat \<Rightarrow> classified \<Rightarrow> bool option" where
  "isBroadMappedKey env 0 c = None"
| "isBroadMappedKey env (Suc fuel) c = broad_key_step env (isBroadMappedKey env fuel) c"

definition hasBroadRecordKey :: "type_environment \<Rightarrow> nat \<Rightarrow> loc \<Rightarrow> argument_map \<Rightarrow> bool option" where
  "hasBroadRecordKey env fuel l substs =
     (case at (type_arguments l) 0 of
        None \<Rightarrow> Some True | Some key \<Rightarrow> isBroadMappedKey env fuel (key, substs, {}))"

definition open_if :: "bool \<Rightarrow> widening_kind option" where
  "open_if b = (if b then Some OpenDictionary else None)"

fun is_index_signature :: "node \<Rightarrow> bool" where
  "is_index_signature (TSIndexSignature i ps t) = True"
| "is_index_signature _ = False"

section \<open>Broad targets behind an alias\<close>

text \<open>\<open>keyFuel\<close> is the fuel of the key test that this function calls.\<close>

definition target_reference ::
  "type_environment \<Rightarrow> nat \<Rightarrow> (classified \<Rightarrow> widening_kind option option) \<Rightarrow> classified \<Rightarrow> string \<Rightarrow>
     widening_kind option option" where
  "target_reference env keyFuel rec c name = (case c of (unwrapped, substs, resolving) \<Rightarrow>
     (case get substs name of
        Some s \<Rightarrow> if isUnappliedReferenceTo s name then Some None else rec (s, substs, resolving)
      | None \<Rightarrow>
          if isBuiltInOf TRANSPARENT_WRAPPERS name unwrapped env then
            (case at (type_arguments unwrapped) 0 of
               None \<Rightarrow> Some None | Some wrapped \<Rightarrow> rec (wrapped, substs, resolving))
          else if isBuiltInOf [''Record''] name unwrapped env then
            map_option open_if (hasBroadRecordKey env keyFuel unwrapped substs)
          else
            (case visibleTypeAlias name unwrapped (typeAliases env) of
               None \<Rightarrow> Some None
             | Some alias \<Rightarrow>
                 if name \<in> resolving then Some None
                 else (case aliasSubstitution alias unwrapped substs of
                         None \<Rightarrow> Some None
                       | Some next_map \<Rightarrow>
                           rec (alias_annotation alias, next_map, insert name resolving)))))"

definition broad_target_step ::
  "type_environment \<Rightarrow> nat \<Rightarrow> (classified \<Rightarrow> widening_kind option option) \<Rightarrow> classified \<Rightarrow>
     widening_kind option option" where
  "broad_target_step env keyFuel rec c = (case c of (l, substs, resolving) \<Rightarrow>
     (let unwrapped = unwrapTransparentType l in
      case shape_of (fst unwrapped) of
        KeywordShape k \<Rightarrow>
          Some (if k = TSUnknownKeyword then Some UnknownTarget
                else if k = TSObjectKeyword then Some ObjectTarget else None)
      | LiteralShape members \<Rightarrow> Some (open_if (list_ex is_index_signature members))
      | MappedShape constraint_type typeAnnotation \<Rightarrow>
          map_option open_if (isBroadMappedKey env keyFuel (child_loc unwrapped constraint_type, substs, {}))
      | ReferenceShape name \<Rightarrow> target_reference env keyFuel rec (unwrapped, substs, resolving) name
      | _ \<Rightarrow> Some None))"

fun classifyAliasBroadTarget ::
  "type_environment \<Rightarrow> nat \<Rightarrow> nat \<Rightarrow> classified \<Rightarrow> widening_kind option option" where
  "classifyAliasBroadTarget env keyFuel 0 c = None"
| "classifyAliasBroadTarget env keyFuel (Suc fuel) c =
     broad_target_step env keyFuel (classifyAliasBroadTarget env keyFuel fuel) c"

section \<open>Widening targets\<close>

definition widening_alias :: "type_environment \<Rightarrow> nat \<Rightarrow> loc \<Rightarrow> string \<Rightarrow> widening_kind option option" where
  "widening_alias env fuel unwrapped name =
     (case visibleTypeAlias name unwrapped (typeAliases env) of
        None \<Rightarrow> Some None
      | Some alias \<Rightarrow>
          (case aliasSubstitution alias unwrapped [] of
             None \<Rightarrow> Some None
           | Some substs \<Rightarrow>
               map_option
                 (\<lambda>resolved.
                    if length (alias_parameters alias) > 0
                    then (if resolved = Some OpenDictionary then Some GenericContainer else None)
                    else resolved)
                 (classifyAliasBroadTarget env fuel fuel (alias_annotation alias, substs, {name}))))"

lemma unwrap_type_size: "size (fst (unwrapTransparentType l)) \<le> size (fst l)"
  by (induction l rule: unwrapTransparentType.induct) auto

lemma type_argument_smaller: "at (type_arguments l) k = Some w \<Longrightarrow> size (fst w) < size (fst l)"
  by (drule at_in_set, cases l rule: type_arguments.cases) (auto dest: size_member)

function classifyWideningTarget :: "type_environment \<Rightarrow> nat \<Rightarrow> loc \<Rightarrow> widening_kind option option" where
  "classifyWideningTarget env fuel l =
     (let unwrapped = unwrapTransparentType l in
      case shape_of (fst unwrapped) of
        KeywordShape k \<Rightarrow>
          Some (if k = TSUnknownKeyword then Some UnknownTarget
                else if k = TSObjectKeyword then Some ObjectTarget else None)
      | LiteralShape members \<Rightarrow>
          Some (if list_ex is_index_signature members then Some OpenDictionary
                else if length members > 0 then Some AnonymousObject else None)
      | MappedShape constraint_type typeAnnotation \<Rightarrow> Some (Some OpenDictionary)
      | ReferenceShape name \<Rightarrow>
          if isBuiltInOf TRANSPARENT_WRAPPERS name unwrapped env then
            (case at (type_arguments unwrapped) 0 of
               None \<Rightarrow> Some None | Some wrapped \<Rightarrow> classifyWideningTarget env fuel wrapped)
          else if isBuiltInOf [''Record''] name unwrapped env then
            map_option open_if (hasBroadRecordKey env fuel unwrapped [])
          else widening_alias env fuel unwrapped name
      | _ \<Rightarrow> Some None)"
  by pat_completeness auto
termination
proof (relation "measure (\<lambda>(env, fuel, l). size (fst l))")
  show "((env, fuel, wrapped), (env, fuel, l)) \<in> measure (\<lambda>(env, fuel, l). size (fst l))"
    if "u = unwrapTransparentType l" "at (type_arguments u) 0 = Some wrapped"
    for env fuel l u wrapped
    using type_argument_smaller[OF that(2)] unwrap_type_size[of l] that(1) by simp
qed simp

declare classifyWideningTarget.simps [simp del]

section \<open>Evidence expressions\<close>

fun populated_inner :: "node \<Rightarrow> node option" where
  "populated_inner (ParenthesizedExpression i e) = Some e"
| "populated_inner (TSAsExpression i e t) = Some e"
| "populated_inner (TSTypeAssertion i e t) = Some e"
| "populated_inner (TSNonNullExpression i e) = Some e"
| "populated_inner _ = None"

lemma populated_inner_size [termination_simp]: "populated_inner n = Some e \<Longrightarrow> size e < size n"
  by (cases n rule: populated_inner.cases) auto

function unwrap_populated :: "node \<Rightarrow> node" where
  "unwrap_populated n = (case populated_inner n of None \<Rightarrow> n | Some e \<Rightarrow> unwrap_populated e)"
  by pat_completeness auto
termination by (relation "measure size") (auto dest: populated_inner_size)

declare unwrap_populated.simps [simp del]

definition isPopulatedObjectExpression :: "node \<Rightarrow> bool" where
  "isPopulatedObjectExpression expression =
     (case as_object (unwrap_populated expression) of None \<Rightarrow> False | Some ps \<Rightarrow> length ps > 0)"

fun evidence_inner :: "node \<Rightarrow> node option" where
  "evidence_inner (TSSatisfiesExpression i e t) = Some e"
| "evidence_inner n = populated_inner n"

lemma evidence_inner_size: "evidence_inner n = Some e \<Longrightarrow> size e < size n"
  by (cases n rule: evidence_inner.cases) (auto dest: populated_inner_size)

function unwrap_evidence :: "node \<Rightarrow> node" where
  "unwrap_evidence n = (case evidence_inner n of None \<Rightarrow> n | Some e \<Rightarrow> unwrap_evidence e)"
  by pat_completeness auto
termination by (relation "measure size") (auto dest: evidence_inner_size)

declare unwrap_evidence.simps [simp del]

definition evidence_types :: "string list" where
  "evidence_types =
     [''ObjectExpression'', ''ArrayExpression'', ''ArrowFunctionExpression'', ''ClassExpression'',
      ''FunctionExpression'', ''NewExpression'', ''Literal'', ''TemplateLiteral'', ''UnaryExpression'']"

definition isKnownEvidenceExpression :: "node \<Rightarrow> bool" where
  "isKnownEvidenceExpression expression = (node_type (unwrap_evidence expression) \<in> set evidence_types)"

interpretation populated: syntax_wrapper populated_inner unwrap_populated
  by unfold_locales (simp_all add: unwrap_populated.simps populated_inner_size)

interpretation evidence: syntax_wrapper evidence_inner unwrap_evidence
  by unfold_locales (simp_all add: unwrap_evidence.simps evidence_inner_size)

interpretation evidence_wider: wider_wrapper populated_inner unwrap_populated evidence_inner unwrap_evidence
proof unfold_locales
  show "populated_inner n = Some m \<Longrightarrow> evidence_inner n = Some m" for n m
    by (cases n rule: populated_inner.cases) simp_all
qed

text \<open>A populated object literal is evidence, whatever is wrapped around it.\<close>

lemma populated_is_evidence: "isPopulatedObjectExpression e \<Longrightarrow> isKnownEvidenceExpression e"
proof -
  assume "isPopulatedObjectExpression e"
  then obtain i ps where obj: "unwrap_populated e = ObjectExpression i ps"
    by (auto simp: isPopulatedObjectExpression_def split: option.splits)
  have "unwrap_evidence e = unwrap_evidence (ObjectExpression i ps)"
    using evidence_wider.absorbs[of e] obj by simp
  also have "\<dots> = ObjectExpression i ps" by (rule evidence.unwrap_stop) simp
  finally show ?thesis by (simp add: isKnownEvidenceExpression_def evidence_types_def)
qed

end
