(* ===== verification/Dictionary_Termination.thy ===== *)
theory Dictionary_Termination
  imports Widening_Targets
begin

text \<open>
  When the classifiers of \<open>shared/dictionary-types.ts\<close> return. Each is a fuelled recursion; all of
  them call themselves on members, arguments, substitutes and alias bodies. In an environment whose
  aliases take no type parameters every call ends. With type parameters a substitute may mention the
  name it replaces, and then the code recurses for ever.
\<close>

section \<open>The calls of a step\<close>

definition next_args :: "type_environment \<Rightarrow> classified \<Rightarrow> classified list" where
  "next_args env c = (case c of (l, substs, resolving) \<Rightarrow>
     (let u = unwrapTransparentType l in
      map (\<lambda>m. (m, substs, resolving)) (union_members u @ intersection_members u @ type_arguments u) @
      (case typeReferenceName (fst u) of
         None \<Rightarrow> []
       | Some name \<Rightarrow>
           (case get substs name of None \<Rightarrow> [] | Some s \<Rightarrow> [(s, substs, resolving)]) @
           (case visibleTypeAlias name u (typeAliases env) of
              None \<Rightarrow> []
            | Some alias \<Rightarrow>
                if name \<in> resolving then []
                else (case aliasSubstitution alias u substs of
                        None \<Rightarrow> []
                      | Some next_map \<Rightarrow> [(alias_annotation alias, next_map, insert name resolving)])))))"

text \<open>\<open>answered x\<close> says that a recursive call returned; a step returns if the calls it makes do.\<close>

definition answered :: "'a option \<Rightarrow> bool" where
  "answered x \<longleftrightarrow> x \<noteq> None"

lemma answered_simps [simp]:
  "answered (Some y)" "\<not> answered None" "answered (map_option h x) \<longleftrightarrow> answered x"
  by (simp_all add: answered_def)

definition calls_answered :: "type_environment \<Rightarrow> (classified \<Rightarrow> 'b option) \<Rightarrow> classified \<Rightarrow> bool" where
  "calls_answered env f c \<longleftrightarrow> (\<forall>d \<in> set (next_args env c). answered (f d))"

lemma answered_member:
  "calls_answered env f (l, substs, R) \<Longrightarrow>
     m \<in> set (union_members (unwrapTransparentType l) @ intersection_members (unwrapTransparentType l) @
           type_arguments (unwrapTransparentType l)) \<Longrightarrow> answered (f (m, substs, R))"
  by (auto simp: calls_answered_def next_args_def Let_def)

lemma answered_argument:
  "calls_answered env f (l, substs, R) \<Longrightarrow> at (type_arguments (unwrapTransparentType l)) 0 = Some m \<Longrightarrow>
     answered (f (m, substs, R))"
  by (rule answered_member) (auto dest: at_in_set)

lemma answered_substitute:
  "calls_answered env f (l, substs, R) \<Longrightarrow> typeReferenceName (fst (unwrapTransparentType l)) = Some name \<Longrightarrow>
     get substs name = Some s \<Longrightarrow> answered (f (s, substs, R))"
  by (simp add: calls_answered_def next_args_def Let_def)

lemma answered_alias:
  "calls_answered env f (l, substs, R) \<Longrightarrow> typeReferenceName (fst (unwrapTransparentType l)) = Some name \<Longrightarrow>
     visibleTypeAlias name (unwrapTransparentType l) (typeAliases env) = Some alias \<Longrightarrow> name \<notin> R \<Longrightarrow>
     aliasSubstitution alias (unwrapTransparentType l) substs = Some next_map \<Longrightarrow>
     answered (f (alias_annotation alias, next_map, insert name R))"
  by (simp add: calls_answered_def next_args_def Let_def)

lemma answered_some: "(\<And>m. m \<in> set xs \<Longrightarrow> answered (f m)) \<Longrightarrow> answered (some_m f xs)"
  by (simp add: answered_def some_m_defined)

lemma answered_map: "(\<And>m. m \<in> set xs \<Longrightarrow> answered (f m)) \<Longrightarrow> answered (map_m f xs)"
  by (simp add: answered_def map_m_defined)

lemmas answered_intros = answered_member answered_argument answered_substitute answered_alias

lemma no_parameters_substitution: "alias_parameters a = [] \<Longrightarrow> aliasSubstitution a l base = Some base"
  by (simp add: aliasSubstitution_def)

section \<open>The three classifiers as fuelled recursions\<close>

lemma some_m_refines:
  "refines f g \<Longrightarrow> some_m (\<lambda>m. map_option h (f (k m))) xs = Some b \<Longrightarrow> some_m (\<lambda>m. map_option h (g (k m))) xs = Some b"
  by (rule some_m_mono[rotated]) (auto simp: refines_def)

lemma map_m_refines:
  "refines f g \<Longrightarrow> map_m (\<lambda>m. f (k m)) xs = Some ys \<Longrightarrow> map_m (\<lambda>m. g (k m)) xs = Some ys"
  by (rule map_m_mono[rotated]) (auto simp: refines_def)

lemma unsafe_reference_mono:
  "refines f g \<Longrightarrow> unsafe_reference env f c name = Some y \<longrightarrow> unsafe_reference env g c name = Some y"
  by (cases c) (simp add: unsafe_reference_def refinesD[of f g] split: option.split)

lemma unsafe_step_mono: "refines f g \<Longrightarrow> unsafe_step env f c = Some y \<longrightarrow> unsafe_step env g c = Some y"
proof -
  assume rf: "refines f g"
  obtain l substs R where c: "c = (l, substs, R)" by (cases c)
  note some_m_refines[OF rf, where k = "\<lambda>m. (m, substs, R)"] map_m_refines[OF rf, where k = "\<lambda>m. (m, substs, R)"]
  then show ?thesis
    by (auto simp: c unsafe_step_def Let_def unsafe_reference_mono[OF rf, THEN mp] split: type_shape.split)
qed

lemma unsafe_reference_answered:
  "calls_answered env f (l, substs, R) \<Longrightarrow> typeReferenceName (fst (unwrapTransparentType l)) = Some name \<Longrightarrow>
     answered (unsafe_reference env f (unwrapTransparentType l, substs, R) name)"
  by (simp add: unsafe_reference_def answered_intros split: option.split)

lemma unsafe_step_answered: "calls_answered env f (l, substs, R) \<Longrightarrow> answered (unsafe_step env f (l, substs, R))"
  by (simp add: unsafe_step_def Let_def unsafe_reference_answered answered_some answered_map answered_member
      reference_shape split: type_shape.split)

lemma calls_answeredI: "(\<And>d. d \<in> set (next_args env c) \<Longrightarrow> f d \<noteq> None) \<Longrightarrow> calls_answered env f c"
  by (simp add: calls_answered_def answered_def)

interpretation unsafe_value: fuelled_total "unsafe_step env" "unsafeDirectValue env" "next_args env" for env
proof unfold_locales
  show "refines (unsafe_step env f) (unsafe_step env g)" if "refines f g" for f g
    using unsafe_step_mono[OF that] by (simp add: refines_def)
  show "unsafe_step env f c \<noteq> None" if "\<And>d. d \<in> set (next_args env c) \<Longrightarrow> f d \<noteq> None" for f c
    using unsafe_step_answered[of env f "fst c" "fst (snd c)" "snd (snd c)"] calls_answeredI[of env c f, OF that]
    by (simp add: answered_def)
qed simp_all

lemma dictionary_reference_mono:
  "refines f g \<Longrightarrow> dictionary_reference env f c name = Some y \<longrightarrow> dictionary_reference env g c name = Some y"
  by (cases c) (simp add: dictionary_reference_def refinesD[of f g] split: option.split)

lemma dictionary_step_mono: "refines f g \<Longrightarrow> dictionary_step env f c = Some y \<longrightarrow> dictionary_step env g c = Some y"
  by (cases c) (simp add: dictionary_step_def Let_def dictionary_reference_mono split: type_shape.split)

lemma dictionary_reference_answered:
  "calls_answered env f (l, substs, R) \<Longrightarrow> typeReferenceName (fst (unwrapTransparentType l)) = Some name \<Longrightarrow>
     answered (dictionary_reference env f (unwrapTransparentType l, substs, R) name)"
  by (simp add: dictionary_reference_def answered_intros split: option.split)

lemma dictionary_step_answered:
  "calls_answered env f (l, substs, R) \<Longrightarrow> answered (dictionary_step env f (l, substs, R))"
  by (simp add: dictionary_step_def Let_def dictionary_reference_answered reference_shape split: type_shape.split)

interpretation dictionary_values: fuelled_total "dictionary_step env" "dictionaryValueTypes env" "next_args env" for env
proof unfold_locales
  show "refines (dictionary_step env f) (dictionary_step env g)" if "refines f g" for f g
    using dictionary_step_mono[OF that] by (simp add: refines_def)
  show "dictionary_step env f c \<noteq> None" if "\<And>d. d \<in> set (next_args env c) \<Longrightarrow> f d \<noteq> None" for f c
    using dictionary_step_answered[of env f "fst c" "fst (snd c)" "snd (snd c)"] calls_answeredI[of env c f, OF that]
    by (simp add: answered_def)
qed simp_all

lemma key_reference_mono:
  "refines f g \<Longrightarrow> key_reference env f c name = Some y \<longrightarrow> key_reference env g c name = Some y"
  by (cases c) (simp add: key_reference_def refinesD[of f g] split: option.split)

lemma broad_key_step_mono: "refines f g \<Longrightarrow> broad_key_step env f c = Some y \<longrightarrow> broad_key_step env g c = Some y"
proof -
  assume rf: "refines f g"
  obtain l substs R where c: "c = (l, substs, R)" by (cases c)
  have "some_m (\<lambda>m. f (m, substs, R)) xs = Some b \<Longrightarrow> some_m (\<lambda>m. g (m, substs, R)) xs = Some b" for xs b
    using some_m_mono[of "\<lambda>m. f (m, substs, R)" "\<lambda>m. g (m, substs, R)"] rf by (simp add: refines_def)
  then show ?thesis
    by (simp add: c broad_key_step_def Let_def key_reference_mono[OF rf] split: type_shape.split)
qed

lemma proper_substitution_get: "proper_substitution substs name = Some s \<Longrightarrow> get substs name = Some s"
  by (auto simp: proper_substitution_def split: option.splits if_splits)

lemma key_reference_answered:
  "calls_answered env f (l, substs, R) \<Longrightarrow> typeReferenceName (fst (unwrapTransparentType l)) = Some name \<Longrightarrow>
     answered (key_reference env f (unwrapTransparentType l, substs, R) name)"
  by (simp add: key_reference_def answered_substitute[OF _ _ proper_substitution_get]
      answered_alias[OF _ _ _ _ no_parameters_substitution] split: option.split)

lemma broad_key_step_answered:
  "calls_answered env f (l, substs, R) \<Longrightarrow> answered (broad_key_step env f (l, substs, R))"
  by (simp add: broad_key_step_def Let_def key_reference_answered answered_some answered_member reference_shape
      split: type_shape.split)

interpretation broad_keys: fuelled_total "broad_key_step env" "isBroadMappedKey env" "next_args env" for env
proof unfold_locales
  show "refines (broad_key_step env f) (broad_key_step env g)" if "refines f g" for f g
    using broad_key_step_mono[OF that] by (simp add: refines_def)
  show "broad_key_step env f c \<noteq> None" if "\<And>d. d \<in> set (next_args env c) \<Longrightarrow> f d \<noteq> None" for f c
    using broad_key_step_answered[of env f "fst c" "fst (snd c)" "snd (snd c)"] calls_answeredI[of env c f, OF that]
    by (simp add: answered_def)
qed simp_all

lemma target_reference_mono:
  "refines f g \<Longrightarrow> target_reference env k f c name = Some y \<longrightarrow> target_reference env k g c name = Some y"
  by (cases c) (simp add: target_reference_def refinesD[of f g] split: option.split)

lemma broad_target_step_mono:
  "refines f g \<Longrightarrow> broad_target_step env k f c = Some y \<longrightarrow> broad_target_step env k g c = Some y"
  by (cases c) (simp add: broad_target_step_def Let_def target_reference_mono split: type_shape.split)

interpretation broad_targets: fuelled "broad_target_step env k" "classifyAliasBroadTarget env k" for env k
proof unfold_locales
  show "refines (broad_target_step env k f) (broad_target_step env k g)" if "refines f g" for f g
    using broad_target_step_mono[OF that] by (simp add: refines_def)
qed simp_all

section \<open>Environments without generic aliases\<close>

text \<open>No alias of the environment takes type parameters.\<close>

definition plain_aliases :: "environment \<Rightarrow> bool" where
  "plain_aliases env = list_all (\<lambda>(x, bs). list_all (\<lambda>b. case binding_alias b of
       None \<Rightarrow> True | Some a \<Rightarrow> alias_parameters a = []) bs) (bindingsByName env)"

definition bound_names :: "environment \<Rightarrow> string set" where
  "bound_names env = fst ` set (bindingsByName env)"

lemma visible_alias_entry:
  "visibleTypeAlias name use env = Some a \<Longrightarrow>
     \<exists>bs b. get (bindingsByName env) name = Some bs \<and> b \<in> set bs \<and> binding_alias b = Some a"
proof -
  assume "visibleTypeAlias name use env = Some a"
  then obtain b where b: "nearestTypeBindings name use env = [b]" "binding_alias b = Some a"
    using visible_alias_candidate by blast
  with nearest_subset[of name use env] show ?thesis
    by (cases "get (bindingsByName env) name") auto
qed

lemma visible_alias_plain:
  "plain_aliases env \<Longrightarrow> visibleTypeAlias name use env = Some a \<Longrightarrow> alias_parameters a = []"
  by (frule visible_alias_entry) (fastforce simp: plain_aliases_def list_all_iff dest!: map_of_SomeD)

lemma visible_alias_bound: "visibleTypeAlias name use env = Some a \<Longrightarrow> name \<in> bound_names env"
  by (frule visible_alias_entry) (force simp: bound_names_def dest!: map_of_SomeD)

definition descent :: "type_environment \<Rightarrow> (classified \<times> classified) set" where
  "descent env = measures
     [\<lambda>(l, m, R). card (bound_names (typeAliases env) - R), \<lambda>(l, m, R). size (fst l)]"

definition unsubstituted :: "classified \<Rightarrow> bool" where
  "unsubstituted c \<longleftrightarrow> fst (snd c) = []"

lemma wf_descent: "wf (descent env)"
  by (simp add: descent_def)

lemma member_smaller:
  "m \<in> set (union_members u) \<union> set (intersection_members u) \<union> set (type_arguments u) \<Longrightarrow> size (fst m) < size (fst u)"
proof -
  have "m \<in> set (union_members u) \<Longrightarrow> size (fst m) < size (fst u)"
    by (cases u rule: union_members.cases) (auto dest: size_member)
  moreover have "m \<in> set (intersection_members u) \<Longrightarrow> size (fst m) < size (fst u)"
    by (cases u rule: intersection_members.cases) (auto dest: size_member)
  moreover have "m \<in> set (type_arguments u) \<Longrightarrow> size (fst m) < size (fst u)"
    by (cases u rule: type_arguments.cases) (auto dest: size_member)
  ultimately show "m \<in> set (union_members u) \<union> set (intersection_members u) \<union> set (type_arguments u) \<Longrightarrow>
    size (fst m) < size (fst u)" by blast
qed

lemma plain_descends:
  assumes plain: "plain_aliases (typeAliases env)" and "unsubstituted c" and "d \<in> set (next_args env c)"
  shows "unsubstituted d \<and> (d, c) \<in> descent env"
proof -
  obtain l R where c: "c = (l, [], R)" using assms(2) by (cases c) (auto simp: unsubstituted_def)
  let ?u = "unwrapTransparentType l"
  consider m where "m \<in> set (union_members ?u) \<union> set (intersection_members ?u) \<union> set (type_arguments ?u)" "d = (m, [], R)"
    | name a where "visibleTypeAlias name ?u (typeAliases env) = Some a" "name \<notin> R"
        "d = (alias_annotation a, [], insert name R)"
  proof (cases "d \<in> (\<lambda>m. (m, [], R)) ` set (union_members ?u @ intersection_members ?u @ type_arguments ?u)")
    case True
    then obtain m where "m \<in> set (union_members ?u @ intersection_members ?u @ type_arguments ?u)" "d = (m, [], R)"
      by blast
    with that(1)[of m] show ?thesis by simp
  next
    case False
    with assms(3) obtain name where name: "typeReferenceName (fst ?u) = Some name"
      by (cases "typeReferenceName (fst ?u)") (simp_all add: c next_args_def Let_def image_Un)
    with assms(3) False obtain a where a: "visibleTypeAlias name ?u (typeAliases env) = Some a"
      by (cases "visibleTypeAlias name ?u (typeAliases env)") (simp_all add: c next_args_def Let_def image_Un)
    with assms(3) False name that(2)[of name a] no_parameters_substitution[OF visible_alias_plain[OF plain a]]
    show ?thesis by (simp add: c next_args_def Let_def image_Un split: if_splits)
  qed
  then show ?thesis
  proof cases
    case (1 m)
    then have "size (fst m) < size (fst l)" using member_smaller[of m ?u] unwrap_type_size[of l] by linarith
    with 1 show ?thesis by (simp add: c unsubstituted_def descent_def)
  next
    case (2 name a)
    then have "card (bound_names (typeAliases env) - insert name R) < card (bound_names (typeAliases env) - R)"
      by (intro card_unvisited_less visible_alias_bound) (auto simp: bound_names_def)
    with 2 show ?thesis by (simp add: c unsubstituted_def descent_def)
  qed
qed

lemma unsafe_value_plain:
  "plain_aliases (typeAliases env) \<Longrightarrow> enough (\<lambda>n. unsafeDirectValue env n (l, [], R) \<noteq> None)"
  by (rule unsafe_value.run_terminates[OF wf_descent[of env], of unsubstituted])
    (simp_all add: unsubstituted_def plain_descends[unfolded unsubstituted_def])

lemma dictionary_values_plain:
  "plain_aliases (typeAliases env) \<Longrightarrow> enough (\<lambda>n. dictionaryValueTypes env n (l, [], R) \<noteq> None)"
  by (rule dictionary_values.run_terminates[OF wf_descent[of env], of unsubstituted])
    (simp_all add: unsubstituted_def plain_descends[unfolded unsubstituted_def])

lemma broad_keys_plain:
  "plain_aliases (typeAliases env) \<Longrightarrow> enough (\<lambda>n. isBroadMappedKey env n (l, [], R) \<noteq> None)"
  by (rule broad_keys.run_terminates[OF wf_descent[of env], of unsubstituted])
    (simp_all add: unsubstituted_def plain_descends[unfolded unsubstituted_def])

end
