(* ===== verification/Dictionary_Rule.thy ===== *)
theory Dictionary_Rule
  imports Dictionary_Termination
begin

text \<open>
  The rule \<open>no-unsafe-dictionary-type\<close>: which type nodes it classifies, and that of nested unsafe
  dictionaries only the outermost is reported.
\<close>

section \<open>The rule\<close>

definition typeNodeKinds :: "string list" where
  "typeNodeKinds =
     [''JSDocNonNullableType'', ''JSDocNullableType'', ''JSDocUnknownType'', ''TSAnyKeyword'', ''TSArrayType'',
      ''TSBigIntKeyword'', ''TSBooleanKeyword'', ''TSConditionalType'', ''TSConstructorType'', ''TSFunctionType'',
      ''TSImportType'', ''TSIndexedAccessType'', ''TSInferType'', ''TSIntersectionType'', ''TSIntrinsicKeyword'',
      ''TSLiteralType'', ''TSMappedType'', ''TSNamedTupleMember'', ''TSNeverKeyword'', ''TSNullKeyword'',
      ''TSNumberKeyword'', ''TSObjectKeyword'', ''TSParenthesizedType'', ''TSStringKeyword'', ''TSSymbolKeyword'',
      ''TSTemplateLiteralType'', ''TSThisType'', ''TSTupleType'', ''TSTypeLiteral'', ''TSTypeOperator'',
      ''TSTypePredicate'', ''TSTypeQuery'', ''TSTypeReference'', ''TSUndefinedKeyword'', ''TSUnionType'',
      ''TSUnknownKeyword'', ''TSVoidKeyword'']"

definition isTypeNode :: "node \<Rightarrow> bool" where
  "isTypeNode n = (node_type n \<in> set typeNodeKinds)"

fun inside_alias :: "node list \<Rightarrow> bool" where
  "inside_alias [] = False"
| "inside_alias (p # ps) =
     (if node_type p = ''Program'' then False
      else if node_type p = ''TSTypeAliasDeclaration'' then True else inside_alias ps)"

definition isInsideTypeAliasDeclaration :: "loc \<Rightarrow> bool" where
  "isInsideTypeAliasDeclaration l = inside_alias (snd l)"

definition isPlainAliasConsumerUse :: "loc \<Rightarrow> type_environment \<Rightarrow> bool" where
  "isPlainAliasConsumerUse l env =
     (if node_type (fst l) \<noteq> ''TSTypeReference'' \<or> length (type_arguments l) > 0 then False
      else (case typeReferenceName (fst l) of
              None \<Rightarrow> False
            | Some name \<Rightarrow>
                visibleTypeAlias name l (typeAliases env) \<noteq> None \<and> \<not> isInsideTypeAliasDeclaration l))"

fun parameter_constraint :: "node \<Rightarrow> node option" where
  "parameter_constraint (TSTypeParameter i n c d) = c"
| "parameter_constraint _ = None"

fun inside_constraint :: "node \<Rightarrow> node list \<Rightarrow> bool" where
  "inside_constraint child [] = False"
| "inside_constraint child (p # ps) =
     (if node_type p = ''Program'' then False
      else if (case parameter_constraint p of None \<Rightarrow> False | Some c \<Rightarrow> same_node c child) then True
      else inside_constraint p ps)"

definition isInsideTypeParameterConstraint :: "loc \<Rightarrow> bool" where
  "isInsideTypeParameterConstraint l = inside_constraint (fst l) (snd l)"

text \<open>The last loop of \<open>shouldReportType\<close>: no type node around is an unsafe dictionary.\<close>

fun no_unsafe_ancestor :: "type_environment \<Rightarrow> nat \<Rightarrow> node list \<Rightarrow> bool option" where
  "no_unsafe_ancestor env fuel [] = Some True"
| "no_unsafe_ancestor env fuel (p # ps) =
     (if node_type p = ''Program'' then Some True
      else if isTypeNode p then
        (case classifyUnsafeDictionary fuel (p, ps) env of
           None \<Rightarrow> None
         | Some (Some v) \<Rightarrow> Some False
         | Some None \<Rightarrow> no_unsafe_ancestor env fuel ps)
      else no_unsafe_ancestor env fuel ps)"

definition shouldReportType :: "nat \<Rightarrow> loc \<Rightarrow> type_environment \<Rightarrow> bool option" where
  "shouldReportType fuel l env =
     (if isInsideTypeParameterConstraint l then Some False
      else if isPlainAliasConsumerUse l env then Some False
      else (case classifyUnsafeDictionary fuel l env of
              None \<Rightarrow> None
            | Some None \<Rightarrow> Some False
            | Some (Some v) \<Rightarrow> no_unsafe_ancestor env fuel (snd l)))"

definition unsafe_name :: "unsafe_value \<Rightarrow> string" where
  "unsafe_name v = (case v of AnyValue \<Rightarrow> ''any'' | EmptyObject \<Rightarrow> ''empty-object'' | ObjectValue \<Rightarrow> ''object''
     | UnionValue \<Rightarrow> ''union'' | UnknownValue \<Rightarrow> ''unknown'')"

definition dictionary_report :: "node \<Rightarrow> unsafe_value \<Rightarrow> report" where
  "dictionary_report n v =
     \<lparr>report_node = n, message_id = ''unsafeDictionary'', report_data = [(''value'', unsafe_name v)]\<rparr>"

definition reportIfUnsafe :: "nat \<Rightarrow> type_environment option \<Rightarrow> loc \<Rightarrow> report list option" where
  "reportIfUnsafe fuel env l =
     (case env of
        None \<Rightarrow> Some []
      | Some e \<Rightarrow>
          (case shouldReportType fuel l e of
             None \<Rightarrow> None
           | Some False \<Rightarrow> Some []
           | Some True \<Rightarrow>
               map_option (\<lambda>found. case found of None \<Rightarrow> [] | Some v \<Rightarrow> [dictionary_report (fst l) v])
                 (classifyUnsafeDictionary fuel l e)))"

definition checkIndexSignature :: "nat \<Rightarrow> type_environment option \<Rightarrow> loc \<Rightarrow> report list option" where
  "checkIndexSignature fuel env l =
     (case (env, fst l) of
        (Some e, TSIndexSignature i ps (Some (TSTypeAnnotation j t))) \<Rightarrow>
          if parent_type l = ''TSTypeLiteral'' then Some []
          else map_option (\<lambda>found. case found of None \<Rightarrow> [] | Some v \<Rightarrow> [dictionary_report (fst l) v])
                 (classifyUnsafeDictionaryValue fuel (t, TSTypeAnnotation j t # fst l # snd l) e)
      | _ \<Rightarrow> Some [])"

record dictionary_state =
  dictionary_environment :: "type_environment option"
  dictionary_cache :: environment_cache

definition enterProgram :: "source_code \<Rightarrow> node \<Rightarrow> dictionary_state \<Rightarrow> dictionary_state" where
  "enterProgram sc program st =
     (case createTypeEnvironment (dictionary_cache st) program (visitorKeys sc) of
        (env, cache) \<Rightarrow> \<lparr>dictionary_environment = Some env, dictionary_cache = cache\<rparr>)"

definition noUnsafeDictionaryType ::
  "nat \<Rightarrow> dictionary_state \<Rightarrow> loc \<Rightarrow> (dictionary_state \<times> report list) option" where
  "noUnsafeDictionaryType fuel st l =
     (if node_type (fst l) \<in> {''TSTypeReference'', ''TSTypeLiteral'', ''TSMappedType''}
      then map_option (Pair st) (reportIfUnsafe fuel (dictionary_environment st) l)
      else if node_type (fst l) = ''TSIndexSignature''
      then map_option (Pair st) (checkIndexSignature fuel (dictionary_environment st) l)
      else Some (st, []))"

section \<open>Fuel\<close>

lemma first_unsafe_mono:
  "first_unsafe_value env n vs = Some y \<Longrightarrow> n \<le> m \<Longrightarrow> first_unsafe_value env m vs = Some y"
proof (induction vs)
  case (Cons v vs)
  obtain t substs where v: "v = (t, substs)" by (cases v)
  with Cons obtain w where w: "unsafeDirectValue env n (t, substs, {}) = Some w"
    by (cases "unsafeDirectValue env n (t, substs, {})") simp_all
  with Cons.prems(2) have "unsafeDirectValue env m (t, substs, {}) = Some w"
    using unsafe_value.run_mono by blast
  with Cons v w show ?case by (cases w; cases y) auto
qed simp

lemma classify_mono:
  "classifyUnsafeDictionary n l env = Some y \<Longrightarrow> n \<le> m \<Longrightarrow> classifyUnsafeDictionary m l env = Some y"
  by (auto simp: classifyUnsafeDictionary_def bind_eq_Some_conv intro: first_unsafe_mono dictionary_values.run_mono)

lemma classify_agree:
  "classifyUnsafeDictionary n l env = Some y \<Longrightarrow> classifyUnsafeDictionary m l env = Some z \<Longrightarrow> y = z"
  using classify_mono[of n l env y "max n m"] classify_mono[of m l env z "max n m"] by simp

section \<open>Only the outermost dictionary is reported\<close>

lemma unsafe_ancestor_blocks:
  "no_unsafe_ancestor env n (below @ p # ps) = Some True \<Longrightarrow> list_all (\<lambda>q. node_type q \<noteq> ''Program'') below \<Longrightarrow>
     isTypeNode p \<Longrightarrow> node_type p \<noteq> ''Program'' \<Longrightarrow> classifyUnsafeDictionary n (p, ps) env = Some None"
proof (induction below)
  case Nil
  then show ?case by (auto split: option.splits)
next
  case (Cons q qs)
  then show ?case by (auto split: if_splits option.splits)
qed

lemma reported_unsafe:
  "reportIfUnsafe n (Some env) l = Some (r # rs) \<Longrightarrow>
     (\<exists>v. classifyUnsafeDictionary n l env = Some (Some v)) \<and> no_unsafe_ancestor env n (snd l) = Some True"
  by (auto simp: reportIfUnsafe_def shouldReportType_def split: option.splits bool.splits if_splits)

definition inside :: "loc \<Rightarrow> loc \<Rightarrow> bool" where
  "inside m l \<longleftrightarrow> (\<exists>below. snd m = below @ fst l # snd l \<and> list_all (\<lambda>q. node_type q \<noteq> ''Program'') below)"

lemma nested_not_reported:
  assumes "reportIfUnsafe n (Some env) l = Some (r # rs)" and "reportIfUnsafe k (Some env) m = Some (r' # rs')"
    and "inside m l" and "isTypeNode (fst l)"
  shows False
proof -
  obtain below where below: "snd m = below @ fst l # snd l" "list_all (\<lambda>q. node_type q \<noteq> ''Program'') below"
    using assms(3) by (auto simp: inside_def)
  have "node_type (fst l) \<noteq> ''Program''" using assms(4) by (auto simp: isTypeNode_def typeNodeKinds_def)
  with below assms(4) reported_unsafe[OF assms(2)] unsafe_ancestor_blocks[of env k below "fst l" "snd l"]
  have "classifyUnsafeDictionary k l env = Some None" by simp
  with reported_unsafe[OF assms(1)] show False by (auto dest: classify_agree)
qed

section \<open>Termination without generic aliases\<close>

lemma first_unsafe_enough:
  "(\<And>t s. (t, s) \<in> set vs \<Longrightarrow> enough (\<lambda>n. unsafeDirectValue env n (t, s, {}) \<noteq> None)) \<Longrightarrow>
     enough (\<lambda>n. first_unsafe_value env n vs \<noteq> None)"
proof -
  assume "\<And>t s. (t, s) \<in> set vs \<Longrightarrow> enough (\<lambda>n. unsafeDirectValue env n (t, s, {}) \<noteq> None)"
  then have "enough (\<lambda>n. \<forall>v \<in> set vs. unsafeDirectValue env n (fst v, snd v, {}) \<noteq> None)"
    by (intro enough_list) auto
  moreover have "first_unsafe_value env n vs \<noteq> None"
    if "\<forall>v \<in> set vs. unsafeDirectValue env n (fst v, snd v, {}) \<noteq> None" for n
    using that by (induction vs) (auto split: option.split)
  ultimately show ?thesis by (rule enough_mp)
qed

text \<open>The values found without generic aliases carry no substitution.\<close>

lemma dictionary_values_unsubstituted:
  assumes plain: "plain_aliases (typeAliases env)"
  shows "dictionaryValueTypes env n (l, [], R) = Some vs \<Longrightarrow> (t, s) \<in> set vs \<Longrightarrow> s = []"
proof (induction n arbitrary: l R vs)
  case (Suc n)
  have "dictionary_reference env (dictionaryValueTypes env n) (u, [], R) name = Some vs \<Longrightarrow> s = []" for u name
    using Suc.IH Suc.prems(2) no_parameters_substitution[OF visible_alias_plain[OF plain]]
    by (auto simp: dictionary_reference_def split: option.splits if_splits)
  with Suc.prems show ?case
    by (auto simp: dictionary_step_def Let_def split: type_shape.splits option.splits)
qed simp

lemma classify_plain:
  assumes plain: "plain_aliases (typeAliases env)"
  shows "enough (\<lambda>n. classifyUnsafeDictionary n l env \<noteq> None)"
proof -
  obtain N vs where vs: "dictionaryValueTypes env N (l, [], {}) = Some vs"
    using dictionary_values_plain[OF plain, of l "{}"] by (force simp: enough_def)
  have "enough (\<lambda>n. first_unsafe_value env n vs \<noteq> None)"
  proof (rule first_unsafe_enough)
    fix t s assume "(t, s) \<in> set vs"
    then have "s = []" by (rule dictionary_values_unsubstituted[OF plain vs])
    then show "enough (\<lambda>n. unsafeDirectValue env n (t, s, {}) \<noteq> None)"
      using unsafe_value_plain[OF plain, of t "{}"] by simp
  qed
  moreover have "enough (\<lambda>n. dictionaryValueTypes env n (l, [], {}) = Some vs)"
    using dictionary_values.run_mono[OF vs] by (intro enoughI[of _ N]) simp
  ultimately have "enough (\<lambda>n. first_unsafe_value env n vs \<noteq> None \<and> dictionaryValueTypes env n (l, [], {}) = Some vs)"
    by (rule enough_conj)
  then show ?thesis by (rule enough_mp) (simp add: classifyUnsafeDictionary_def)
qed

text \<open>The type nodes around a node, with their locations.\<close>

fun enclosing :: "node list \<Rightarrow> loc list" where
  "enclosing [] = []"
| "enclosing (p # ps) = (p, ps) # enclosing ps"

lemma ancestors_answered:
  "(\<And>l. l \<in> set (enclosing ps) \<Longrightarrow> classifyUnsafeDictionary n l env \<noteq> None) \<Longrightarrow> no_unsafe_ancestor env n ps \<noteq> None"
proof (induction ps)
  case (Cons p ps)
  then have "no_unsafe_ancestor env n ps \<noteq> None" "classifyUnsafeDictionary n (p, ps) env \<noteq> None" by auto
  then show ?case by (auto split: option.split)
qed simp

fun signature_value :: "loc \<Rightarrow> loc list" where
  "signature_value (n, anc) =
     (case n of
        TSIndexSignature i ps (Some (TSTypeAnnotation j t)) \<Rightarrow> [(t, TSTypeAnnotation j t # n # anc)]
      | _ \<Rightarrow> [])"

lemma reportIfUnsafe_answered:
  "(\<And>m. m \<in> set (l # enclosing (snd l)) \<Longrightarrow> classifyUnsafeDictionary n m env \<noteq> None) \<Longrightarrow>
     reportIfUnsafe n (Some env) l \<noteq> None"
proof -
  assume answers: "\<And>m. m \<in> set (l # enclosing (snd l)) \<Longrightarrow> classifyUnsafeDictionary n m env \<noteq> None"
  then obtain found where "classifyUnsafeDictionary n l env = Some found" by fastforce
  moreover have "no_unsafe_ancestor env n (snd l) \<noteq> None" using answers by (intro ancestors_answered) simp
  ultimately show ?thesis
    by (auto simp: reportIfUnsafe_def shouldReportType_def split: option.split bool.split)
qed

lemma signature_answered:
  "(\<And>t. t \<in> set (signature_value l) \<Longrightarrow> unsafeDirectValue env n (t, [], {}) \<noteq> None) \<Longrightarrow>
     checkIndexSignature n (Some env) l \<noteq> None"
proof (cases "\<exists>i ps j t. fst l = TSIndexSignature i ps (Some (TSTypeAnnotation j t))")
  case True
  then obtain i ps j t where "fst l = TSIndexSignature i ps (Some (TSTypeAnnotation j t))" by blast
  moreover assume "\<And>t. t \<in> set (signature_value l) \<Longrightarrow> unsafeDirectValue env n (t, [], {}) \<noteq> None"
  ultimately show ?thesis
    by (cases l) (auto simp: checkIndexSignature_def classifyUnsafeDictionaryValue_def)
next
  case False
  then show ?thesis
    by (auto simp: checkIndexSignature_def split: node.split form.split annex_form.split option.split)
qed

lemma handler_plain:
  assumes env: "dictionary_environment st = Some env" and plain: "plain_aliases (typeAliases env)"
  shows "enough (\<lambda>n. \<exists>rs. noUnsafeDictionaryType n st l = Some (st, rs))"
proof -
  have "enough (\<lambda>n. \<forall>m \<in> set (l # enclosing (snd l)). classifyUnsafeDictionary n m env \<noteq> None)"
    by (intro enough_list classify_plain plain)
  moreover have "enough (\<lambda>n. \<forall>t \<in> set (signature_value l). unsafeDirectValue env n (t, [], {}) \<noteq> None)"
    by (intro enough_list unsafe_value_plain plain)
  ultimately have "enough (\<lambda>n. (\<forall>m \<in> set (l # enclosing (snd l)). classifyUnsafeDictionary n m env \<noteq> None) \<and>
        (\<forall>t \<in> set (signature_value l). unsafeDirectValue env n (t, [], {}) \<noteq> None))"
    by (rule enough_conj)
  then show ?thesis
  proof (rule enough_mp)
      fix n
      assume answers: "(\<forall>m \<in> set (l # enclosing (snd l)). classifyUnsafeDictionary n m env \<noteq> None) \<and>
        (\<forall>t \<in> set (signature_value l). unsafeDirectValue env n (t, [], {}) \<noteq> None)"
      then obtain rs where rs: "reportIfUnsafe n (Some env) l = Some rs"
        using reportIfUnsafe_answered[of l n env] by blast
      obtain rs' where rs': "checkIndexSignature n (Some env) l = Some rs'"
        using signature_answered[of l env n] answers by blast
      show "\<exists>rs. noUnsafeDictionaryType n st l = Some (st, rs)"
        by (simp add: noUnsafeDictionaryType_def env rs rs')
  qed
qed

lemma run_rule_plain:
  assumes "dictionary_environment st = Some env" and "plain_aliases (typeAliases env)"
  shows "enough (\<lambda>n. run_rule (noUnsafeDictionaryType n) st ls \<noteq> None)"
proof -
  have "enough (\<lambda>n. \<forall>l \<in> set ls. \<exists>rs. noUnsafeDictionaryType n st l = Some (st, rs))"
    by (intro enough_list handler_plain[OF assms])
  moreover have "run_rule (noUnsafeDictionaryType n) st ls \<noteq> None"
    if "\<forall>l \<in> set ls. \<exists>rs. noUnsafeDictionaryType n st l = Some (st, rs)" for n
    using that by (induction ls) auto
  ultimately show ?thesis by (rule enough_mp)
qed

lemma lint_plain:
  "plain_aliases (environmentOf program (visitorKeys sc)) \<Longrightarrow>
     enough (\<lambda>n. lint (enterProgram sc) (noUnsafeDictionaryType n)
       \<lparr>dictionary_environment = None, dictionary_cache = []\<rparr> program \<noteq> None)"
  using run_rule_plain[of "enterProgram sc program \<lparr>dictionary_environment = None, dictionary_cache = []\<rparr>"]
  by (simp add: lint_def enterProgram_def createTypeEnvironment_def createTypeAliasEnvironment_def Let_def)

section \<open>Properties\<close>

text \<open>
  C16: nested unsafe dictionaries are reported once: no type inside a reported type, with no program
  node between them, is reported, whatever the fuel of the two runs.
\<close>
theorem only_outermost_reported:
  "\<not> (isTypeNode (fst l) \<and> inside m l \<and> (\<exists>r rs. reportIfUnsafe n (Some env) l = Some (r # rs)) \<and>
      (\<exists>r rs. reportIfUnsafe k (Some env) m = Some (r # rs)))"
  using nested_not_reported by blast

end
