(* ===== verification/Dictionary_Examples.thy ===== *)
theory Dictionary_Examples
  imports Dictionary_Rule
begin

text \<open>
  Two programs. The first has no generic alias, and the rule ends on it. The second is
  \<^verbatim>\<open>type Box<T> = Record<string, T>; type Foo<T> = Box<T | string>;\<close>: classifying the body of its
  second alias binds T to a union that contains T, and the code recurses for ever.
\<close>

section \<open>Programs\<close>

definition node_at :: "nat \<Rightarrow> node_info" where
  "node_at n = \<lparr>nid = n, start = 10 * n, stop = 10 * n + 5, start_line = n, end_line = n\<rparr>"

definition example_keys :: visitor_keys where
  "example_keys = map_of
     [(''Program'', [''body'']), (''TSTypeAliasDeclaration'', [''id'', ''typeParameters'', ''typeAnnotation'']),
      (''TSTypeParameterDeclaration'', [''params'']), (''TSTypeParameter'', [''name'', ''constraint'', ''default'']),
      (''TSTypeReference'', [''typeName'', ''typeArguments'']), (''TSTypeParameterInstantiation'', [''params'']),
      (''TSUnionType'', [''types''])]"

definition name_ref :: "nat \<Rightarrow> string \<Rightarrow> node" where
  "name_ref n x = TSTypeReference (node_at n) (Identifier (node_at (n + 1)) x None) None"

definition type_parameters :: "nat \<Rightarrow> string \<Rightarrow> node" where
  "type_parameters n x = TSTypeParameterDeclaration (node_at n)
     [TSTypeParameter (node_at (n + 1)) (Identifier (node_at (n + 2)) x None) None None]"

definition string_type :: "nat \<Rightarrow> node" where
  "string_type n = TSKeyword (node_at n) TSStringKeyword"

definition box_alias :: node where
  "box_alias = TSTypeAliasDeclaration (node_at 1) (Identifier (node_at 2) ''Box'' None)
     (Some (type_parameters 3 ''T''))
     (TSTypeReference (node_at 6) (Identifier (node_at 7) ''Record'' None)
        (Some (TSTypeParameterInstantiation (node_at 8) [string_type 9, name_ref 10 ''T''])))"

definition box_argument :: node where
  "box_argument = TSUnionType (node_at 20) [name_ref 21 ''T'', string_type 23]"

definition box_use :: node where
  "box_use = TSTypeReference (node_at 24) (Identifier (node_at 25) ''Box'' None)
     (Some (TSTypeParameterInstantiation (node_at 26) [box_argument]))"

definition foo_alias :: node where
  "foo_alias = TSTypeAliasDeclaration (node_at 30) (Identifier (node_at 31) ''Foo'' None)
     (Some (type_parameters 32 ''T'')) box_use"

definition generic_program :: node where
  "generic_program = Program (node_at 40) [box_alias, foo_alias]"

definition generic_environment :: type_environment where
  "generic_environment = fst (createTypeEnvironment [] generic_program example_keys)"

definition box_use_loc :: loc where
  "box_use_loc = (box_use, [foo_alias, generic_program])"

definition plain_program :: node where
  "plain_program = Program (node_at 40)
     [TSTypeAliasDeclaration (node_at 1) (Identifier (node_at 2) ''Dict'' None) None
        (TSTypeReference (node_at 6) (Identifier (node_at 7) ''Record'' None)
          (Some (TSTypeParameterInstantiation (node_at 8) [string_type 9, TSKeyword (node_at 10) TSUnknownKeyword])))]"

definition empty_source :: source_code where
  "empty_source = \<lparr>variables = [], getScope = (\<lambda>_. Scope [] [] None), isGlobalReference = (\<lambda>_. False),
     getDeclaredVariables = (\<lambda>_. []), scopes = [], visitorKeys = example_keys, source_text = [],
     getCommentsBefore = (\<lambda>_. [])\<rparr>"

section \<open>Divergence\<close>

text \<open>
  A name substituted by a union whose first member is the name again has no value: the union asks
  for the member, and the member for the union, under the same substitutions.
\<close>

definition self_union :: "argument_map \<Rightarrow> string \<Rightarrow> loc \<Rightarrow> bool" where
  "self_union substs x s \<longleftrightarrow>
     get substs x = Some s \<and> x \<notin> set TRANSPARENT_WRAPPERS \<and>
     shape_of (fst (unwrapTransparentType s)) = UnionShape \<and>
     (case union_members (unwrapTransparentType s) of
        [] \<Rightarrow> False | m # ms \<Rightarrow> typeReferenceName (fst (unwrapTransparentType m)) = Some x)"

lemma union_not_reference: "shape_of n = UnionShape \<Longrightarrow> typeReferenceName n = None"
  by (cases n rule: shape_of.cases) auto

lemma self_union_diverges:
  assumes self: "self_union substs x s" and "typeReferenceName (fst (unwrapTransparentType l)) = Some x"
  shows "unsafeDirectValue env n (l, substs, R) = None"
proof (rule unsafe_value.run_diverges[where
      S = "insert (s, substs, R) {(l, substs, R) | l. typeReferenceName (fst (unwrapTransparentType l)) = Some x}"])
  show "(l, substs, R) \<in> insert (s, substs, R) {(l, substs, R) | l. typeReferenceName (fst (unwrapTransparentType l)) = Some x}"
    using assms(2) by blast
next
  fix c and f :: "classified \<Rightarrow> unsafe_value option option"
  let ?S = "insert (s, substs, R) {(l, substs, R) | l. typeReferenceName (fst (unwrapTransparentType l)) = Some x}"
  assume "c \<in> ?S" and none: "\<And>c. c \<in> ?S \<Longrightarrow> f c = None"
  then consider "c = (s, substs, R)" | l where "c = (l, substs, R)" "typeReferenceName (fst (unwrapTransparentType l)) = Some x"
    by blast
  then show "unsafe_step env f c = None"
  proof cases
    case 1
    from self obtain m ms where "union_members (unwrapTransparentType s) = m # ms"
      "typeReferenceName (fst (unwrapTransparentType m)) = Some x"
      by (auto simp: self_union_def split: list.splits)
    moreover from this have "f (m, substs, R) = None" by (intro none) blast
    ultimately show ?thesis using self by (simp add: 1 unsafe_step_def self_union_def)
  next
    case (2 l)
    have "\<not> isUnappliedReferenceTo s x"
      using self union_not_reference by (simp add: self_union_def isUnappliedReferenceTo_def Let_def)
    with 2 none[of "(s, substs, R)"] self show ?thesis
      by (simp add: unsafe_step_def reference_shape[THEN iffD2] unsafe_reference_def self_union_def isBuiltInOf_def)
  qed
qed

text \<open>The value type of the classified reference: T under T bound to the union of T and string.\<close>

definition box_substitution :: argument_map where
  "box_substitution =
     [(''T'', (box_argument, [TSTypeParameterInstantiation (node_at 26) [box_argument], box_use, foo_alias, generic_program]))]"

definition box_value :: loc where
  "box_value =
     (name_ref 10 ''T'',
      [TSTypeParameterInstantiation (node_at 8) [string_type 9, name_ref 10 ''T''],
       TSTypeReference (node_at 6) (Identifier (node_at 7) ''Record'' None)
         (Some (TSTypeParameterInstantiation (node_at 8) [string_type 9, name_ref 10 ''T''])),
       box_alias, generic_program])"

lemma box_value_types:
  "dictionaryValueTypes generic_environment 2 (box_use_loc, [], {}) = Some [(box_value, box_substitution)]"
  by code_simp

lemma box_self_union: "self_union box_substitution ''T'' (the (get box_substitution ''T''))"
  by code_simp

lemma box_diverges: "classifyUnsafeDictionary n box_use_loc generic_environment = None"
proof (cases "dictionaryValueTypes generic_environment n (box_use_loc, [], {})")
  case (Some vs)
  then have vs: "vs = [(box_value, box_substitution)]"
    using dictionary_values.run_agree[OF _ box_value_types] by blast
  have "typeReferenceName (fst (unwrapTransparentType box_value)) = Some ''T''" by code_simp
  from self_union_diverges[OF box_self_union this] show ?thesis
    by (simp add: classifyUnsafeDictionary_def Some vs)
qed (simp add: classifyUnsafeDictionary_def)

section \<open>Shadowed interfaces\<close>

text \<open>
  The interface table is asked by name before the lexical lookup. Here a module declares the empty
  interface Options, and a function body declares an alias Options of its own; a dictionary of the
  inner Options is classified by the outer interface.
\<close>

definition options_interface :: node where
  "options_interface = TSInterfaceDeclaration (node_at 1) (Identifier (node_at 2) ''Options'' None) None []
     (TSInterfaceBody (node_at 3) [])"

definition options_alias :: node where
  "options_alias = TSTypeAliasDeclaration (node_at 10) (Identifier (node_at 11) ''Options'' None) None (string_type 12)"

definition options_use :: node where
  "options_use = TSTypeReference (node_at 20) (Identifier (node_at 21) ''Record'' None)
     (Some (TSTypeParameterInstantiation (node_at 22) [string_type 23, name_ref 24 ''Options'']))"

definition inner_alias :: node where
  "inner_alias = TSTypeAliasDeclaration (node_at 26) (Identifier (node_at 27) ''Table'' None) None options_use"

definition inner_block :: node where
  "inner_block = BlockStatement (node_at 30) [options_alias, inner_alias]"

definition shadowing_program :: node where
  "shadowing_program = Program (node_at 40) [options_interface, inner_block]"

definition block_keys :: visitor_keys where
  "block_keys x = (if x = ''BlockStatement'' then Some [''body'']
     else if x = ''TSInterfaceDeclaration'' then Some [''id'', ''typeParameters'', ''extends'', ''body''] else example_keys x)"

definition shadowing_environment :: type_environment where
  "shadowing_environment = fst (createTypeEnvironment [] shadowing_program block_keys)"

definition options_ref :: loc where
  "options_ref = (name_ref 24 ''Options'',
     [TSTypeParameterInstantiation (node_at 22) [string_type 23, name_ref 24 ''Options''], options_use, inner_alias,
      inner_block, shadowing_program])"

definition options_use_loc :: loc where
  "options_use_loc = (options_use, [inner_alias, inner_block, shadowing_program])"

section \<open>Properties\<close>

text \<open>
  C5: with aliases that take no type parameters, a whole run of the dictionary rule ends.
\<close>
theorem noUnsafeDictionaryType_terminates:
  "plain_aliases (environmentOf program (visitorKeys sc)) \<Longrightarrow>
     enough (\<lambda>n. lint (enterProgram sc) (noUnsafeDictionaryType n)
       \<lparr>dictionary_environment = None, dictionary_cache = []\<rparr> program \<noteq> None)"
  by (rule lint_plain)

theorem noUnsafeDictionaryType_terminates_witness:
  "enough (\<lambda>n. lint (enterProgram empty_source) (noUnsafeDictionaryType n)
     \<lparr>dictionary_environment = None, dictionary_cache = []\<rparr> plain_program \<noteq> None)"
proof (rule noUnsafeDictionaryType_terminates)
  show "plain_aliases (environmentOf plain_program (visitorKeys empty_source))" by code_simp
qed

text \<open>
  C23: on \<^verbatim>\<open>type Box<T> = Record<string, T>; type Foo<T> = Box<T | string>;\<close> the classification of
  the body of Foo never returns: no amount of fuel is enough.
\<close>
theorem classifyUnsafeDictionary_diverges:
  "classifyUnsafeDictionary n box_use_loc generic_environment = None"
  by (rule box_diverges)


end
