(* ===== verification/Name_Search.thy ===== *)
theory Name_Search
  imports Fuelled
begin

text \<open>
  Searches through names that mark the names on the path. Several classifiers follow a name to the
  body of its declaration and refuse to follow a name twice on one path. This theory proves once
  what the marks are for: where a name has one body, they end the search and change no result. The
  search finds what the search without marks would find, and nothing that has no finite derivation.
\<close>

section \<open>Marked searches\<close>

locale name_search =
  fixes follow :: "'l \<Rightarrow> (string \<times> 'l) option"
    and combine :: "'l \<Rightarrow> ('l \<Rightarrow> 'v option) \<Rightarrow> 'v option"
    and parts :: "'l \<Rightarrow> 'l list"
    and weight :: "'l \<Rightarrow> nat"
    and names :: "string set"
    and search :: "string set \<Rightarrow> 'l \<Rightarrow> 'v option"
  assumes search_step: "search R l = (case follow l of
        None \<Rightarrow> combine l (search R)
      | Some (x, b) \<Rightarrow> if x \<in> R then None else search (insert x R) b)"
    and finite_names: "finite names"
    and follow_name: "follow l = Some (x, b) \<Longrightarrow> x \<in> names"
    and one_body: "follow l = Some (x, b) \<Longrightarrow> follow m = Some (x, c) \<Longrightarrow> b = c"
    and parts_smaller: "m \<in> set (parts l) \<Longrightarrow> weight m < weight l"
    and combine_mono: "(\<And>m w. m \<in> set (parts l) \<Longrightarrow> g m = Some w \<Longrightarrow> h m = Some w) \<Longrightarrow>
        combine l g = Some v \<Longrightarrow> combine l h = Some v"
begin

text \<open>A search either follows an unmarked name or combines the results of the parts.\<close>

lemma search_induct [case_names followed combined]:
  assumes "\<And>R l x b. follow l = Some (x, b) \<Longrightarrow> x \<notin> R \<Longrightarrow> P (insert x R) b \<Longrightarrow> P R l"
    and "\<And>R l. follow l = None \<or> (\<exists>x b. follow l = Some (x, b) \<and> x \<in> R) \<Longrightarrow>
      (\<And>m. m \<in> set (parts l) \<Longrightarrow> P R m) \<Longrightarrow> P R l"
  shows "P R l"
proof -
  have "P (fst c) (snd c)" for c
  proof (induction c rule: wf_induct_rule[OF wf_measures[of "[\<lambda>c. card (names - fst c), \<lambda>c. weight (snd c)]"]])
    case (1 c)
    obtain R l where c: "c = (R, l)" by (cases c)
    have "P R l"
    proof (cases "\<exists>x b. follow l = Some (x, b) \<and> x \<notin> R")
      case True
      then obtain x b where x: "follow l = Some (x, b)" "x \<notin> R" by blast
      then have "card (names - insert x R) < card (names - R)"
        by (intro card_unvisited_less finite_names follow_name)
      with 1[of "(insert x R, b)"] have "P (insert x R) b" by (simp add: c)
      then show ?thesis by (rule assms(1)[OF x])
    next
      case False
      show ?thesis
      proof (rule assms(2))
        show "follow l = None \<or> (\<exists>x b. follow l = Some (x, b) \<and> x \<in> R)"
          using False by (cases "follow l") auto
        show "P R m" if "m \<in> set (parts l)" for m
          using 1[of "(R, m)"] parts_smaller[OF that] by (simp add: c)
      qed
    qed
    then show ?case by (simp add: c)
  qed
  from this[of "(R, l)"] show ?thesis by simp
qed

lemma search_followed: "follow l = Some (x, b) \<Longrightarrow> search R l = (if x \<in> R then None else search (insert x R) b)"
  by (simp add: search_step)

lemma search_found: "search R l = Some v \<Longrightarrow> follow l = Some (x, b) \<Longrightarrow> x \<notin> R \<and> search (insert x R) b = Some v"
  by (cases "x \<in> R") (simp_all add: search_followed)

lemma search_marked:
  "search R l = Some v \<Longrightarrow> follow l = None \<or> (\<exists>x b. follow l = Some (x, b) \<and> x \<in> R) \<Longrightarrow> follow l = None"
  by (blast dest: search_found)

lemma search_combined: "follow l = None \<Longrightarrow> search R l = combine l (search R)"
  by (simp add: search_step)

text \<open>Fewer marks find no less, and the same.\<close>

lemma search_weaken: "search R' l = Some v \<Longrightarrow> R \<subseteq> R' \<Longrightarrow> search R l = Some v"
proof (induction R' l arbitrary: R v rule: search_induct)
  case (followed R' l x b)
  from search_found[OF followed.prems(1) followed.hyps(1)] have "search (insert x R) b = Some v"
    using followed.IH[of v "insert x R"] followed.prems(2) insert_mono by blast
  moreover have "x \<notin> R" using followed.hyps(2) followed.prems(2) by blast
  ultimately show ?case using search_followed[OF followed.hyps(1), of R] by simp
next
  case (combined R' l)
  have none: "follow l = None" by (rule search_marked[OF combined.prems(1) combined.hyps])
  have "combine l (search R') = Some v" using combined.prems(1) search_combined[OF none, of R'] by simp
  then have "combine l (search R) = Some v" by (rule combine_mono[rotated]) (rule combined.IH[OF _ _ combined.prems(2)])
  then show ?case using search_combined[OF none, of R] by simp
qed

text \<open>One more mark loses a result only if the marked name's own body has one under the mark.\<close>

lemma search_strengthen:
  assumes body: "follow k = Some (x, b)" and "search R l = Some v" and none: "search (insert x R) b = None"
  shows "search (insert x R) l = Some v"
  using assms(2,3)
proof (induction R l arbitrary: v rule: search_induct)
  case (followed R l y c)
  note search_l = search_followed[OF followed.hyps(1)]
  have v: "search (insert y R) c = Some v" using followed.prems(1) followed.hyps(2) by (simp add: search_l)
  have "y \<noteq> x" using followed.prems(2) v one_body[OF body, of l c] followed.hyps(1) by auto
  moreover have "search (insert x (insert y R)) b = None"
    using search_weaken[of "insert x (insert y R)" b _ "insert x R"] followed.prems(2)
    by (cases "search (insert x (insert y R)) b") auto
  then have "search (insert x (insert y R)) c = Some v" using followed.IH v by blast
  ultimately show ?case using followed.hyps(2) by (simp add: search_l insert_commute)
next
  case (combined R l)
  have none: "follow l = None" by (rule search_marked[OF combined.prems(1) combined.hyps])
  have "combine l (search R) = Some v" using combined.prems(1) search_combined[OF none, of R] by simp
  then have "combine l (search (insert x R)) = Some v"
    by (rule combine_mono[rotated]) (rule combined.IH[OF _ _ combined.prems(2)])
  then show ?case using search_combined[OF none, of "insert x R"] by simp
qed

text \<open>The marks do not matter: the search solves the equation without them.\<close>

theorem unmarked:
  "search {} l = (case follow l of None \<Rightarrow> combine l (search {}) | Some (x, b) \<Rightarrow> search {} b)"
proof (cases "follow l")
  case (Some xb)
  then obtain x b where xb: "follow l = Some (x, b)" by (cases xb) simp
  have "search {x} b = search {} b"
  proof (cases "search {x} b")
    case None
    with search_strengthen[OF xb, of "{}" b] show ?thesis by (cases "search {} b") auto
  next
    case Some
    then show ?thesis using search_weaken[of "{x}" b _ "{}"] by simp
  qed
  with xb show ?thesis by (simp add: search_followed)
qed (simp add: search_combined)

text \<open>And it is the least solution: what it finds holds in every closed relation.\<close>

theorem derived:
  assumes "\<And>l x b v. follow l = Some (x, b) \<Longrightarrow> Q b v \<Longrightarrow> Q l v"
    and "\<And>l h v. follow l = None \<Longrightarrow> combine l h = Some v \<Longrightarrow> (\<And>m w. m \<in> set (parts l) \<Longrightarrow> h m = Some w \<Longrightarrow> Q m w) \<Longrightarrow> Q l v"
  shows "search R l = Some v \<Longrightarrow> Q l v"
proof (induction R l arbitrary: v rule: search_induct)
  case (followed R l x b)
  have "search (insert x R) b = Some v" using search_found[OF followed.prems followed.hyps(1)] by blast
  then show ?case by (intro assms(1)[OF followed.hyps(1)] followed.IH)
next
  case (combined R l)
  have none: "follow l = None" by (rule search_marked[OF combined.prems combined.hyps])
  then have "combine l (search R) = Some v" using combined.prems search_combined[OF none, of R] by simp
  with none show ?case by (rule assms(2)) (rule combined.IH)
qed

end

end
