(* ===== verification/Dictionary_Spec.thy ===== *)
theory Dictionary_Spec
  imports Dictionary_Examples Name_Search
begin

text \<open>
  What \<open>no-unsafe-dictionary-type\<close> promises, stated without fuel, substitutions or marked names, for
  programs whose aliases take no type parameters and whose names are declared as an alias at most
  once: which types stand for an unsafe value, which are dictionaries of which values, and which
  nodes a run reports. The classifiers of \<open>Dictionary_Types\<close> are shown to compute exactly this.
\<close>

section \<open>Plain environments\<close>

definition one_alias_per_name :: "environment \<Rightarrow> bool" where
  "one_alias_per_name env =
     list_all (\<lambda>(x, bs). length (List.map_filter binding_alias bs) \<le> 1) (bindingsByName env)"

text \<open>The environments of such programs, as a type.\<close>

typedef plain_environment =
  "{env :: type_environment. plain_aliases (typeAliases env) \<and> one_alias_per_name (typeAliases env)}"
  morphisms environment_in Plain
proof
  show "\<lparr>interfaces = [], typeAliases = \<lparr>aliases = [], bindingsByName = [], environmentKeys = Map.empty\<rparr>\<rparr> \<in>
    {env. plain_aliases (typeAliases env) \<and> one_alias_per_name (typeAliases env)}"
    by (simp add: plain_aliases_def one_alias_per_name_def)
qed

abbreviation aliases_in :: "plain_environment \<Rightarrow> environment" where
  "aliases_in e \<equiv> typeAliases (environment_in e)"

lemma plain_in: "plain_aliases (aliases_in e)"
  using environment_in[of e] by simp

lemma single_alias:
  "one_alias_per_name env \<Longrightarrow> visibleTypeAlias x u env = Some a \<Longrightarrow> visibleTypeAlias x v env = Some b \<Longrightarrow> a = b"
proof -
  assume one: "one_alias_per_name env" and "visibleTypeAlias x u env = Some a" "visibleTypeAlias x v env = Some b"
  then obtain bs where "get (bindingsByName env) x = Some bs"
      "\<exists>c \<in> set bs. binding_alias c = Some a" "\<exists>c \<in> set bs. binding_alias c = Some b"
    using visible_alias_entry[of x u env a] visible_alias_entry[of x v env b] by fastforce
  then have "get (bindingsByName env) x = Some bs" "a \<in> set (List.map_filter binding_alias bs)"
      "b \<in> set (List.map_filter binding_alias bs)"
    by (force simp: List.map_filter_def)+
  moreover from this(1) one have "length (List.map_filter binding_alias bs) \<le> 1"
    by (fastforce simp: one_alias_per_name_def list_all_iff dest!: map_of_SomeD)
  ultimately show "a = b" by (cases "List.map_filter binding_alias bs") auto
qed

lemma single_alias_in:
  "visibleTypeAlias x u (aliases_in e) = Some a \<Longrightarrow> visibleTypeAlias x v (aliases_in e) = Some b \<Longrightarrow> a = b"
  using environment_in[of e] single_alias by blast

lemma no_substitution_in:
  "visibleTypeAlias x u (aliases_in e) = Some a \<Longrightarrow> aliasSubstitution a l base = Some base"
  by (rule no_parameters_substitution) (rule visible_alias_plain[OF plain_in])

section \<open>The unsafe value a type stands for\<close>

text \<open>The alias that a type is read through, unless a top-level interface has its name.\<close>

definition named_alias :: "type_environment \<Rightarrow> loc \<Rightarrow> string \<Rightarrow> loc option" where
  "named_alias env u x =
     (if get (interfaces env) x \<noteq> None then None else visibleTypeAlias x u (typeAliases env))"

lemma built_in_no_alias [simp]: "isBuiltInOf names x u env \<Longrightarrow> visibleTypeAlias x u (typeAliases env) = None"
  by (cases "visibleTypeAlias x u (typeAliases env)") (auto simp: isBuiltInOf_def isBuiltIn_def dest: visible_alias_binding)

inductive unsafe_as :: "type_environment \<Rightarrow> loc \<Rightarrow> unsafe_value \<Rightarrow> bool" for env where
  unsafe_unknown: "shape_of (fst (unwrapTransparentType l)) = KeywordShape TSUnknownKeyword \<Longrightarrow>
    unsafe_as env l UnknownValue"
| unsafe_any: "shape_of (fst (unwrapTransparentType l)) = KeywordShape TSAnyKeyword \<Longrightarrow> unsafe_as env l AnyValue"
| unsafe_object: "shape_of (fst (unwrapTransparentType l)) = KeywordShape TSObjectKeyword \<Longrightarrow>
    unsafe_as env l ObjectValue"
| unsafe_literal: "shape_of (fst (unwrapTransparentType l)) = LiteralShape members \<Longrightarrow>
    isEffectivelyEmptyTypeLiteral members \<Longrightarrow> unsafe_as env l EmptyObject"
| unsafe_union: "shape_of (fst (unwrapTransparentType l)) = UnionShape \<Longrightarrow>
    m \<in> set (union_members (unwrapTransparentType l)) \<Longrightarrow> unsafe_as env m v \<Longrightarrow> unsafe_as env l UnionValue"
| unsafe_any_member: "shape_of (fst (unwrapTransparentType l)) = IntersectionShape \<Longrightarrow>
    m \<in> set (intersection_members (unwrapTransparentType l)) \<Longrightarrow> unsafe_as env m AnyValue \<Longrightarrow>
    unsafe_as env l AnyValue"
| unsafe_members: "shape_of (fst (unwrapTransparentType l)) = IntersectionShape \<Longrightarrow>
    intersection_members (unwrapTransparentType l) = m # ms \<Longrightarrow> unsafe_as env m v \<Longrightarrow> v \<noteq> AnyValue \<Longrightarrow>
    (\<forall>k \<in> set ms. \<exists>w. w \<noteq> AnyValue \<and> unsafe_as env k w) \<Longrightarrow> unsafe_as env l v"
| unsafe_wrapper: "shape_of (fst (unwrapTransparentType l)) = ReferenceShape x \<Longrightarrow>
    isBuiltInOf TRANSPARENT_WRAPPERS x (unwrapTransparentType l) env \<Longrightarrow>
    at (type_arguments (unwrapTransparentType l)) 0 = Some m \<Longrightarrow> unsafe_as env m v \<Longrightarrow> unsafe_as env l v"
| unsafe_interface: "shape_of (fst (unwrapTransparentType l)) = ReferenceShape x \<Longrightarrow>
    \<not> isBuiltInOf TRANSPARENT_WRAPPERS x (unwrapTransparentType l) env \<Longrightarrow>
    get (interfaces env) x = Some ds \<Longrightarrow> isEffectivelyEmptyInterface ds \<Longrightarrow> unsafe_as env l EmptyObject"
| unsafe_alias: "shape_of (fst (unwrapTransparentType l)) = ReferenceShape x \<Longrightarrow>
    named_alias env (unwrapTransparentType l) x = Some a \<Longrightarrow> unsafe_as env (alias_annotation a) v \<Longrightarrow>
    unsafe_as env l v"

text \<open>The same as a marked search: the alias followed, and what the step makes of the parts.\<close>

definition followed_alias :: "(loc \<Rightarrow> string \<Rightarrow> loc option) \<Rightarrow> loc \<Rightarrow> (string \<times> loc) option" where
  "followed_alias alias l =
     (case shape_of (fst (unwrapTransparentType l)) of
        ReferenceShape x \<Rightarrow> map_option (\<lambda>a. (x, alias_annotation a)) (alias (unwrapTransparentType l) x)
      | _ \<Rightarrow> None)"

definition type_parts :: "loc \<Rightarrow> loc list" where
  "type_parts l = (let u = unwrapTransparentType l in union_members u @ intersection_members u @ type_arguments u)"

text \<open>A step in which every name is marked only looks at the parts.\<close>

definition unsafe_combine :: "type_environment \<Rightarrow> loc \<Rightarrow> (loc \<Rightarrow> unsafe_value option) \<Rightarrow> unsafe_value option" where
  "unsafe_combine env l h = the (unsafe_step env (\<lambda>(m, substs, R). Some (h m)) (l, [], UNIV))"

definition unsafe_search :: "plain_environment \<Rightarrow> string set \<Rightarrow> loc \<Rightarrow> unsafe_value option" where
  "unsafe_search e R l = settled (unsafeDirectValue (environment_in e)) (l, [], R)"

lemma map_m_total: "map_m (\<lambda>x. Some (g x)) xs = Some (map g xs)"
  by (induction xs) simp_all

lemma unsafe_search_enough:
  "enough (\<lambda>n. unsafeDirectValue (environment_in e) n (l, [], R) = Some (unsafe_search e R l))"
  unfolding unsafe_search_def by (rule unsafe_value.settled_enough) (rule unsafe_value_plain[OF plain_in])

lemma unsafe_search_equation:
  "unsafe_step (environment_in e) (\<lambda>c. Some (settled (unsafeDirectValue (environment_in e)) c)) (l, [], R) =
     Some (unsafe_search e R l)"
  unfolding unsafe_search_def by (rule unsafe_value.settled_step) (rule unsafe_value_plain[OF plain_in])

text \<open>With every alias plain, a step either follows the alias or looks at the parts.\<close>

lemma reference_shape_of: "shape_of n = ReferenceShape x \<Longrightarrow> typeReferenceName n = Some x"
  by (simp add: reference_shape)

lemma unsafe_search_step:
  "unsafe_search e R l =
     (case followed_alias (named_alias (environment_in e)) l of
        None \<Rightarrow> unsafe_combine (environment_in e) l (unsafe_search e R)
      | Some (x, b) \<Rightarrow> if x \<in> R then None else unsafe_search e (insert x R) b)"
proof -
  have "unsafe_step (environment_in e) (\<lambda>c. Some (settled (unsafeDirectValue (environment_in e)) c)) (l, [], R) =
      Some (case followed_alias (named_alias (environment_in e)) l of
        None \<Rightarrow> unsafe_combine (environment_in e) l (unsafe_search e R)
      | Some (x, b) \<Rightarrow> if x \<in> R then None else unsafe_search e (insert x R) b)"
    by (cases "shape_of (fst (unwrapTransparentType l))")
      (simp_all add: unsafe_step_def unsafe_combine_def followed_alias_def unsafe_reference_def named_alias_def Let_def
        some_m_total map_m_total no_substitution_in unsafe_search_def[symmetric] split: option.split)
  with unsafe_search_equation show ?thesis by simp
qed

lemma unsafe_combine_shapes:
  "unsafe_combine env l h = (let u = unwrapTransparentType l in
     case shape_of (fst u) of
       KeywordShape k \<Rightarrow> if k = TSUnknownKeyword then Some UnknownValue
         else if k = TSAnyKeyword then Some AnyValue else if k = TSObjectKeyword then Some ObjectValue else None
     | LiteralShape members \<Rightarrow> if isEffectivelyEmptyTypeLiteral members then Some EmptyObject else None
     | UnionShape \<Rightarrow> if list_ex (\<lambda>m. h m \<noteq> None) (union_members u) then Some UnionValue else None
     | IntersectionShape \<Rightarrow> first_unsafe (map h (intersection_members u))
     | ReferenceShape x \<Rightarrow>
         if isBuiltInOf TRANSPARENT_WRAPPERS x u env then Option.bind (at (type_arguments u) 0) h
         else (case get (interfaces env) x of
                 None \<Rightarrow> None | Some ds \<Rightarrow> if isEffectivelyEmptyInterface ds then Some EmptyObject else None)
     | _ \<Rightarrow> None)"
  by (cases "shape_of (fst (unwrapTransparentType l))")
    (simp_all add: unsafe_combine_def unsafe_step_def unsafe_reference_def Let_def some_m_total map_m_total split: option.split)

lemma first_unsafe_grows:
  "first_unsafe (map g ms) = Some v \<Longrightarrow> (\<And>m w. m \<in> set ms \<Longrightarrow> g m = Some w \<Longrightarrow> h m = Some w) \<Longrightarrow>
     first_unsafe (map h ms) = Some v"
proof (cases "Some AnyValue \<in> set (map g ms)")
  case True
  assume "first_unsafe (map g ms) = Some v" and grows: "\<And>m w. m \<in> set ms \<Longrightarrow> g m = Some w \<Longrightarrow> h m = Some w"
  moreover from True obtain m where "m \<in> set ms" "g m = Some AnyValue" by auto
  with grows have "Some AnyValue \<in> set (map h ms)" by (metis imageI set_map)
  ultimately show ?thesis using True by (simp add: first_unsafe_def)
next
  case False
  assume found: "first_unsafe (map g ms) = Some v" and grows: "\<And>m w. m \<in> set ms \<Longrightarrow> g m = Some w \<Longrightarrow> h m = Some w"
  with False have "\<forall>m \<in> set ms. g m \<noteq> None" by (simp add: first_unsafe_def list_all_iff split: if_splits)
  with grows have "\<forall>m \<in> set ms. h m = g m" by fastforce
  then have "map h ms = map g ms" by simp
  with found show ?thesis by (simp only:)
qed

lemma unsafe_combine_grows:
  assumes "\<And>m w. m \<in> set (type_parts l) \<Longrightarrow> g m = Some w \<Longrightarrow> h m = Some w" and "unsafe_combine env l g = Some v"
  shows "unsafe_combine env l h = Some v"
proof (cases "shape_of (fst (unwrapTransparentType l))")
  case IntersectionShape
  with assms first_unsafe_grows[of g "intersection_members (unwrapTransparentType l)" v h] show ?thesis
    by (simp add: unsafe_combine_shapes type_parts_def Let_def)
next
  case UnionShape
  with assms show ?thesis
    by (fastforce simp: unsafe_combine_shapes type_parts_def Let_def list_ex_iff split: if_splits)
next
  case (ReferenceShape x)
  have "h m = Some w" if "at (type_arguments (unwrapTransparentType l)) 0 = Some m" "g m = Some w" for m w
    using assms(1)[of m w] at_in_set[OF that(1)] that(2) by (simp add: type_parts_def Let_def)
  with ReferenceShape assms(2) show ?thesis
    by (auto simp: unsafe_combine_shapes Let_def bind_eq_Some_conv split: if_splits)
qed (use assms(2) in \<open>simp_all add: unsafe_combine_shapes Let_def\<close>)

lemma named_alias_visible:
  "named_alias env u x = Some a \<Longrightarrow> visibleTypeAlias x u (typeAliases env) = Some a"
  by (simp add: named_alias_def split: if_splits)

lemma followed_alias_Some:
  "followed_alias alias l = Some (x, b) \<Longrightarrow>
     \<exists>a. alias (unwrapTransparentType l) x = Some a \<and> b = alias_annotation a"
  by (auto simp: followed_alias_def split: type_shape.splits)

lemma type_parts_smaller: "m \<in> set (type_parts l) \<Longrightarrow> size (fst m) < size (fst l)"
  using member_smaller[of m "unwrapTransparentType l"] unwrap_type_size[of l]
  by (force simp: type_parts_def Let_def)

lemma finite_bound_names: "finite (bound_names env)"
  by (simp add: bound_names_def)

interpretation unsafe_values: name_search "followed_alias (named_alias (environment_in e))"
    "unsafe_combine (environment_in e)" type_parts "\<lambda>l. size (fst l)" "bound_names (aliases_in e)" "unsafe_search e" for e
proof unfold_locales
  show "b = c" if "followed_alias (named_alias (environment_in e)) l = Some (x, b)"
    and "followed_alias (named_alias (environment_in e)) m = Some (x, c)" for l m x b c
    using that by (auto dest!: followed_alias_Some named_alias_visible dest: single_alias_in)
  show "unsafe_combine (environment_in e) l h = Some v"
    if "\<And>m w. m \<in> set (type_parts l) \<Longrightarrow> g m = Some w \<Longrightarrow> h m = Some w"
      and "unsafe_combine (environment_in e) l g = Some v" for l g h v
    using that by (rule unsafe_combine_grows)
qed (auto simp: finite_bound_names type_parts_smaller intro: unsafe_search_step
    dest!: followed_alias_Some named_alias_visible visible_alias_bound)

lemma first_unsafe_members:
  "first_unsafe (map h ms) = Some v \<longleftrightarrow>
     v = AnyValue \<and> (\<exists>m \<in> set ms. h m = Some AnyValue) \<or>
     v \<noteq> AnyValue \<and> (\<exists>k ks. ms = k # ks \<and> h k = Some v) \<and> (\<forall>m \<in> set ms. h m \<noteq> None \<and> h m \<noteq> Some AnyValue)"
  by (cases ms) (auto 0 3 simp: first_unsafe_def list_all_iff image_iff)

lemma unsafe_search_sound: "unsafe_search e R l = Some v \<Longrightarrow> unsafe_as (environment_in e) l v"
proof (erule unsafe_values.derived[rotated 2])
  show "unsafe_as (environment_in e) l v"
    if "followed_alias (named_alias (environment_in e)) l = Some (x, b)" "unsafe_as (environment_in e) b v" for l x b v
    using that by (auto simp: followed_alias_def intro: unsafe_alias split: type_shape.splits)
next
  fix l v and h :: "loc \<Rightarrow> unsafe_value option"
  assume found: "unsafe_combine (environment_in e) l h = Some v"
    and parts: "\<And>m w. m \<in> set (type_parts l) \<Longrightarrow> h m = Some w \<Longrightarrow> unsafe_as (environment_in e) m w"
  show "unsafe_as (environment_in e) l v"
  proof (cases "shape_of (fst (unwrapTransparentType l))")
    case UnionShape
    with found parts show ?thesis
      by (auto simp: unsafe_combine_shapes type_parts_def Let_def list_ex_iff intro: unsafe_union split: if_splits)
  next
    case IntersectionShape
    let ?ms = "intersection_members (unwrapTransparentType l)"
    have members: "unsafe_as (environment_in e) m w" if "m \<in> set ?ms" "h m = Some w" for m w
      using parts[of m w] that by (simp add: type_parts_def Let_def)
    from found IntersectionShape have "first_unsafe (map h ?ms) = Some v"
      by (simp add: unsafe_combine_shapes Let_def)
    then consider m where "v = AnyValue" "m \<in> set ?ms" "h m = Some AnyValue"
      | m ms where "v \<noteq> AnyValue" "?ms = m # ms" "h m = Some v" "\<forall>k \<in> set ms. \<exists>w. w \<noteq> AnyValue \<and> h k = Some w"
      unfolding first_unsafe_members by fastforce
    then show ?thesis
    proof cases
      case (1 m)
      then have "unsafe_as (environment_in e) m AnyValue" by (intro members)
      with 1 show ?thesis using unsafe_any_member[OF IntersectionShape 1(2)] by simp
    next
      case (2 m ms)
      have "\<exists>w. w \<noteq> AnyValue \<and> unsafe_as (environment_in e) k w" if k: "k \<in> set ms" for k
      proof -
        from 2(4) k obtain w where "w \<noteq> AnyValue" "h k = Some w" by auto
        moreover from this(2) have "unsafe_as (environment_in e) k w" by (rule members[rotated]) (simp add: 2(2) k)
        ultimately show ?thesis by blast
      qed
      moreover have "unsafe_as (environment_in e) m v" by (rule members[rotated], rule 2(3)) (simp add: 2(2))
      ultimately show ?thesis using unsafe_members[OF IntersectionShape 2(2) _ 2(1)] by blast
    qed
  next
    case (ReferenceShape x)
    have "unsafe_as (environment_in e) m w"
      if "at (type_arguments (unwrapTransparentType l)) 0 = Some m" "h m = Some w" for m w
      using parts[of m w] at_in_set[OF that(1)] that(2) by (simp add: type_parts_def Let_def)
    with ReferenceShape found show ?thesis
      by (auto simp: unsafe_combine_shapes Let_def bind_eq_Some_conv
          intro: unsafe_wrapper unsafe_interface split: if_splits option.splits)
  qed (use found in \<open>auto simp: unsafe_combine_shapes Let_def intro: unsafe_as.intros split: if_splits\<close>)
qed

lemma unsafe_search_complete: "unsafe_as (environment_in e) l v \<Longrightarrow> unsafe_search e {} l = Some v"
proof (induction rule: unsafe_as.induct)
  case (unsafe_members l m ms v)
  then show ?case
    by (subst unsafe_values.unmarked)
      (fastforce simp: followed_alias_def unsafe_combine_shapes Let_def first_unsafe_members simp del: list.map)
next
  case (unsafe_alias l x a v)
  then show ?case by (subst unsafe_values.unmarked) (simp add: followed_alias_def)
qed (subst unsafe_values.unmarked,
    auto simp: followed_alias_def unsafe_combine_shapes named_alias_def Let_def list_ex_iff first_unsafe_members)+

text \<open>With enough fuel \<open>unsafeDirectValue\<close> answers the value the type stands for.\<close>

lemma unsafe_search_exact: "unsafe_search e {} l = Some v \<longleftrightarrow> unsafe_as (environment_in e) l v"
  using unsafe_search_sound unsafe_search_complete by blast

section \<open>The value types of a dictionary\<close>

inductive has_value_types :: "type_environment \<Rightarrow> loc \<Rightarrow> loc list \<Rightarrow> bool" for env where
  values_literal: "shape_of (fst (unwrapTransparentType l)) = LiteralShape members \<Longrightarrow>
    has_value_types env l (concat (map (index_value (unwrapTransparentType l)) members))"
| values_mapped: "shape_of (fst (unwrapTransparentType l)) = MappedShape key (Some t) \<Longrightarrow>
    has_value_types env l [child_loc (unwrapTransparentType l) t]"
| values_record: "shape_of (fst (unwrapTransparentType l)) = ReferenceShape x \<Longrightarrow>
    isBuiltInOf [''Record''] x (unwrapTransparentType l) env \<Longrightarrow>
    at (type_arguments (unwrapTransparentType l)) 1 = Some t \<Longrightarrow> has_value_types env l [t]"
| values_wrapped: "shape_of (fst (unwrapTransparentType l)) = ReferenceShape x \<Longrightarrow>
    isBuiltInOf (TRANSPARENT_WRAPPERS @ [''Pick'', ''Omit'']) x (unwrapTransparentType l) env \<Longrightarrow>
    at (type_arguments (unwrapTransparentType l)) 0 = Some m \<Longrightarrow> has_value_types env m ts \<Longrightarrow> has_value_types env l ts"
| values_alias: "shape_of (fst (unwrapTransparentType l)) = ReferenceShape x \<Longrightarrow>
    visibleTypeAlias x (unwrapTransparentType l) (typeAliases env) = Some a \<Longrightarrow>
    has_value_types env (alias_annotation a) ts \<Longrightarrow> has_value_types env l ts"

text \<open>No value types is no result.\<close>

definition some_of :: "'a list \<Rightarrow> 'a list option" where
  "some_of xs = (if xs = [] then None else Some xs)"

lemma some_of_Some [simp]: "some_of xs = Some ys \<longleftrightarrow> xs = ys \<and> ys \<noteq> []"
  by (auto simp: some_of_def)

lemma some_of_nullish [simp]: "some_of (nullish (some_of xs) []) = some_of xs" "nullish (some_of xs) [] = xs"
  by (simp_all add: some_of_def)

lemma some_of_simps [simp]: "some_of [] = None" "some_of (x # xs) = Some (x # xs)"
  by (simp_all add: some_of_def)

lemma some_of_found [simp]: "some_of (nullish x []) = Some ys \<longleftrightarrow> x = Some ys \<and> ys \<noteq> []"
  by (cases x) auto

abbreviation unsubstituted_values :: "loc list \<Rightarrow> (loc \<times> argument_map) list" where
  "unsubstituted_values \<equiv> map (\<lambda>t. (t, []))"

definition dictionary_search :: "plain_environment \<Rightarrow> string set \<Rightarrow> loc \<Rightarrow> loc list option" where
  "dictionary_search e R l = some_of (map fst (settled (dictionaryValueTypes (environment_in e)) (l, [], R)))"

definition dictionary_combine :: "type_environment \<Rightarrow> loc \<Rightarrow> (loc \<Rightarrow> loc list option) \<Rightarrow> loc list option" where
  "dictionary_combine env l h = some_of (map fst (the (dictionary_step env
     (\<lambda>(m, substs, R). Some (unsubstituted_values (nullish (h m) []))) (l, [], UNIV))))"

lemma dictionary_enough:
  "enough (\<lambda>n. dictionaryValueTypes (environment_in e) n (l, [], R) =
     Some (settled (dictionaryValueTypes (environment_in e)) (l, [], R)))"
  by (rule dictionary_values.settled_enough) (rule dictionary_values_plain[OF plain_in])

lemma dictionary_search_enough:
  "enough (\<lambda>n. dictionaryValueTypes (environment_in e) n (l, [], R) =
     Some (unsubstituted_values (nullish (dictionary_search e R l) [])))"
proof (rule enough_mp[OF dictionary_enough])
  fix n assume vs: "dictionaryValueTypes (environment_in e) n (l, [], R) =
    Some (settled (dictionaryValueTypes (environment_in e)) (l, [], R))"
  then have "\<forall>v \<in> set (settled (dictionaryValueTypes (environment_in e)) (l, [], R)). v = (fst v, [])"
    using dictionary_values_unsubstituted[OF plain_in vs] by (metis prod.collapse)
  then have "map (\<lambda>v. (fst v, [])) (settled (dictionaryValueTypes (environment_in e)) (l, [], R)) =
      settled (dictionaryValueTypes (environment_in e)) (l, [], R)"
    by (intro map_idI) simp
  with vs show "dictionaryValueTypes (environment_in e) n (l, [], R) =
     Some (unsubstituted_values (nullish (dictionary_search e R l) []))"
    by (simp add: dictionary_search_def comp_def)
qed

lemma dictionary_search_equation:
  "dictionary_step (environment_in e) (\<lambda>c. Some (settled (dictionaryValueTypes (environment_in e)) c)) (l, [], R) =
     Some (settled (dictionaryValueTypes (environment_in e)) (l, [], R))"
  by (rule dictionary_values.settled_step) (rule dictionary_values_plain[OF plain_in])

definition visible_alias :: "type_environment \<Rightarrow> loc \<Rightarrow> string \<Rightarrow> loc option" where
  "visible_alias env u x = visibleTypeAlias x u (typeAliases env)"

lemma dictionary_search_step:
  "dictionary_search e R l =
     (case followed_alias (visible_alias (environment_in e)) l of
        None \<Rightarrow> dictionary_combine (environment_in e) l (dictionary_search e R)
      | Some (x, b) \<Rightarrow> if x \<in> R then None else dictionary_search e (insert x R) b)"
proof -
  have "map_option (\<lambda>vs. some_of (map fst vs))
        (dictionary_step (environment_in e) (\<lambda>c. Some (settled (dictionaryValueTypes (environment_in e)) c)) (l, [], R)) =
      Some (case followed_alias (visible_alias (environment_in e)) l of
        None \<Rightarrow> dictionary_combine (environment_in e) l (dictionary_search e R)
      | Some (x, b) \<Rightarrow> if x \<in> R then None else dictionary_search e (insert x R) b)"
    by (cases "shape_of (fst (unwrapTransparentType l))")
      (simp_all add: dictionary_step_def dictionary_combine_def followed_alias_def dictionary_reference_def visible_alias_def
        Let_def no_substitution_in dictionary_search_def comp_def split: option.split)
  with dictionary_search_equation[of e l R] show ?thesis by (simp add: dictionary_search_def)
qed

lemma dictionary_combine_shapes:
  "dictionary_combine env l h = (let u = unwrapTransparentType l in
     case shape_of (fst u) of
       LiteralShape members \<Rightarrow> some_of (concat (map (index_value u) members))
     | MappedShape key annotation \<Rightarrow> map_option (\<lambda>t. [child_loc u t]) annotation
     | ReferenceShape x \<Rightarrow>
         if isBuiltInOf [''Record''] x u env then map_option (\<lambda>t. [t]) (at (type_arguments u) 1)
         else if isBuiltInOf (TRANSPARENT_WRAPPERS @ [''Pick'', ''Omit'']) x u env
         then Option.bind (at (type_arguments u) 0) (\<lambda>m. some_of (nullish (h m) []))
         else None
     | _ \<Rightarrow> None)"
  by (cases "shape_of (fst (unwrapTransparentType l))")
    (auto simp: dictionary_combine_def dictionary_step_def dictionary_reference_def Let_def comp_def map_concat
      isBuiltInOf_def TRANSPARENT_WRAPPERS_def split: option.split)

lemma dictionary_combine_grows:
  assumes "\<And>m w. m \<in> set (type_parts l) \<Longrightarrow> g m = Some w \<Longrightarrow> h m = Some w" and "dictionary_combine env l g = Some v"
  shows "dictionary_combine env l h = Some v"
proof (cases "shape_of (fst (unwrapTransparentType l))")
  case (ReferenceShape x)
  have "h m = Some w" if "at (type_arguments (unwrapTransparentType l)) 0 = Some m" "g m = Some w" for m w
    using assms(1)[of m w] at_in_set[OF that(1)] that(2) by (simp add: type_parts_def Let_def)
  with ReferenceShape assms(2) show ?thesis
    by (auto simp: dictionary_combine_shapes Let_def bind_eq_Some_conv simp del: some_of_Some split: if_splits)
qed (use assms(2) in \<open>simp_all add: dictionary_combine_shapes Let_def\<close>)

interpretation dictionary_values_search: name_search "followed_alias (visible_alias (environment_in e))"
    "dictionary_combine (environment_in e)" type_parts "\<lambda>l. size (fst l)" "bound_names (aliases_in e)" "dictionary_search e" for e
proof unfold_locales
  show "b = c" if "followed_alias (visible_alias (environment_in e)) l = Some (x, b)"
    and "followed_alias (visible_alias (environment_in e)) m = Some (x, c)" for l m x b c
    using that by (auto simp: visible_alias_def dest!: followed_alias_Some dest: single_alias_in)
  show "dictionary_combine (environment_in e) l h = Some v"
    if "\<And>m w. m \<in> set (type_parts l) \<Longrightarrow> g m = Some w \<Longrightarrow> h m = Some w"
      and "dictionary_combine (environment_in e) l g = Some v" for l g h v
    using that by (rule dictionary_combine_grows)
qed (auto simp: finite_bound_names type_parts_smaller visible_alias_def intro: dictionary_search_step
    dest!: followed_alias_Some visible_alias_bound)

lemma dictionary_search_sound: "dictionary_search e R l = Some ts \<Longrightarrow> has_value_types (environment_in e) l ts"
proof (erule dictionary_values_search.derived[rotated 2])
  show "has_value_types (environment_in e) l ts"
    if "followed_alias (visible_alias (environment_in e)) l = Some (x, b)" "has_value_types (environment_in e) b ts" for l x b ts
    using that by (auto simp: followed_alias_def visible_alias_def intro: values_alias split: type_shape.splits)
next
  fix l ts and h :: "loc \<Rightarrow> loc list option"
  assume found: "dictionary_combine (environment_in e) l h = Some ts"
    and parts: "\<And>m w. m \<in> set (type_parts l) \<Longrightarrow> h m = Some w \<Longrightarrow> has_value_types (environment_in e) m w"
  show "has_value_types (environment_in e) l ts"
  proof (cases "shape_of (fst (unwrapTransparentType l))")
    case (ReferenceShape x)
    have "has_value_types (environment_in e) m w"
      if "at (type_arguments (unwrapTransparentType l)) 0 = Some m" "h m = Some w" for m w
      using parts[of m w] at_in_set[OF that(1)] that(2) by (simp add: type_parts_def Let_def)
    with ReferenceShape found show ?thesis
      by (auto simp: dictionary_combine_shapes Let_def bind_eq_Some_conv simp del: some_of_Some
          intro: values_record values_wrapped split: if_splits)
  qed (use found in \<open>auto simp: dictionary_combine_shapes Let_def intro: values_literal values_mapped\<close>)
qed

lemma dictionary_search_complete: "has_value_types (environment_in e) l ts \<Longrightarrow> dictionary_search e {} l = some_of ts"
proof (induction rule: has_value_types.induct)
  case (values_alias l x a ts)
  then show ?case by (subst dictionary_values_search.unmarked) (simp add: followed_alias_def visible_alias_def)
next
  case (values_record l x t)
  then show ?case
    by (subst dictionary_values_search.unmarked)
      (simp add: followed_alias_def visible_alias_def dictionary_combine_shapes Let_def)
next
  case (values_wrapped l x m ts)
  then have "\<not> isBuiltInOf [''Record''] x (unwrapTransparentType l) (environment_in e)"
    by (auto simp: isBuiltInOf_def TRANSPARENT_WRAPPERS_def)
  with values_wrapped show ?case
    by (subst dictionary_values_search.unmarked)
      (simp add: followed_alias_def visible_alias_def dictionary_combine_shapes Let_def)
qed (subst dictionary_values_search.unmarked,
    simp add: followed_alias_def dictionary_combine_shapes Let_def)+

lemma dictionary_search_exact:
  "dictionary_search e {} l = Some ts \<longleftrightarrow> has_value_types (environment_in e) l ts \<and> ts \<noteq> []"
  using dictionary_search_sound dictionary_search_complete by (metis some_of_Some)

section \<open>Unsafe dictionaries\<close>

text \<open>A dictionary is classified by the first of its value types that is unsafe.\<close>

definition dictionary_of :: "type_environment \<Rightarrow> loc \<Rightarrow> unsafe_value \<Rightarrow> bool" where
  "dictionary_of env l v \<longleftrightarrow>
     (\<exists>before t after. has_value_types env l (before @ t # after) \<and> unsafe_as env t v \<and>
        (\<forall>s \<in> set before. \<nexists>w. unsafe_as env s w))"

definition dictionary_class :: "plain_environment \<Rightarrow> loc \<Rightarrow> unsafe_value option" where
  "dictionary_class e l = first_some (unsafe_search e {}) (nullish (dictionary_search e {} l) [])"

lemma first_some_Some:
  "first_some f xs = Some y \<longleftrightarrow> (\<exists>before x after. xs = before @ x # after \<and> f x = Some y \<and> (\<forall>z \<in> set before. f z = None))"
  (is "_ \<longleftrightarrow> ?split xs")
proof
  show "first_some f xs = Some y \<Longrightarrow> ?split xs"
  proof (induction xs)
    case (Cons x xs)
    show ?case
    proof (cases "f x")
      case None
      with Cons obtain before z after where "xs = before @ z # after" "f z = Some y" "\<forall>w \<in> set before. f w = None"
        by auto
      with None have "x # xs = (x # before) @ z # after \<and> f z = Some y \<and> (\<forall>w \<in> set (x # before). f w = None)" by simp
      then show ?thesis by blast
    next
      case (Some w)
      with Cons.prems have "x # xs = [] @ x # xs \<and> f x = Some y \<and> (\<forall>w \<in> set []. f w = None)" by simp
      then show ?thesis by blast
    qed
  qed simp
  have "first_some f (before @ x # after) = Some y" if "f x = Some y" "\<forall>z \<in> set before. f z = None" for before x after
    using that by (induction before) simp_all
  then show "?split xs \<Longrightarrow> first_some f xs = Some y" by auto
qed

lemma unsafe_search_None: "unsafe_search e {} l = None \<longleftrightarrow> (\<nexists>v. unsafe_as (environment_in e) l v)"
  by (cases "unsafe_search e {} l") (auto simp: unsafe_search_exact[symmetric])

lemma dictionary_class_exact: "dictionary_class e l = Some v \<longleftrightarrow> dictionary_of (environment_in e) l v"
proof -
  have "has_value_types (environment_in e) l (before @ t # after) \<longleftrightarrow>
      nullish (dictionary_search e {} l) [] = before @ t # after" for before t after
  proof
    assume "has_value_types (environment_in e) l (before @ t # after)"
    then show "nullish (dictionary_search e {} l) [] = before @ t # after"
      using dictionary_search_exact[of e l "before @ t # after"] by simp
  next
    assume "nullish (dictionary_search e {} l) [] = before @ t # after"
    then have "dictionary_search e {} l = Some (before @ t # after)" by (cases "dictionary_search e {} l") auto
    then show "has_value_types (environment_in e) l (before @ t # after)" by (rule dictionary_search_sound)
  qed
  then show ?thesis
    by (auto simp: dictionary_class_def dictionary_of_def first_some_Some unsafe_search_exact unsafe_search_None)
qed

lemma first_unsafe_value_total:
  "(\<And>t. t \<in> set ts \<Longrightarrow> unsafeDirectValue env n (t, [], {}) = Some (f t)) \<Longrightarrow>
     first_unsafe_value env n (unsubstituted_values ts) = Some (first_some f ts)"
  by (induction ts) (auto split: option.split)

lemma classify_enough:
  "enough (\<lambda>n. classifyUnsafeDictionary n l (environment_in e) = Some (dictionary_class e l))"
proof -
  let ?ts = "nullish (dictionary_search e {} l) []"
  have "enough (\<lambda>n. \<forall>t \<in> set ?ts. unsafeDirectValue (environment_in e) n (t, [], {}) = Some (unsafe_search e {} t))"
    by (rule enough_list) (rule unsafe_search_enough)
  from enough_conj[OF dictionary_search_enough[of e l "{}"] this] show ?thesis
    by (rule enough_mp) (simp add: classifyUnsafeDictionary_def dictionary_class_def first_unsafe_value_total)
qed

section \<open>The reports of a run\<close>

definition types_around :: "loc \<Rightarrow> loc list" where
  "types_around l = filter (\<lambda>m. isTypeNode (fst m)) (takeWhile (\<lambda>m. node_type (fst m) \<noteq> ''Program'') (enclosing (snd l)))"

definition reported_dictionary :: "type_environment \<Rightarrow> loc \<Rightarrow> unsafe_value \<Rightarrow> bool" where
  "reported_dictionary env l v \<longleftrightarrow>
     node_type (fst l) \<in> {''TSTypeReference'', ''TSTypeLiteral'', ''TSMappedType''} \<and>
       \<not> isInsideTypeParameterConstraint l \<and> \<not> isPlainAliasConsumerUse l env \<and>
       dictionary_of env l v \<and> (\<forall>m \<in> set (types_around l). \<nexists>w. dictionary_of env m w) \<or>
     node_type (fst l) = ''TSIndexSignature'' \<and> parent_type l \<noteq> ''TSTypeLiteral'' \<and>
       (\<exists>t \<in> set (signature_value l). unsafe_as env t v)"

definition dictionary_reports :: "type_environment \<Rightarrow> loc \<Rightarrow> report list \<Rightarrow> bool" where
  "dictionary_reports env l rs \<longleftrightarrow>
     (\<exists>v. reported_dictionary env l v \<and> rs = [dictionary_report (fst l) v]) \<or>
     (\<nexists>v. reported_dictionary env l v) \<and> rs = []"

text \<open>The reports as the handlers compute them from the classes.\<close>

definition report_of :: "node \<Rightarrow> unsafe_value option \<Rightarrow> report list" where
  "report_of n found = (case found of None \<Rightarrow> [] | Some v \<Rightarrow> [dictionary_report n v])"

definition reported_class :: "plain_environment \<Rightarrow> loc \<Rightarrow> unsafe_value option" where
  "reported_class e l =
     (if node_type (fst l) \<in> {''TSTypeReference'', ''TSTypeLiteral'', ''TSMappedType''} then
        (if isInsideTypeParameterConstraint l \<or> isPlainAliasConsumerUse l (environment_in e) \<or>
            list_ex (\<lambda>m. dictionary_class e m \<noteq> None) (types_around l) then None else dictionary_class e l)
      else if node_type (fst l) = ''TSIndexSignature'' \<and> parent_type l \<noteq> ''TSTypeLiteral''
      then first_some (unsafe_search e {}) (signature_value l) else None)"

lemma no_ancestor_total:
  "(\<And>m. m \<in> set (enclosing ps) \<Longrightarrow> classifyUnsafeDictionary n m env = Some (f m)) \<Longrightarrow>
     no_unsafe_ancestor env n ps =
       Some (\<not> list_ex (\<lambda>m. f m \<noteq> None)
         (filter (\<lambda>m. isTypeNode (fst m)) (takeWhile (\<lambda>m. node_type (fst m) \<noteq> ''Program'') (enclosing ps))))"
  by (induction ps) (auto split: option.split)

lemma reportIfUnsafe_total:
  "(\<And>m. m \<in> set (l # enclosing (snd l)) \<Longrightarrow> classifyUnsafeDictionary n m env = Some (f m)) \<Longrightarrow>
     reportIfUnsafe n (Some env) l = Some (report_of (fst l)
       (if isInsideTypeParameterConstraint l \<or> isPlainAliasConsumerUse l env \<or>
           list_ex (\<lambda>m. f m \<noteq> None) (types_around l) then None else f l))"
  by (simp add: reportIfUnsafe_def shouldReportType_def no_ancestor_total report_of_def types_around_def
      split: option.split)

lemma checkIndexSignature_values:
  "checkIndexSignature n (Some env) l =
     (if parent_type l = ''TSTypeLiteral'' then Some []
      else (case signature_value l of
              [] \<Rightarrow> Some [] | t # _ \<Rightarrow> map_option (report_of (fst l)) (unsafeDirectValue env n (t, [], {}))))"
proof (cases "\<exists>i ps j t. fst l = TSIndexSignature i ps (Some (TSTypeAnnotation j t))")
  case True
  then obtain i ps j t where "fst l = TSIndexSignature i ps (Some (TSTypeAnnotation j t))" by blast
  then show ?thesis
    by (cases l) (simp add: checkIndexSignature_def classifyUnsafeDictionaryValue_def report_of_def[abs_def])
next
  case False
  then have "signature_value l = []"
    by (cases l) (auto split: node.split form.split annex_form.split option.split)
  with False show ?thesis
    by (auto simp: checkIndexSignature_def split: node.split form.split annex_form.split option.split)
qed

lemma signature_single: "signature_value l = [] \<or> (\<exists>t. signature_value l = [t])"
  by (cases l) (auto split: node.split form.split annex_form.split option.split)

lemma report_of_simps [simp]: "report_of n None = []" "report_of n (Some v) = [dictionary_report n v]"
  by (simp_all add: report_of_def)

text \<open>A handler answers the report of the class, and the class is what the specification says.\<close>

lemma handler_enough:
  assumes env: "dictionary_environment st = Some (environment_in e)"
  shows "enough (\<lambda>n. noUnsafeDictionaryType n st l = Some (st, report_of (fst l) (reported_class e l)))"
proof -
  have "enough (\<lambda>n. \<forall>m \<in> set (l # enclosing (snd l)).
      classifyUnsafeDictionary n m (environment_in e) = Some (dictionary_class e m))"
    by (rule enough_list) (rule classify_enough)
  moreover have "enough (\<lambda>n. \<forall>t \<in> set (signature_value l).
      unsafeDirectValue (environment_in e) n (t, [], {}) = Some (unsafe_search e {} t))"
    by (rule enough_list) (rule unsafe_search_enough)
  ultimately have "enough (\<lambda>n. (\<forall>m \<in> set (l # enclosing (snd l)).
      classifyUnsafeDictionary n m (environment_in e) = Some (dictionary_class e m)) \<and>
      (\<forall>t \<in> set (signature_value l). unsafeDirectValue (environment_in e) n (t, [], {}) = Some (unsafe_search e {} t)))"
    by (rule enough_conj)
  then show ?thesis
  proof (rule enough_mp)
    fix n
    assume answers: "(\<forall>m \<in> set (l # enclosing (snd l)).
        classifyUnsafeDictionary n m (environment_in e) = Some (dictionary_class e m)) \<and>
      (\<forall>t \<in> set (signature_value l). unsafeDirectValue (environment_in e) n (t, [], {}) = Some (unsafe_search e {} t))"
    then have types: "reportIfUnsafe n (Some (environment_in e)) l = Some (report_of (fst l)
       (if isInsideTypeParameterConstraint l \<or> isPlainAliasConsumerUse l (environment_in e) \<or>
           list_ex (\<lambda>m. dictionary_class e m \<noteq> None) (types_around l) then None else dictionary_class e l))"
      by (intro reportIfUnsafe_total) blast
    have signature: "checkIndexSignature n (Some (environment_in e)) l = Some (report_of (fst l)
       (if parent_type l \<noteq> ''TSTypeLiteral'' then first_some (unsafe_search e {}) (signature_value l) else None))"
    proof (cases "signature_value l")
      case (Cons t ts)
      with answers signature_single[of l] have "ts = []"
          "unsafeDirectValue (environment_in e) n (t, [], {}) = Some (unsafe_search e {} t)" by auto
      with Cons show ?thesis by (simp add: checkIndexSignature_values split: option.split)
    qed (simp add: checkIndexSignature_values)
    show "noUnsafeDictionaryType n st l = Some (st, report_of (fst l) (reported_class e l))"
      unfolding noUnsafeDictionaryType_def env types signature reported_class_def by simp
  qed
qed

lemma reported_class_exact: "reported_class e l = Some v \<longleftrightarrow> reported_dictionary (environment_in e) l v"
proof -
  have "first_some (unsafe_search e {}) (signature_value l) = Some v \<longleftrightarrow>
      (\<exists>t \<in> set (signature_value l). unsafe_as (environment_in e) t v)"
    using signature_single[of l] by (auto simp: unsafe_search_exact[symmetric] split: option.splits)
  moreover have "list_ex (\<lambda>m. dictionary_class e m \<noteq> None) ms \<longleftrightarrow>
      (\<exists>m \<in> set ms. \<exists>w. dictionary_of (environment_in e) m w)" for ms
    by (auto simp: list_ex_iff dictionary_class_exact[symmetric])
  ultimately show ?thesis
    by (auto simp: reported_class_def reported_dictionary_def dictionary_class_exact)
qed

lemma class_reports: "dictionary_reports (environment_in e) l (report_of (fst l) (reported_class e l))"
  by (cases "reported_class e l") (auto simp: dictionary_reports_def reported_class_exact[symmetric])

lemma run_enough:
  assumes "dictionary_environment st = Some (environment_in e)"
  shows "enough (\<lambda>n. run_rule (noUnsafeDictionaryType n) st ls =
    Some (st, concat (map (\<lambda>l. report_of (fst l) (reported_class e l)) ls)))"
proof -
  have "enough (\<lambda>n. \<forall>l \<in> set ls. noUnsafeDictionaryType n st l = Some (st, report_of (fst l) (reported_class e l)))"
    by (rule enough_list) (rule handler_enough[OF assms])
  then show ?thesis by (rule enough_mp) (rule run_rule_steady, blast)
qed

lemma lint_enough:
  assumes "createTypeEnvironment [] program (visitorKeys sc) = (environment_in e, cache)"
  shows "enough (\<lambda>n. lint (enterProgram sc) (noUnsafeDictionaryType n)
     \<lparr>dictionary_environment = None, dictionary_cache = []\<rparr> program =
     Some (concat (map (\<lambda>l. report_of (fst l) (reported_class e l)) (locations program []))))"
proof -
  let ?st = "enterProgram sc program \<lparr>dictionary_environment = None, dictionary_cache = []\<rparr>"
  have "dictionary_environment ?st = Some (environment_in e)" by (simp add: enterProgram_def assms)
  from run_enough[OF this, of "locations program []"] show ?thesis by (rule enough_mp) (simp add: lint_def)
qed

lemma reports_enough:
  assumes "plain_aliases (environmentOf program (visitorKeys sc))"
    and "one_alias_per_name (environmentOf program (visitorKeys sc))"
  shows "\<exists>rss. list_all2 (dictionary_reports (fst (createTypeEnvironment [] program (visitorKeys sc))))
       (locations program []) rss \<and>
     enough (\<lambda>n. lint (enterProgram sc) (noUnsafeDictionaryType n)
       \<lparr>dictionary_environment = None, dictionary_cache = []\<rparr> program = Some (concat rss))"
proof -
  obtain env cache where created: "createTypeEnvironment [] program (visitorKeys sc) = (env, cache)" by fastforce
  then have "typeAliases env = environmentOf program (visitorKeys sc)"
    by (auto simp: createTypeEnvironment_def createTypeAliasEnvironment_def Let_def)
  with assms have "environment_in (Plain env) = env" by (intro Plain_inverse) simp
  with created have e: "createTypeEnvironment [] program (visitorKeys sc) = (environment_in (Plain env), cache)" by simp
  have "list_all2 (dictionary_reports (environment_in (Plain env))) (locations program [])
      (map (\<lambda>l. report_of (fst l) (reported_class (Plain env) l)) (locations program []))"
    by (simp add: list_all2_map2 list_all2_same class_reports)
  with lint_enough[OF e] e show ?thesis by auto
qed

section \<open>Names declared twice\<close>

text \<open>
  The classifiers mark names, not declarations. In
  \<^verbatim>\<open>type A = Record<string, unknown>; type B = A; { type A = B; type C = A; }\<close> the inner A is the outer
  A read through B, and the search stops at the outer A because its name is marked already.
\<close>

definition table_type :: node where
  "table_type = TSTypeReference (node_at 3) (Identifier (node_at 4) ''Record'' None)
     (Some (TSTypeParameterInstantiation (node_at 5) [string_type 6, TSKeyword (node_at 7) TSUnknownKeyword]))"

definition outer_table :: node where
  "outer_table = TSTypeAliasDeclaration (node_at 1) (Identifier (node_at 2) ''A'' None) None table_type"

definition outer_copy :: node where
  "outer_copy = TSTypeAliasDeclaration (node_at 10) (Identifier (node_at 11) ''B'' None) None (name_ref 12 ''A'')"

definition inner_table :: node where
  "inner_table = TSTypeAliasDeclaration (node_at 20) (Identifier (node_at 21) ''A'' None) None (name_ref 22 ''B'')"

definition inner_copy :: node where
  "inner_copy = TSTypeAliasDeclaration (node_at 26) (Identifier (node_at 27) ''C'' None) None (name_ref 28 ''A'')"

definition table_block :: node where
  "table_block = BlockStatement (node_at 30) [inner_table, inner_copy]"

definition table_program :: node where
  "table_program = Program (node_at 40) [outer_table, outer_copy, table_block]"

definition table_environment :: type_environment where
  "table_environment = fst (createTypeEnvironment [] table_program block_keys)"

definition inner_use :: loc where
  "inner_use = (name_ref 28 ''A'', [inner_copy, table_block, table_program])"

definition table_value :: loc where
  "table_value = (TSKeyword (node_at 7) TSUnknownKeyword,
     [TSTypeParameterInstantiation (node_at 5) [string_type 6, TSKeyword (node_at 7) TSUnknownKeyword], table_type,
      outer_table, table_program])"

lemma inner_use_dictionary: "dictionary_of table_environment inner_use UnknownValue"
proof -
  have "has_value_types table_environment (table_type, [outer_table, table_program]) [table_value]"
    by (rule values_record[where x = "''Record''"]) code_simp+
  moreover have "(table_type, [outer_table, table_program]) = alias_annotation (outer_table, [table_program])" by code_simp
  ultimately have "has_value_types table_environment (alias_annotation (outer_table, [table_program])) [table_value]" by simp
  then have "has_value_types table_environment (alias_annotation (outer_copy, [table_program])) [table_value]"
    by (rule values_alias[rotated 2, where x = "''A''"]) code_simp+
  then have "has_value_types table_environment (alias_annotation (inner_table, [table_block, table_program])) [table_value]"
    by (rule values_alias[rotated 2, where x = "''B''"]) code_simp+
  then have "has_value_types table_environment inner_use ([] @ table_value # [])"
    by (subst append_Nil, rule values_alias[rotated 2, where x = "''A''"]) code_simp+
  moreover have "unsafe_as table_environment table_value UnknownValue"
    by (rule unsafe_unknown) code_simp
  ultimately show ?thesis unfolding dictionary_of_def by (metis empty_iff list.set(1))
qed

section \<open>Properties\<close>

text \<open>
  C2: in a program whose aliases take no type parameters and whose names are declared as an alias at
  most once, a run of \<open>no-unsafe-dictionary-type\<close> ends and reports exactly: the references, literals and
  mapped types that are dictionaries of an unsafe value, outside parameter constraints, other than
  plain uses of an alias, with no dictionary of an unsafe value around them; and the index signatures
  outside type literals whose value is unsafe. Each report names the first unsafe value type.
\<close>
theorem noUnsafeDictionaryType_lint:
  "plain_aliases (environmentOf program (visitorKeys sc)) \<Longrightarrow>
   one_alias_per_name (environmentOf program (visitorKeys sc)) \<Longrightarrow>
     \<exists>rss. list_all2 (dictionary_reports (fst (createTypeEnvironment [] program (visitorKeys sc))))
         (locations program []) rss \<and>
       enough (\<lambda>n. lint (enterProgram sc) (noUnsafeDictionaryType n)
         \<lparr>dictionary_environment = None, dictionary_cache = []\<rparr> program = Some (concat rss))"
  by (rule reports_enough)

theorem noUnsafeDictionaryType_lint_witness:
  "\<exists>rss. list_all2 (dictionary_reports (fst (createTypeEnvironment [] plain_program (visitorKeys empty_source))))
         (locations plain_program []) rss \<and>
       enough (\<lambda>n. lint (enterProgram empty_source) (noUnsafeDictionaryType n)
         \<lparr>dictionary_environment = None, dictionary_cache = []\<rparr> plain_program = Some (concat rss))"
proof (rule noUnsafeDictionaryType_lint)
  show "plain_aliases (environmentOf plain_program (visitorKeys empty_source))" by code_simp
  show "one_alias_per_name (environmentOf plain_program (visitorKeys empty_source))" by code_simp
qed


end
