(* ===== verification/Known_Evidence.thy ===== *)
theory Known_Evidence
  imports Contracts Widening_Targets Binding_Search
begin

text \<open>
  The rule \<open>no-known-value-widening\<close>, first half: which expressions carry known evidence, followed
  through constant bindings, local functions and annotations.
\<close>

section \<open>Wrappers and declarators\<close>

fun unwrapExpression :: "loc \<Rightarrow> loc" where
  "unwrapExpression (ParenthesizedExpression i e, anc) = unwrapExpression (e, ParenthesizedExpression i e # anc)"
| "unwrapExpression (TSAsExpression i e t, anc) = unwrapExpression (e, TSAsExpression i e t # anc)"
| "unwrapExpression (TSSatisfiesExpression i e t, anc) = unwrapExpression (e, TSSatisfiesExpression i e t # anc)"
| "unwrapExpression (TSTypeAssertion i e t, anc) = unwrapExpression (e, TSTypeAssertion i e t # anc)"
| "unwrapExpression (TSNonNullExpression i e, anc) = unwrapExpression (e, TSNonNullExpression i e # anc)"
| "unwrapExpression l = l"

lemma evidence_step: "evidence_inner n = Some e \<Longrightarrow> unwrapExpression (n, anc) = unwrapExpression (e, n # anc)"
  by (cases n rule: evidence_inner.cases; cases n rule: populated_inner.cases) simp_all

lemma evidence_stop: "evidence_inner n = None \<Longrightarrow> unwrapExpression (n, anc) = (n, anc)"
  by (cases "(n, anc)" rule: unwrapExpression.cases) simp_all

text \<open>This loop and the one of \<open>isKnownEvidenceExpression\<close> strip the same wrappers.\<close>

lemma fst_unwrapExpression: "fst (unwrapExpression (n, anc)) = unwrap_evidence n"
  by (induction n arbitrary: anc rule: evidence.wrapper_induct)
    (simp_all add: evidence_step evidence_stop evidence.unwrap_step evidence.unwrap_stop)

lemma unwrapExpression_size: "size (fst (unwrapExpression l)) \<le> size (fst l)"
  by (cases l) (simp add: fst_unwrapExpression evidence.unwrap_size)

fun declarator_init :: "node \<Rightarrow> node option" where
  "declarator_init (VariableDeclarator i d e) = e"
| "declarator_init _ = None"

fun declarator_id :: "node \<Rightarrow> node option" where
  "declarator_id (VariableDeclarator i d e) = Some d"
| "declarator_id _ = None"

definition variableDeclarator :: "variable \<Rightarrow> loc option" where
  "variableDeclarator v =
     (case defs v of
        [d] \<Rightarrow> if def_type d = ''Variable'' \<and> node_type (fst (def_node d)) = ''VariableDeclarator''
              then Some (def_node d) else None
      | _ \<Rightarrow> None)"

fun declaration_kind :: "node \<Rightarrow> string option" where
  "declaration_kind (VariableDeclaration i kind ds) = Some kind"
| "declaration_kind _ = None"

definition isStableConstVariable :: "variable \<Rightarrow> loc \<Rightarrow> bool" where
  "isStableConstVariable v declarator \<longleftrightarrow>
     Option.bind (parent declarator) (declaration_kind \<circ> fst) = Some ''const'' \<and>
     list_all (\<lambda>r. init r \<or> \<not> isWrite r) (references v)"

text \<open>The initializer of a stable constant, with its location.\<close>

definition stable_init :: "variable \<Rightarrow> loc option" where
  "stable_init v =
     (case variableDeclarator v of
        None \<Rightarrow> None
      | Some declarator \<Rightarrow>
          (case declarator_init (fst declarator) of
             None \<Rightarrow> None
           | Some e \<Rightarrow> if isStableConstVariable v declarator then Some (child_loc declarator e) else None))"

lemma stable_init_known: "stable_init (variable_at sc v) = Some e \<Longrightarrow> v \<in> variable_ids sc"
  by (rule defined_variable) (auto simp: stable_init_def variableDeclarator_def split: option.splits list.splits)

section \<open>Known evidence\<close>

function hasKnownEvidence :: "source_code \<Rightarrow> loc \<Rightarrow> variable_id set \<Rightarrow> bool" where
  "hasKnownEvidence sc expression visitedVariables =
     (if isKnownEvidenceExpression (fst expression) then True
      else (let unwrapped = fst (unwrapExpression expression) in
        if as_identifier unwrapped = None then False
        else (case resolveVariable sc unwrapped of
                None \<Rightarrow> False
              | Some v \<Rightarrow>
                  if v \<in> visitedVariables then False
                  else (case stable_init (variable_at sc v) of
                          None \<Rightarrow> False
                        | Some e \<Rightarrow> hasKnownEvidence sc e (insert v visitedVariables)))))"
  by pat_completeness auto
termination
  by (relation "measure (\<lambda>(sc, n, V). card (variable_ids sc - V))") (auto dest: stable_init_known)

declare hasKnownEvidence.simps [simp del]

text \<open>The specification: an evidence expression, or a name of a stable constant bound to evidence.\<close>

definition named_variable :: "source_code \<Rightarrow> loc \<Rightarrow> variable_id option" where
  "named_variable sc l =
     (let unwrapped = fst (unwrapExpression l) in
      if as_identifier unwrapped = None then None else resolveVariable sc unwrapped)"

inductive known_evidence :: "source_code \<Rightarrow> loc \<Rightarrow> bool" for sc where
  evident: "isKnownEvidenceExpression (fst l) \<Longrightarrow> known_evidence sc l"
| bound: "named_variable sc l = Some v \<Longrightarrow> stable_init (variable_at sc v) = Some e \<Longrightarrow>
    known_evidence sc e \<Longrightarrow> known_evidence sc l"

definition evidence_look :: "source_code \<Rightarrow> loc \<Rightarrow> bool + variable_id" where
  "evidence_look sc l =
     (if isKnownEvidenceExpression (fst l) then Inl True
      else case named_variable sc l of None \<Rightarrow> Inl False | Some v \<Rightarrow> Inr v)"

definition evidence_bind :: "source_code \<Rightarrow> variable_id \<Rightarrow> bool + loc" where
  "evidence_bind sc v = (case stable_init (variable_at sc v) of None \<Rightarrow> Inl False | Some e \<Rightarrow> Inr e)"

interpretation evidence_search: binding_search "evidence_look sc" "evidence_bind sc" False
    "variable_ids sc" "hasKnownEvidence sc" for sc
proof unfold_locales
  show "hasKnownEvidence sc n V =
     (case evidence_look sc n of Inl r \<Rightarrow> r
      | Inr v \<Rightarrow> if v \<in> V then False
                 else (case evidence_bind sc v of Inl r \<Rightarrow> r
                       | Inr e \<Rightarrow> hasKnownEvidence sc e (insert v V)))" for n V
    by (auto simp: hasKnownEvidence.simps[of sc n] evidence_look_def evidence_bind_def named_variable_def Let_def
        split: option.split)
  show "v \<in> variable_ids sc" if "evidence_bind sc v = Inr e" for v e
    using that stable_init_known by (auto simp: evidence_bind_def split: option.splits)
qed simp

lemma value_evidence_follows:
  "known_evidence sc l \<Longrightarrow> \<exists>vs. follows (evidence_look sc) (evidence_bind sc) vs l True"
proof (induction rule: known_evidence.induct)
  case (evident l)
  then show ?case by (intro exI[of _ "[]"] follows.here) (simp add: evidence_look_def)
next
  case (bound l v e)
  then obtain vs where vs: "follows (evidence_look sc) (evidence_bind sc) vs e True" by blast
  show ?case
  proof (cases "isKnownEvidenceExpression (fst l)")
    case True
    then show ?thesis by (intro exI[of _ "[]"] follows.here) (simp add: evidence_look_def)
  next
    case False
    with bound vs have "follows (evidence_look sc) (evidence_bind sc) (v # vs) l True"
      by (intro follows.goes_on) (simp_all add: evidence_look_def evidence_bind_def)
    then show ?thesis ..
  qed
qed

lemma follows_known:
  "follows (evidence_look sc) (evidence_bind sc) vs l r \<Longrightarrow> r \<Longrightarrow> known_evidence sc l"
  by (induction rule: follows.induct)
    (auto simp: evidence_look_def evidence_bind_def intro: known_evidence.intros split: option.splits if_splits)

lemma hasKnownEvidence_iff: "hasKnownEvidence sc l {} \<longleftrightarrow> known_evidence sc l"
  using evidence_search.search_iff[of True sc l] value_evidence_follows[of sc l] follows_known[of sc _ l True] by auto

section \<open>Evidence of call arguments\<close>

definition isFunctionExpression :: "node \<Rightarrow> bool" where
  "isFunctionExpression n = (as_function n \<noteq> None)"

definition localFunctionForCall :: "source_code \<Rightarrow> loc \<Rightarrow> loc option" where
  "localFunctionForCall sc callee =
     (let unwrapped = unwrapExpression callee in
      if isFunctionExpression (fst unwrapped) then Some unwrapped
      else if as_identifier (fst unwrapped) = None then None
      else (case resolveVariable sc (fst unwrapped) of
              None \<Rightarrow> None
            | Some v \<Rightarrow>
                (case defs (variable_at sc v) of
                   [d] \<Rightarrow>
                     if def_type d = ''FunctionName'' \<and> isFunctionExpression (fst (def_node d))
                     then Some (def_node d)
                     else if def_type d \<noteq> ''Variable'' then None
                     else (case declarator_init (fst (def_node d)) of
                             None \<Rightarrow> None
                           | Some e \<Rightarrow>
                               (let unwrappedInitializer = unwrapExpression (child_loc (def_node d) e)
                                in if isFunctionExpression (fst unwrappedInitializer)
                                   then Some unwrappedInitializer else None))
                 | _ \<Rightarrow> None)))"

text \<open>\<open>owner.returnType\<close>, with its location.\<close>

definition return_type :: "loc \<Rightarrow> loc option" where
  "return_type owner =
     (case as_function (fst owner) of Some (k, ps, Some a) \<Rightarrow> Some (child_loc owner a) | _ \<Rightarrow> None)"

definition function_params :: "node \<Rightarrow> node list" where
  "function_params n = (case as_function n of Some (k, ps, r) \<Rightarrow> ps | None \<Rightarrow> [])"

definition variableTypeAnnotation :: "source_code \<Rightarrow> variable \<Rightarrow> loc option" where
  "variableTypeAnnotation sc v =
     (case defs v of
        [d] \<Rightarrow>
          (if def_type d = ''Variable'' \<and>
              (case declarator_id (fst (def_node d)) of None \<Rightarrow> False | Some x \<Rightarrow> as_identifier x \<noteq> None)
           then (case declarator_id (fst (def_node d)) of
                   None \<Rightarrow> None
                 | Some x \<Rightarrow> map_option (child_loc (child_loc (def_node d) x)) (own_annotation x))
           else if def_type d \<noteq> ''Parameter'' \<or> \<not> isFunctionExpression (fst (def_node d)) then None
           else (case find (\<lambda>p. functionParameterBindingName sc p = var_name v)
                        (function_params (fst (def_node d))) of
                   None \<Rightarrow> None
                 | Some p \<Rightarrow> functionParameterTypeAnnotation p (fst (def_node d) # snd (def_node d))))
      | _ \<Rightarrow> None)"

definition hasInformativeType :: "type_environment \<Rightarrow> nat \<Rightarrow> loc \<Rightarrow> bool option" where
  "hasInformativeType env fuel l = map_option (\<lambda>v. v = None) (classifyUnsafeDictionaryValue fuel l env)"

definition informative_annotation :: "type_environment \<Rightarrow> nat \<Rightarrow> loc option \<Rightarrow> bool option" where
  "informative_annotation env fuel a =
     (case Option.bind a annotated_type of None \<Rightarrow> Some False | Some t \<Rightarrow> hasInformativeType env fuel t)"

function hasKnownCallArgumentEvidence ::
  "source_code \<Rightarrow> type_environment \<Rightarrow> nat \<Rightarrow> loc \<Rightarrow> variable_id set \<Rightarrow> bool option" where
  "hasKnownCallArgumentEvidence sc env fuel l visitedVariables =
     (case fst l of
        ParenthesizedExpression i e \<Rightarrow> hasKnownCallArgumentEvidence sc env fuel (child_loc l e) visitedVariables
      | TSNonNullExpression i e \<Rightarrow> hasKnownCallArgumentEvidence sc env fuel (child_loc l e) visitedVariables
      | TSAsExpression i e t \<Rightarrow> hasInformativeType env fuel (child_loc l t)
      | TSTypeAssertion i e t \<Rightarrow> hasInformativeType env fuel (child_loc l t)
      | TSSatisfiesExpression i e t \<Rightarrow> hasKnownCallArgumentEvidence sc env fuel (child_loc l e) visitedVariables
      | CallExpression i callee ts as \<Rightarrow>
          (case localFunctionForCall sc (child_loc l callee) of
             None \<Rightarrow> Some False
           | Some owner \<Rightarrow> informative_annotation env fuel (return_type owner))
      | Identifier i x t \<Rightarrow>
          (case resolveVariable sc (fst l) of
             None \<Rightarrow> Some False
           | Some v \<Rightarrow>
               if v \<in> visitedVariables then Some False
               else (case variableTypeAnnotation sc (variable_at sc v) of
                       Some a \<Rightarrow> informative_annotation env fuel (Some a)
                     | None \<Rightarrow>
                         (case stable_init (variable_at sc v) of
                            None \<Rightarrow> Some False
                          | Some e \<Rightarrow>
                              hasKnownCallArgumentEvidence sc env fuel e (insert v visitedVariables))))
      | _ \<Rightarrow> Some (isKnownEvidenceExpression (fst l)))"
  by pat_completeness auto
termination
proof (relation "measures [\<lambda>(sc, env, fuel, l, V). card (variable_ids sc - V), \<lambda>(sc, env, fuel, l, V). size (fst l)]",
    goal_cases)
  case prems: (2 sc env fuel l V)
  then have "card (variable_ids sc - insert v V) < card (variable_ids sc - V)"
    if "stable_init (variable_at sc v) = Some e" "v \<notin> V" for v e
    using that by (intro card_unvisited_less stable_init_known) auto
  with prems show ?case by simp
next
  case (3 sc env fuel l V)
  then show ?case by (cases l) simp
next
  case (4 sc env fuel l V)
  then show ?case by (cases l) simp
next
  case (5 sc env fuel l V)
  then show ?case by (cases l) simp
qed simp

declare hasKnownCallArgumentEvidence.simps [simp del]

text \<open>
  The same recursion as a search along bindings. What an expression answers at once is its
  \<open>direct_evidence\<close>.
\<close>

function argument_look ::
  "source_code \<Rightarrow> type_environment \<Rightarrow> nat \<Rightarrow> loc \<Rightarrow> bool option + variable_id" where
  "argument_look sc env fuel l =
     (case fst l of
        ParenthesizedExpression i e \<Rightarrow> argument_look sc env fuel (child_loc l e)
      | TSNonNullExpression i e \<Rightarrow> argument_look sc env fuel (child_loc l e)
      | TSAsExpression i e t \<Rightarrow> Inl (hasInformativeType env fuel (child_loc l t))
      | TSTypeAssertion i e t \<Rightarrow> Inl (hasInformativeType env fuel (child_loc l t))
      | TSSatisfiesExpression i e t \<Rightarrow> argument_look sc env fuel (child_loc l e)
      | CallExpression i callee ts as \<Rightarrow>
          Inl (case localFunctionForCall sc (child_loc l callee) of
                 None \<Rightarrow> Some False
               | Some owner \<Rightarrow> informative_annotation env fuel (return_type owner))
      | Identifier i x t \<Rightarrow>
          (case resolveVariable sc (fst l) of None \<Rightarrow> Inl (Some False) | Some v \<Rightarrow> Inr v)
      | _ \<Rightarrow> Inl (Some (isKnownEvidenceExpression (fst l))))"
  by pat_completeness auto
termination
proof (relation "measure (\<lambda>(sc, env, fuel, l). size (fst l))", goal_cases)
  case (2 sc env fuel l i e)
  then show ?case by (cases l) simp
next
  case (3 sc env fuel l i e)
  then show ?case by (cases l) simp
next
  case (4 sc env fuel l i e t)
  then show ?case by (cases l) simp
qed simp

declare argument_look.simps [simp del]

definition argument_bind ::
  "source_code \<Rightarrow> type_environment \<Rightarrow> nat \<Rightarrow> variable_id \<Rightarrow> bool option + loc" where
  "argument_bind sc env fuel v =
     (case variableTypeAnnotation sc (variable_at sc v) of
        Some a \<Rightarrow> Inl (informative_annotation env fuel (Some a))
      | None \<Rightarrow> (case stable_init (variable_at sc v) of None \<Rightarrow> Inl (Some False) | Some e \<Rightarrow> Inr e))"

lemma argument_shape_cases:
  obtains (wrapped) e where "\<exists>i t. n = ParenthesizedExpression i e \<or> n = TSNonNullExpression i e \<or> n = TSSatisfiesExpression i e t"
  | (ident) i x t where "n = Identifier i x t"
  | (other) "\<forall>i e t. n \<noteq> ParenthesizedExpression i e \<and> n \<noteq> TSNonNullExpression i e \<and> n \<noteq> TSSatisfiesExpression i e t"
      "\<forall>i x t. n \<noteq> Identifier i x t"
  by blast

lemma argument_step:
  "hasKnownCallArgumentEvidence sc env fuel l V =
     (case argument_look sc env fuel l of Inl r \<Rightarrow> r
      | Inr v \<Rightarrow> if v \<in> V then Some False
                 else (case argument_bind sc env fuel v of Inl r \<Rightarrow> r
                       | Inr e \<Rightarrow> hasKnownCallArgumentEvidence sc env fuel e (insert v V)))"
proof (induction sc env fuel l rule: argument_look.induct)
  case (1 sc env fuel l)
  show ?case
  proof (cases "fst l" rule: argument_shape_cases)
    case (wrapped e)
    then show ?thesis
      using 1 by (auto simp: hasKnownCallArgumentEvidence.simps[of sc env fuel l] argument_look.simps[of sc env fuel l])
  next
    case (ident i x t)
    then show ?thesis
      by (simp add: hasKnownCallArgumentEvidence.simps[of sc env fuel l] argument_look.simps[of sc env fuel l]
          argument_bind_def split: option.split)
  next
    case other
    then show ?thesis
      by (simp add: hasKnownCallArgumentEvidence.simps[of sc env fuel l] argument_look.simps[of sc env fuel l]
          split: node.split form.split expr_form.split)
  qed
qed

interpretation argument_search: binding_search "argument_look sc env fuel" "argument_bind sc env fuel" "Some False"
    "variable_ids sc" "hasKnownCallArgumentEvidence sc env fuel" for sc env fuel
proof unfold_locales
  show "v \<in> variable_ids sc" if "argument_bind sc env fuel v = Inr e" for v e
    using that stable_init_known by (auto simp: argument_bind_def split: option.splits)
qed (simp_all add: argument_step[symmetric])

section \<open>Properties\<close>

text \<open>
  C14: an expression has known evidence exactly when a finite chain of stable constants leads from it
  to an evidence expression; the set of visited variables loses nothing.
\<close>
theorem hasKnownEvidence_exact: "hasKnownEvidence sc l {} \<longleftrightarrow> known_evidence sc l"
  by (rule hasKnownEvidence_iff)

text \<open>
  C30: a call argument has evidence exactly when following constant bindings without annotation, in
  finitely many steps, reaches an annotation, an assertion, a call or an expression that says so.
\<close>
theorem hasKnownCallArgumentEvidence_exact:
  "hasKnownCallArgumentEvidence sc env fuel l {} = Some True \<longleftrightarrow>
     (\<exists>vs. follows (argument_look sc env fuel) (argument_bind sc env fuel) vs l (Some True))"
  by (rule argument_search.search_iff) simp

end
