(* ===== verification/Value_Widening.thy ===== *)
theory Value_Widening
  imports Known_Evidence Dictionary_Rule Syntax_Rules
begin

text \<open>
  The rule \<open>no-known-value-widening\<close>, second half: its handlers. Each names an expression, the type
  it flows into and a description of the place; \<open>reportFlow\<close> decides.
\<close>

section \<open>Places\<close>

definition typePredicateSubjectIndex :: "source_code \<Rightarrow> node \<Rightarrow> nat option" where
  "typePredicateSubjectIndex sc owner =
     (case as_function owner of
        Some (k, params, Some a) \<Rightarrow>
          (case annotation_type a of
             Some (TSTypePredicate i (Identifier j x t) p) \<Rightarrow>
               (let index = length (takeWhile (\<lambda>q. functionParameterBindingName sc q \<noteq> x) params)
                in if index < length params then Some index else None)
           | _ \<Rightarrow> None)
      | _ \<Rightarrow> None)"

text \<open>\<open>targetFromAnnotation\<close>: no target before the program is entered, or without an annotation.\<close>

definition targetFromAnnotation ::
  "nat \<Rightarrow> type_environment option \<Rightarrow> loc option \<Rightarrow> widening_kind option option" where
  "targetFromAnnotation fuel env a =
     (case (env, Option.bind a annotated_type) of
        (Some e, Some t) \<Rightarrow> classifyWideningTarget e fuel t
      | _ \<Rightarrow> Some None)"

definition enclosing_kinds :: "string list" where
  "enclosing_kinds = [''ArrowFunctionExpression'', ''FunctionDeclaration'', ''FunctionExpression'']"

fun enclosing_function :: "node list \<Rightarrow> loc option" where
  "enclosing_function [] = None"
| "enclosing_function (current # rest) =
     (if node_type current = ''Program'' then None
      else if node_type current \<in> set enclosing_kinds then Some (current, rest)
      else enclosing_function rest)"

definition enclosingFunction :: "loc \<Rightarrow> loc option" where
  "enclosingFunction l = enclosing_function (snd l)"

fun sourceKeyName :: "source_code \<Rightarrow> node \<Rightarrow> string" where
  "sourceKeyName sc (Identifier i x t) = x"
| "sourceKeyName sc (PrivateIdentifier i x) = x"
| "sourceKeyName sc (Literal i (StringValue s)) = s"
| "sourceKeyName sc (Literal i (NumberValue s)) = s"
| "sourceKeyName sc (Literal i (OtherValue s)) = s"
| "sourceKeyName sc key = getText sc key"

fun function_id :: "node \<Rightarrow> node option" where
  "function_id (Function i k d tps ps r b) = d"
| "function_id _ = None"

definition functionName :: "source_code \<Rightarrow> loc option \<Rightarrow> string" where
  "functionName sc owner =
     (case owner of
        None \<Rightarrow> ''anonymous function''
      | Some l \<Rightarrow>
          (case function_id (fst l) of
             Some d \<Rightarrow> identifier_name d
           | None \<Rightarrow>
               (case map_option fst (parent l) of
                  Some (VariableDeclarator i (Identifier j x t) e) \<Rightarrow> x
                | Some (MethodDefinition i computed key v) \<Rightarrow> sourceKeyName sc key
                | _ \<Rightarrow> ''anonymous function'')))"

definition isEmptyObject :: "loc \<Rightarrow> bool" where
  "isEmptyObject l = (as_object (fst (unwrapExpression l)) = Some [])"

definition isDictionaryAccumulatorTarget :: "widening_kind \<Rightarrow> bool" where
  "isDictionaryAccumulatorTarget d = (d = OpenDictionary \<or> d = GenericContainer)"

definition hasParentAssertion :: "loc \<Rightarrow> bool" where
  "hasParentAssertion l = (parent_type l = ''TSAsExpression'' \<or> parent_type l = ''TSTypeAssertion'')"

definition kind_name :: "widening_kind \<Rightarrow> string" where
  "kind_name k = (case k of AnonymousObject \<Rightarrow> ''anonymous object'' | GenericContainer \<Rightarrow> ''generic container''
     | ObjectTarget \<Rightarrow> ''object'' | OpenDictionary \<Rightarrow> ''open dictionary'' | UnknownTarget \<Rightarrow> ''unknown'')"

definition quoted :: "string \<Rightarrow> string" where
  "quoted s = ''`'' @ s @ ''`''"

section \<open>Flows\<close>

definition widening_report :: "node \<Rightarrow> string \<Rightarrow> string \<Rightarrow> report" where
  "widening_report n subject target =
     \<lparr>report_node = n, message_id = ''widening'', report_data = [(''subject'', subject), (''target'', target)]\<rparr>"

definition reportFlow :: "source_code \<Rightarrow> loc \<Rightarrow> widening_kind option \<Rightarrow> string \<Rightarrow> report list" where
  "reportFlow sc expression destination subject =
     (case destination of
        None \<Rightarrow> []
      | Some d \<Rightarrow>
          if isDictionaryAccumulatorTarget d \<and> isEmptyObject expression then []
          else if \<not> hasKnownEvidence sc expression {} then []
          else [widening_report (fst expression) subject (kind_name d)])"

text \<open>The flow a node states: the expression, the annotation it flows into, and the place.\<close>

definition annotated_flow :: "source_code \<Rightarrow> loc \<Rightarrow> (loc \<times> loc option \<times> string) option" where
  "annotated_flow sc l =
     (case fst l of
        VariableDeclarator i (Identifier j x t) (Some e) \<Rightarrow>
          Some (child_loc l e, map_option (child_loc (child_loc l (Identifier j x t))) t, ''binding '' @ quoted x)
      | PropertyDefinition i computed key t (Some v) \<Rightarrow>
          Some (child_loc l v, map_option (child_loc l) t, ''property '' @ quoted (sourceKeyName sc key))
      | AccessorProperty i computed key t (Some v) \<Rightarrow>
          Some (child_loc l v, map_option (child_loc l) t, ''property '' @ quoted (sourceKeyName sc key))
      | AssignmentExpression i operator (Identifier j x t) right \<Rightarrow>
          if operator \<noteq> ''='' then None
          else (case resolveVariable sc (Identifier j x t) of
                  None \<Rightarrow> None
                | Some v \<Rightarrow>
                    (case variableDeclarator (variable_at sc v) of
                       None \<Rightarrow> None
                     | Some declarator \<Rightarrow>
                         (case declarator_id (fst declarator) of
                            Some (Identifier k y u) \<Rightarrow>
                              Some (child_loc l right,
                                map_option (child_loc (child_loc declarator (Identifier k y u))) u,
                                ''binding '' @ quoted y)
                          | _ \<Rightarrow> None)))
      | ReturnStatement i (Some e) \<Rightarrow>
          (let owner = enclosingFunction l in
           Some (child_loc l e, Option.bind owner return_type, ''return value of '' @ quoted (functionName sc owner)))
      | ArrowFunctionExpression i tps ps r body \<Rightarrow>
          if node_type body = ''BlockStatement'' then None
          else Some (child_loc l body, map_option (child_loc l) r,
                 ''return value of '' @ quoted (functionName sc (Some l)))
      | _ \<Rightarrow> None)"

definition checkFlow :: "source_code \<Rightarrow> nat \<Rightarrow> type_environment option \<Rightarrow> loc \<Rightarrow> report list option" where
  "checkFlow sc fuel env l =
     (case annotated_flow sc l of
        None \<Rightarrow> Some []
      | Some (expression, annotation, subject) \<Rightarrow>
          map_option (\<lambda>d. reportFlow sc expression d subject) (targetFromAnnotation fuel env annotation))"

fun assertion_of :: "node \<Rightarrow> (node \<times> node) option" where
  "assertion_of (TSAsExpression i e t) = Some (e, t)"
| "assertion_of (TSTypeAssertion i e t) = Some (e, t)"
| "assertion_of _ = None"

definition checkAssertionFlow :: "source_code \<Rightarrow> nat \<Rightarrow> type_environment option \<Rightarrow> loc \<Rightarrow> report list option" where
  "checkAssertionFlow sc fuel env l =
     (case (env, assertion_of (fst l)) of
        (Some e, Some (expression, t)) \<Rightarrow>
          if hasParentAssertion l then Some []
          else map_option (\<lambda>d. reportFlow sc (child_loc l expression) d ''assertion'')
                 (classifyWideningTarget e fuel (child_loc l t))
      | _ \<Rightarrow> Some [])"

text \<open>The argument a call hands to the unknown parameter its callee is a type predicate for.\<close>

definition predicate_argument :: "source_code \<Rightarrow> loc \<Rightarrow> (loc \<times> loc \<times> node) option" where
  "predicate_argument sc l =
     (case fst l of
        CallExpression i callee ts arguments \<Rightarrow>
          (case localFunctionForCall sc (child_loc l callee) of
             None \<Rightarrow> None
           | Some owner \<Rightarrow>
               (case typePredicateSubjectIndex sc (fst owner) of
                  None \<Rightarrow> None
                | Some index \<Rightarrow>
                    (case (at (function_params (fst owner)) index, at arguments index) of
                       (Some parameter, Some argument) \<Rightarrow>
                         if node_type argument = ''SpreadElement'' then None
                         else (case Option.bind (functionParameterTypeAnnotation parameter (fst owner # snd owner)) annotated_type of
                                 None \<Rightarrow> None
                               | Some t \<Rightarrow>
                                   if containsUnknownType (fst t) then Some (child_loc l argument, owner, parameter)
                                   else None)
                     | _ \<Rightarrow> None)))
      | _ \<Rightarrow> None)"

definition checkPredicateCall :: "source_code \<Rightarrow> nat \<Rightarrow> type_environment option \<Rightarrow> loc \<Rightarrow> report list option" where
  "checkPredicateCall sc fuel env l =
     (case (env, predicate_argument sc l) of
        (Some e, Some (argument, owner, parameter)) \<Rightarrow>
          map_option (\<lambda>known.
              if known
              then [widening_report (fst argument)
                     (''argument for parameter '' @ quoted (functionParameterBindingName sc parameter) @
                      '' of '' @ quoted (functionName sc (Some owner))) ''unknown'']
              else [])
            (hasKnownCallArgumentEvidence sc e fuel argument {})
      | _ \<Rightarrow> Some [])"

definition noKnownValueWidening ::
  "source_code \<Rightarrow> nat \<Rightarrow> dictionary_state \<Rightarrow> loc \<Rightarrow> (dictionary_state \<times> report list) option" where
  "noKnownValueWidening sc fuel st l =
     (let env = dictionary_environment st in
      case (checkFlow sc fuel env l, checkAssertionFlow sc fuel env l, checkPredicateCall sc fuel env l) of
        (Some flow, Some assertion, Some call) \<Rightarrow> Some (st, flow @ assertion @ call)
      | _ \<Rightarrow> None)"

section \<open>What a flow report means\<close>

lemma reportFlow_iff:
  "reportFlow sc l destination subject = [r] \<longleftrightarrow>
     (\<exists>d. destination = Some d \<and> known_evidence sc l \<and>
        \<not> (isDictionaryAccumulatorTarget d \<and> isEmptyObject l) \<and>
        r = widening_report (fst l) subject (kind_name d))"
  by (auto simp: reportFlow_def hasKnownEvidence_iff split: option.split)

text \<open>At most one of the three handlers has something to say about a node.\<close>

lemma handlers_disjoint:
  "annotated_flow sc l \<noteq> None \<Longrightarrow> assertion_of (fst l) = None \<and> predicate_argument sc l = None"
  "assertion_of (fst l) \<noteq> None \<Longrightarrow> predicate_argument sc l = None"
  by (cases "fst l" rule: assertion_of.cases; simp add: annotated_flow_def predicate_argument_def)+

section \<open>Properties\<close>


end
