(* ===== verification/Widen_Assert.thy ===== *)
theory Widen_Assert
  imports Array_Method Syntax_Rules Linter
begin

text \<open>
  The rule \<open>no-widen-then-assert\<close>: a constant whose declaration widens a known value, and an
  assertion that later narrows it again in the same function.
\<close>

section \<open>Types\<close>

datatype broad_kind = TopKind | ObjectKind | RecordKind

fun unwrapTypeParentheses :: "node \<Rightarrow> node" where
  "unwrapTypeParentheses (TSParenthesizedType i t) = unwrapTypeParentheses t"
| "unwrapTypeParentheses t = t"

lemma unwrapType_size: "size (unwrapTypeParentheses t) \<le> size t"
  by (induction t rule: unwrapTypeParentheses.induct) simp_all

fun keyword_of :: "node \<Rightarrow> keyword_type option" where
  "keyword_of (TSKeyword i k) = Some k"
| "keyword_of _ = None"

text \<open>The name and the arguments of a type reference.\<close>

fun argument_types :: "node option \<Rightarrow> node list" where
  "argument_types (Some (TSTypeParameterInstantiation k ts)) = ts"
| "argument_types _ = []"

definition referenced :: "node \<Rightarrow> (string \<times> node list) option" where
  "referenced n =
     (case as_type_reference n of
        None \<Rightarrow> None
      | Some (name, a) \<Rightarrow> map_option (\<lambda>x. (x, argument_types a)) (as_identifier name))"

lemma argument_types_size: "t \<in> set (argument_types a) \<Longrightarrow> size t < size_option size a"
  by (cases a rule: argument_types.cases) (auto dest: size_member)

fun literal_members :: "node \<Rightarrow> node list option" where
  "literal_members (TSTypeLiteral i ms) = Some ms"
| "literal_members _ = None"

fun union_types :: "node \<Rightarrow> node list option" where
  "union_types (TSUnionType i ts) = Some ts"
| "union_types _ = None"

lemma referenced_size: "referenced n = Some (x, ts) \<Longrightarrow> t \<in> set ts \<Longrightarrow> size t < size n"
  by (auto simp: referenced_def dest!: argument_types_size split: option.splits)

lemma union_types_size: "union_types n = Some ts \<Longrightarrow> t \<in> set ts \<Longrightarrow> size t < size n"
  by (cases n rule: union_types.cases) (auto dest: size_member)

definition isUnknownOrAnyType :: "node \<Rightarrow> bool" where
  "isUnknownOrAnyType t = (keyword_of (unwrapTypeParentheses t) \<in> {Some TSUnknownKeyword, Some TSAnyKeyword})"

function isBroadRecordKeyType :: "node \<Rightarrow> bool" where
  "isBroadRecordKeyType t =
     (let unwrapped = unwrapTypeParentheses t in
      if keyword_of unwrapped \<in> {Some TSStringKeyword, Some TSNumberKeyword, Some TSSymbolKeyword} then True
      else (case union_types unwrapped of
              Some ts \<Rightarrow> list_all isBroadRecordKeyType ts
            | None \<Rightarrow> map_option fst (referenced unwrapped) = Some ''PropertyKey''))"
  by pat_completeness auto
termination
proof (relation "measure size")
  show "(z, t) \<in> measure size" if "u = unwrapTypeParentheses t" "union_types u = Some ts" "z \<in> set ts" for t u ts z
    using union_types_size[OF that(2,3)] unwrapType_size[of t] that(1) by simp
qed simp

declare isBroadRecordKeyType.simps [simp del]

fun parameter_type :: "node \<Rightarrow> node option" where
  "parameter_type (Identifier i x (Some a)) = annotation_type a"
| "parameter_type _ = None"

text \<open>An index signature with one broad parameter and a value of unknown or any.\<close>

fun broad_index :: "node \<Rightarrow> bool" where
  "broad_index (TSIndexSignature i [p] (Some a)) =
     (case (parameter_type p, annotation_type a) of
        (Some k, Some v) \<Rightarrow> isBroadRecordKeyType k \<and> isUnknownOrAnyType v
      | _ \<Rightarrow> False)"
| "broad_index _ = False"

function isBroadRecordType :: "node \<Rightarrow> bool" where
  "isBroadRecordType t =
     (let unwrapped = unwrapTypeParentheses t in
      case referenced unwrapped of
        Some (name, arguments) \<Rightarrow>
          if name = ''Readonly'' then
            (case arguments of [] \<Rightarrow> False | inner_type # _ \<Rightarrow> isBroadRecordType inner_type)
          else if name \<noteq> ''Record'' then False
          else (case arguments of
                  [k, v] \<Rightarrow> isBroadRecordKeyType k \<and> isUnknownOrAnyType v
                | _ \<Rightarrow> False)
      | None \<Rightarrow> (case literal_members unwrapped of Some [m] \<Rightarrow> broad_index m | _ \<Rightarrow> False))"
  by pat_completeness auto
termination
proof (relation "measure size")
  show "(z, t) \<in> measure size"
    if "u = unwrapTypeParentheses t" "referenced u = Some p" "(x, ts) = p" "ts = z # zs" for t u p x ts z zs
    using referenced_size[of u x ts z] that unwrapType_size[of t] by auto
qed simp

declare isBroadRecordType.simps [simp del]

definition broadTypeKind :: "node \<Rightarrow> broad_kind option" where
  "broadTypeKind t =
     (let unwrapped = unwrapTypeParentheses t in
      if keyword_of unwrapped \<in> {Some TSUnknownKeyword, Some TSAnyKeyword} then Some TopKind
      else if keyword_of unwrapped = Some TSObjectKeyword then Some ObjectKind
      else if isBroadRecordType unwrapped then Some RecordKind else None)"

fun expression_assertion :: "node \<Rightarrow> (node \<times> node) option" where
  "expression_assertion (TSAsExpression i e t) = Some (e, t)"
| "expression_assertion (TSTypeAssertion i e t) = Some (e, t)"
| "expression_assertion _ = None"

text \<open>\<open>assertionFromExpression\<close> with \<open>assertedExpression\<close>: the operand, unwrapped, and the type.\<close>

definition assertionFromExpression :: "node \<Rightarrow> (node \<times> node) option" where
  "assertionFromExpression e =
     map_option (\<lambda>(operand, t). (unwrapParentheses operand, t)) (expression_assertion (unwrapParentheses e))"

definition normalizedTypeText :: "string \<Rightarrow> node \<Rightarrow> string" where
  "normalizedTypeText sourceText t =
     filter (\<lambda>c. \<not> js_space c) (take (stop (info t) - start (info t)) (drop (start (info t)) sourceText))"

definition typesHaveSameSyntax :: "string \<Rightarrow> node option \<Rightarrow> node \<Rightarrow> bool" where
  "typesHaveSameSyntax sourceText left right =
     (case left of
        None \<Rightarrow> False
      | Some l \<Rightarrow> normalizedTypeText sourceText (unwrapTypeParentheses l) =
                 normalizedTypeText sourceText (unwrapTypeParentheses right))"

function isDefinitelyObjectType :: "node \<Rightarrow> bool" where
  "isDefinitelyObjectType t =
     (case unwrapTypeParentheses t of
        TSArrayType i e \<Rightarrow> True
      | TSSignature i k key tps ps r \<Rightarrow> k = TSConstructorType \<or> k = TSFunctionType
      | TSMappedType i k c n v \<Rightarrow> True
      | TSKeyword i k \<Rightarrow> k = TSObjectKeyword
      | TSTupleType i ts \<Rightarrow> True
      | TSTypeLiteral i ms \<Rightarrow> length ms > 0
      | TSIntersectionType i ts \<Rightarrow> list_all isDefinitelyObjectType ts
      | TSTypeOperator i operator u \<Rightarrow> operator = ''readonly'' \<and> isDefinitelyObjectType u
      | _ \<Rightarrow> False)"
  by pat_completeness auto
termination
proof (relation "measure size", goal_cases)
  case prems: (2 t)
  with unwrapType_size[of t] show ?case by auto
next
  case prems: (3 t)
  with unwrapType_size[of t] show ?case by (auto dest: size_member)
qed simp

declare isDefinitelyObjectType.simps [simp del]

definition is_index :: "node \<Rightarrow> bool" where
  "is_index m = (node_type m = ''TSIndexSignature'')"

function isDefinitelyNarrowerRecordType :: "node \<Rightarrow> bool" where
  "isDefinitelyNarrowerRecordType t =
     (let unwrapped = unwrapTypeParentheses t in
      case literal_members unwrapped of
        Some ms \<Rightarrow> list_ex (\<lambda>m. \<not> is_index m) ms
      | None \<Rightarrow>
          (case referenced unwrapped of
             None \<Rightarrow> False
           | Some (name, arguments) \<Rightarrow>
               if name = ''Readonly'' then
                 (case arguments of [] \<Rightarrow> False | inner_type # _ \<Rightarrow> isDefinitelyNarrowerRecordType inner_type)
               else if name \<noteq> ''Record'' then False
               else (case arguments of [k, v] \<Rightarrow> \<not> isUnknownOrAnyType v | _ \<Rightarrow> False)))"
  by pat_completeness auto
termination
proof (relation "measure size")
  show "(z, t) \<in> measure size"
    if "u = unwrapTypeParentheses t" "referenced u = Some p" "(x, ts) = p" "ts = z # zs" for t u p x ts z zs
    using referenced_size[of u x ts z] that unwrapType_size[of t] by auto
qed simp

declare isDefinitelyNarrowerRecordType.simps [simp del]

text \<open>No type is both the broad record and a definitely narrower one.\<close>

lemma literal_not_referenced: "literal_members n = Some ms \<Longrightarrow> referenced n = None"
  by (cases n rule: literal_members.cases) (simp_all add: referenced_def)

lemma broad_index_index: "broad_index m \<Longrightarrow> is_index m"
  by (cases m rule: broad_index.cases) (auto simp: is_index_def)

lemma broad_not_narrower: "isBroadRecordType t \<Longrightarrow> \<not> isDefinitelyNarrowerRecordType t"
proof (induction t rule: measure_induct_rule[of size])
  case (less t)
  let ?u = "unwrapTypeParentheses t"
  show ?case
  proof (cases "referenced ?u")
    case None
    with less.prems obtain m where m: "literal_members ?u = Some [m]" "broad_index m"
      by (auto simp: isBroadRecordType.simps[of t] Let_def split: option.splits list.splits)
    then show ?thesis
      by (simp add: isDefinitelyNarrowerRecordType.simps[of t] Let_def broad_index_index)
  next
    case (Some p)
    then obtain name ts where r: "referenced ?u = Some (name, ts)" by (cases p) simp
    then have l: "literal_members ?u = None" using literal_not_referenced by (cases "literal_members ?u") auto
    show ?thesis
    proof (cases "name = ''Readonly''")
      case True
      with less.prems r obtain z zs where z: "ts = z # zs" "isBroadRecordType z"
        by (auto simp: isBroadRecordType.simps[of t] Let_def split: list.splits)
      then have "size z < size t" using referenced_size[OF r, of z] unwrapType_size[of t] by simp
      with less.IH z True r l show ?thesis by (simp add: isDefinitelyNarrowerRecordType.simps[of t] Let_def)
    next
      case False
      with less.prems r obtain k v where "name = ''Record''" "ts = [k, v]" "isUnknownOrAnyType v"
        by (auto simp: isBroadRecordType.simps[of t] Let_def split: list.splits if_splits)
      with r l show ?thesis by (simp add: isDefinitelyNarrowerRecordType.simps[of t] Let_def)
    qed
  qed
qed

section \<open>Evidence\<close>

definition functionBoundaryTypes :: "string list" where
  "functionBoundaryTypes =
     [''ArrowFunctionExpression'', ''FunctionDeclaration'', ''FunctionExpression'', ''TSDeclareFunction'',
      ''TSEmptyBodyFunctionExpression'']"

text \<open>The function around a node, by identity; \<open>None\<close> at the top level.\<close>

fun function_boundary :: "node list \<Rightarrow> nat option" where
  "function_boundary [] = None"
| "function_boundary (current # rest) =
     (if node_type current = ''Program'' then None
      else if node_type current \<in> set functionBoundaryTypes then Some (nid (info current))
      else function_boundary rest)"

definition functionBoundary :: "loc \<Rightarrow> nat option" where
  "functionBoundary l = function_boundary (snd l)"

definition same_range :: "node \<Rightarrow> node \<Rightarrow> bool" where
  "same_range m n \<longleftrightarrow> start (info m) = start (info n) \<and> stop (info m) = stop (info n)"

fun resolvedVariableForIdentifier :: "scope list \<Rightarrow> node \<Rightarrow> variable_id option" where
  "resolvedVariableForIdentifier [] n = None"
| "resolvedVariableForIdentifier (s # ss) n =
     (case find (\<lambda>r. same_range (fst r) n) (scope_references s) of
        Some r \<Rightarrow> snd r
      | None \<Rightarrow> resolvedVariableForIdentifier ss n)"

definition firstDeclarator :: "variable \<Rightarrow> loc option" where
  "firstDeclarator v =
     map_option def_node
       (find (\<lambda>d. def_type d = ''Variable'' \<and> node_type (fst (def_node d)) = ''VariableDeclarator'') (defs v))"

text \<open>A declarator \<open>const id = init\<close>: the identifier pattern and the initializer.\<close>

fun const_declarator :: "loc \<Rightarrow> (node \<times> node) option" where
  "const_declarator (VariableDeclarator i d (Some e), VariableDeclaration j kind ds # anc) =
     (if kind = ''const'' then Some (d, e) else None)"
| "const_declarator _ = None"

datatype known_value = KnownValue (known_type: "node option")

definition value_types :: "string list" where
  "value_types = [''Literal'', ''TemplateLiteral'', ''ArrayExpression'', ''ArrowFunctionExpression'',
     ''ClassExpression'', ''FunctionExpression'', ''NewExpression'', ''ObjectExpression'']"

text \<open>The first identifier of a variable that has an annotation, and the annotated type.\<close>

definition annotated_identifier :: "variable \<Rightarrow> (loc \<times> node) option" where
  "annotated_identifier v =
     first_some (\<lambda>l. map_option (Pair l) (identifier_annotation (fst l))) (identifiers v)"

definition value_look :: "scope list \<Rightarrow> node \<Rightarrow> known_value option + variable_id" where
  "value_look ss e =
     (let unwrapped = unwrapParentheses e in
      case expression_assertion unwrapped of
        Some (operand, t) \<Rightarrow> Inl (if broadTypeKind t \<noteq> None then None else Some (KnownValue (Some t)))
      | None \<Rightarrow>
          if node_type unwrapped \<in> set value_types then Inl (Some (KnownValue None))
          else if as_identifier unwrapped = None then Inl None
          else (case resolvedVariableForIdentifier ss unwrapped of None \<Rightarrow> Inl None | Some v \<Rightarrow> Inr v))"

definition value_bind :: "source_code \<Rightarrow> nat option \<Rightarrow> variable_id \<Rightarrow> known_value option + node" where
  "value_bind sc boundary v =
     (case annotated_identifier (variable_at sc v) of
        Some (l, annotation) \<Rightarrow>
          Inl (if functionBoundary l \<noteq> boundary \<or> broadTypeKind annotation \<noteq> None then None
               else Some (KnownValue (Some annotation)))
      | None \<Rightarrow>
          (case firstDeclarator (variable_at sc v) of
             None \<Rightarrow> Inl None
           | Some declarator \<Rightarrow>
               (case const_declarator declarator of
                  None \<Rightarrow> Inl None
                | Some (d, e) \<Rightarrow>
                    if reassigned (variable_at sc v) \<or> functionBoundary declarator \<noteq> boundary then Inl None
                    else Inr e)))"

lemma value_bind_known: "value_bind sc boundary v = Inr e \<Longrightarrow> v \<in> variable_ids sc"
  by (rule defined_variable)
    (auto simp: value_bind_def firstDeclarator_def split: option.splits if_splits prod.splits)

function knownValueEvidence ::
  "source_code \<Rightarrow> scope list \<Rightarrow> nat option \<Rightarrow> node \<Rightarrow> variable_id set \<Rightarrow> known_value option" where
  "knownValueEvidence sc ss boundary e visitedVariables =
     (case value_look ss e of
        Inl answer \<Rightarrow> answer
      | Inr v \<Rightarrow>
          if v \<in> visitedVariables then None
          else (case value_bind sc boundary v of
                  Inl answer \<Rightarrow> answer
                | Inr initializer \<Rightarrow>
                    knownValueEvidence sc ss boundary initializer (insert v visitedVariables)))"
  by pat_completeness auto
termination
  by (relation "measure (\<lambda>(sc, ss, b, e, V). card (variable_ids sc - V))") (auto dest: value_bind_known)

declare knownValueEvidence.simps [simp del]

interpretation value_search: binding_search "value_look ss" "value_bind sc boundary" None
    "variable_ids sc" "knownValueEvidence sc ss boundary" for sc ss boundary
proof unfold_locales
  show "knownValueEvidence sc ss boundary n V =
     (case value_look ss n of Inl r \<Rightarrow> r
      | Inr v \<Rightarrow> if v \<in> V then None
                 else (case value_bind sc boundary v of Inl r \<Rightarrow> r
                       | Inr e \<Rightarrow> knownValueEvidence sc ss boundary e (insert v V)))" for n V
    by (rule knownValueEvidence.simps)
qed (auto dest: value_bind_known)

section \<open>The rule\<close>

record widened =
  broadKind :: broad_kind
  widened_evidence :: known_value
  declaredAt :: nat
  widened_boundary :: "nat option"

definition nullish_or :: "'a option \<Rightarrow> 'a option \<Rightarrow> 'a option" where
  "nullish_or x y = (case x of None \<Rightarrow> y | Some v \<Rightarrow> Some v)"

definition widenedBinding :: "source_code \<Rightarrow> scope list \<Rightarrow> variable_id \<Rightarrow> widened option" where
  "widenedBinding sc ss v =
     (case firstDeclarator (variable_at sc v) of
        None \<Rightarrow> None
      | Some declarator \<Rightarrow>
          (case const_declarator declarator of
             None \<Rightarrow> None
           | Some (d, initializer) \<Rightarrow>
               if as_identifier d = None \<or> reassigned (variable_at sc v) then None
               else (let boundary = functionBoundary declarator;
                         initializerAssertion = assertionFromExpression initializer;
                         initializerBroadKind = Option.bind initializerAssertion (broadTypeKind \<circ> snd);
                         declaredBroadKind = Option.bind (identifier_annotation d) broadTypeKind
                     in case nullish_or declaredBroadKind initializerBroadKind of
                          None \<Rightarrow> None
                        | Some kind \<Rightarrow>
                            (let original =
                               (case (initializerAssertion, initializerBroadKind) of
                                  (Some (operand, t), Some k) \<Rightarrow> operand
                                | _ \<Rightarrow> initializer)
                             in map_option (\<lambda>evidence.
                                    \<lparr>broadKind = kind, widened_evidence = evidence,
                                     declaredAt = stop (info (fst declarator)), widened_boundary = boundary\<rparr>)
                                  (knownValueEvidence sc ss boundary original {v})))))"

definition assertionIsNarrower :: "string \<Rightarrow> broad_kind \<Rightarrow> known_value \<Rightarrow> node \<Rightarrow> bool" where
  "assertionIsNarrower sourceText kind evidence assertedType =
     (if broadTypeKind assertedType \<noteq> None then False
      else if kind = TopKind then True
      else if typesHaveSameSyntax sourceText (known_type evidence) assertedType then True
      else if kind = ObjectKind then isDefinitelyObjectType assertedType
      else isDefinitelyNarrowerRecordType assertedType)"

definition checkWidenedAssertion :: "source_code \<Rightarrow> scope list \<Rightarrow> loc \<Rightarrow> report list" where
  "checkWidenedAssertion sc ss l =
     (case expression_assertion (fst l) of
        None \<Rightarrow> []
      | Some (operand, t) \<Rightarrow>
          (let expression = unwrapParentheses operand in
           case as_identifier expression of
             None \<Rightarrow> []
           | Some name \<Rightarrow>
               (case Option.bind (resolvedVariableForIdentifier ss expression) (widenedBinding sc ss) of
                  None \<Rightarrow> []
                | Some w \<Rightarrow>
                    if start (info (fst l)) \<le> declaredAt w \<or>
                       functionBoundary l \<noteq> widened_boundary w \<or>
                       \<not> assertionIsNarrower (source_text sc) (broadKind w) (widened_evidence w) t
                    then []
                    else [\<lparr>report_node = fst l, message_id = ''widenThenAssert'', report_data = [(''name'', name)]\<rparr>])))"

text \<open>The variable \<open>scopes\<close> of the rule is empty until the program is entered.\<close>

definition enterScopes :: "source_code \<Rightarrow> node \<Rightarrow> scope list \<Rightarrow> scope list" where
  "enterScopes sc program ss = scopes sc"

definition noWidenThenAssert :: "source_code \<Rightarrow> scope list \<Rightarrow> loc \<Rightarrow> (scope list \<times> report list) option" where
  "noWidenThenAssert sc ss l = Some (ss, checkWidenedAssertion sc ss l)"

section \<open>Properties\<close>

text \<open>
  C31: the two record tests exclude each other: a type that is the broad record is never taken for a
  definitely narrower one.
\<close>
theorem broad_and_narrower_disjoint: "\<not> (isBroadRecordType t \<and> isDefinitelyNarrowerRecordType t)"
  using broad_not_narrower by blast


end
