(* ===== verification/Effect_Rules.thy ===== *)
theory Effect_Rules
  imports Reflect_Rules Syntax_Rules
begin

text \<open>
  The plugin \<open>anti-slop-effect\<close>: \<open>effect/shared/tagged-values.ts\<close> and the five rules under
  \<open>effect/rules\<close>. Two of the rules look at the same branches on a tag and divide them by the
  place they stand in.
\<close>

section \<open>Tagged values\<close>

definition equalityOperators :: "string list" where
  "equalityOperators = [''=='', ''==='', ''!='', ''!=='']"

definition broadEffectCatchMethods :: "string list" where
  "broadEffectCatchMethods = [''catch'', ''catchAll'', ''catchIf'']"

definition isStringLiteral :: "node \<Rightarrow> bool" where
  "isStringLiteral n = (as_string_literal n \<noteq> None)"

text \<open>\<open>object.name\<close> or \<open>object["name"]\<close>: the object, for a member access with that name.\<close>

definition named_member :: "string \<Rightarrow> node \<Rightarrow> node option" where
  "named_member name n =
     (case as_member n of
        None \<Rightarrow> None
      | Some (computed, object, property) \<Rightarrow>
          if \<not> computed \<and> as_identifier property = Some name \<or>
             computed \<and> as_string_literal property = Some name
          then Some object else None)"

definition isTagMember :: "node \<Rightarrow> bool" where
  "isTagMember n = (named_member ''_tag'' n \<noteq> None)"

definition tagMemberFromComparison :: "node \<Rightarrow> node option" where
  "tagMemberFromComparison n =
     (case as_binary n of
        None \<Rightarrow> None
      | Some (operator, left, right) \<Rightarrow>
          if operator \<notin> set equalityOperators then None
          else if isTagMember left \<and> isStringLiteral right then Some left
          else if isTagMember right \<and> isStringLiteral left then Some right
          else None)"

text \<open>\<open>owner.name(...)\<close>, not computed: the name and the arguments.\<close>

definition static_call :: "string \<Rightarrow> node \<Rightarrow> (string \<times> node list) option" where
  "static_call owner n =
     (case as_call n of
        None \<Rightarrow> None
      | Some (callee, arguments) \<Rightarrow>
          (case as_member callee of
             None \<Rightarrow> None
           | Some (computed, object, property) \<Rightarrow>
               if as_identifier object = Some owner \<and> \<not> computed
               then map_option (\<lambda>name. (name, arguments)) (as_identifier property) else None))"

definition isBroadEffectCatchCall :: "node \<Rightarrow> bool" where
  "isBroadEffectCatchCall n =
     (case static_call ''Effect'' n of
        None \<Rightarrow> False | Some (name, arguments) \<Rightarrow> name \<in> set broadEffectCatchMethods)"

definition call_arguments :: "node \<Rightarrow> node list" where
  "call_arguments n = (case as_call n of None \<Rightarrow> [] | Some (callee, arguments) \<Rightarrow> arguments)"

definition is_closure :: "node \<Rightarrow> bool" where
  "is_closure n = (node_type n = ''ArrowFunctionExpression'' \<or> node_type n = ''FunctionExpression'')"

fun inside_broad_handler :: "node list \<Rightarrow> bool" where
  "inside_broad_handler [] = False"
| "inside_broad_handler (current # rest) =
     (if is_closure current
      then (case rest of
              [] \<Rightarrow> False
            | p # ps \<Rightarrow> isBroadEffectCatchCall p \<and> list_ex (same_node current) (call_arguments p))
      else inside_broad_handler rest)"

definition isInsideBroadEffectHandler :: "loc \<Rightarrow> bool" where
  "isInsideBroadEffectHandler l = inside_broad_handler (snd l)"

definition isReasonTagMember :: "node \<Rightarrow> bool" where
  "isReasonTagMember n =
     (case as_member n of
        None \<Rightarrow> False
      | Some (computed, object, property) \<Rightarrow> named_member ''reason'' object \<noteq> None)"

fun propertyName :: "node \<Rightarrow> string option" where
  "propertyName (Property i computed key v) =
     (if \<not> computed \<and> as_identifier key \<noteq> None then as_identifier key else as_string_literal key)"
| "propertyName _ = None"

definition isMatchPatternObject :: "loc \<Rightarrow> bool" where
  "isMatchPatternObject l =
     (case parent l of
        None \<Rightarrow> False
      | Some (call, ancestors) \<Rightarrow>
          if \<not> list_ex (same_node (fst l)) (call_arguments call) then False
          else (case static_call ''Match'' call of
                  None \<Rightarrow> False | Some (name, arguments) \<Rightarrow> name = ''when'' \<or> name = ''not''))"

section \<open>Branching on a tag\<close>

fun switch_discriminant :: "node \<Rightarrow> node option" where
  "switch_discriminant (SwitchStatement i e cases) = Some e"
| "switch_discriminant _ = None"

definition effect_report :: "node \<Rightarrow> string \<Rightarrow> report" where
  "effect_report n messageId = \<lparr>report_node = n, message_id = messageId, report_data = []\<rparr>"

definition noManualEffectErrorTag :: "loc \<Rightarrow> report list" where
  "noManualEffectErrorTag l =
     (case switch_discriminant (fst l) of
        Some discriminant \<Rightarrow>
          if \<not> isTagMember discriminant \<or> \<not> isInsideBroadEffectHandler l then []
          else [effect_report (fst l) (if isReasonTagMember discriminant then ''reason'' else ''tag'')]
      | None \<Rightarrow>
          (case tagMemberFromComparison (fst l) of
             None \<Rightarrow> []
           | Some tagMember \<Rightarrow>
               if \<not> isInsideBroadEffectHandler l then []
               else [effect_report (fst l) (if isReasonTagMember tagMember then ''reason'' else ''tag'')]))"

definition noManualTagComparison :: "loc \<Rightarrow> report list" where
  "noManualTagComparison l =
     (case switch_discriminant (fst l) of
        Some discriminant \<Rightarrow>
          if \<not> isTagMember discriminant \<or> isInsideBroadEffectHandler l then []
          else [effect_report (fst l) ''manualSwitch'']
      | None \<Rightarrow>
          if tagMemberFromComparison (fst l) = None \<or> isInsideBroadEffectHandler l then []
          else [effect_report (fst l) ''manualComparison''])"

text \<open>The member that is read, for a node that branches on a tag.\<close>

inductive branches_on :: "node \<Rightarrow> node \<Rightarrow> bool" where
  on_switch: "isTagMember e \<Longrightarrow> branches_on (SwitchStatement i e cases) e"
| on_left: "operator \<in> set equalityOperators \<Longrightarrow> isTagMember m \<Longrightarrow> isStringLiteral s \<Longrightarrow>
    branches_on (BinaryExpression i operator m s) m"
| on_right: "operator \<in> set equalityOperators \<Longrightarrow> isTagMember m \<Longrightarrow> isStringLiteral s \<Longrightarrow>
    branches_on (BinaryExpression i operator s m) m"

text \<open>The nearest function expression around a node is an argument of a broad catch call.\<close>

definition in_broad_handler :: "loc \<Rightarrow> bool" where
  "in_broad_handler l \<longleftrightarrow>
     (\<exists>inner f call outer arguments. snd l = inner @ f # call # outer \<and> (\<forall>n \<in> set inner. \<not> is_closure n) \<and>
        is_closure f \<and> (\<exists>a \<in> set arguments. same_node f a) \<and>
        (\<exists>name \<in> {''catch'', ''catchAll'', ''catchIf''}. static_call ''Effect'' call = Some (name, arguments)))"


lemma string_no_tag: "isStringLiteral n \<Longrightarrow> \<not> isTagMember n"
  by (auto simp: isStringLiteral_def isTagMember_def named_member_def split: option.splits prod.splits)

lemma as_binary_Some [simp]: "as_binary n = Some (op, l, r) \<longleftrightarrow> (\<exists>i. n = BinaryExpression i op l r)"
  by (cases n rule: as_binary.cases) auto

lemma switch_discriminant_Some [simp]: "switch_discriminant n = Some e \<longleftrightarrow> (\<exists>i cs. n = SwitchStatement i e cs)"
  by (cases n rule: switch_discriminant.cases) auto

lemma comparison_branches: "tagMemberFromComparison n = Some m \<longleftrightarrow> branches_on n m \<and> switch_discriminant n = None"
  by (auto simp: tagMemberFromComparison_def branches_on.simps dest: string_no_tag split: option.splits prod.splits if_splits)

lemma branches_det: "branches_on n m \<Longrightarrow> branches_on n m' \<Longrightarrow> m' = m"
  by (auto simp: branches_on.simps dest: string_no_tag)

text \<open>Both rules are functions of the member read and the place.\<close>

definition branched :: "node \<Rightarrow> node option" where
  "branched n = (case switch_discriminant n of
     Some e \<Rightarrow> if isTagMember e then Some e else None | None \<Rightarrow> tagMemberFromComparison n)"

lemma branched_iff: "branched n = Some m \<longleftrightarrow> branches_on n m"
proof (cases "switch_discriminant n")
  case None
  then show ?thesis by (simp add: branched_def comparison_branches)
next
  case (Some e)
  then show ?thesis by (auto simp: branched_def branches_on.simps split: if_splits)
qed

lemma static_call_arguments: "static_call owner n = Some (name, arguments) \<Longrightarrow> arguments = call_arguments n"
  by (auto simp: static_call_def call_arguments_def split: option.splits prod.splits if_splits)

lemma broad_call_iff:
  "isBroadEffectCatchCall n \<longleftrightarrow>
     (\<exists>name \<in> {''catch'', ''catchAll'', ''catchIf''}. static_call ''Effect'' n = Some (name, call_arguments n))"
proof (cases "static_call ''Effect'' n")
  case None
  then show ?thesis by (simp add: isBroadEffectCatchCall_def)
next
  case (Some c)
  then obtain name where "static_call ''Effect'' n = Some (name, call_arguments n)"
    using static_call_arguments by (cases c) blast
  then show ?thesis by (simp add: isBroadEffectCatchCall_def broadEffectCatchMethods_def)
qed

lemma inside_broad_handler_iff:
  "inside_broad_handler ns \<longleftrightarrow>
     (\<exists>inner f call outer. ns = inner @ f # call # outer \<and> (\<forall>n \<in> set inner. \<not> is_closure n) \<and>
        is_closure f \<and> isBroadEffectCatchCall call \<and> list_ex (same_node f) (call_arguments call))"
    (is "_ \<longleftrightarrow> (\<exists>inner f call outer. ?split ns inner f call outer)")
proof
  show "inside_broad_handler ns \<Longrightarrow> \<exists>inner f call outer. ?split ns inner f call outer"
  proof (induction ns)
    case (Cons n rest)
    show ?case
    proof (cases "is_closure n")
      case True
      with Cons.prems obtain p ps where "rest = p # ps" by (cases rest) simp_all
      with True Cons.prems have "?split (n # rest) [] n p ps" by simp
      then show ?thesis by blast
    next
      case False
      with Cons obtain inner f call outer where "?split rest inner f call outer" by auto
      with False have "?split (n # rest) (n # inner) f call outer" by simp
      then show ?thesis by blast
    qed
  qed simp
next
  assume "\<exists>inner f call outer. ?split ns inner f call outer"
  then obtain inner f call outer where "?split ns inner f call outer" by blast
  moreover have "\<forall>n \<in> set inner. \<not> is_closure n \<Longrightarrow>
      inside_broad_handler (inner @ f # call # outer) = inside_broad_handler (f # call # outer)"
    by (induction inner) simp_all
  ultimately show "inside_broad_handler ns" by simp
qed

lemma in_broad_handler_iff: "isInsideBroadEffectHandler l \<longleftrightarrow> in_broad_handler l"
proof -
  have "isBroadEffectCatchCall call \<and> list_ex (same_node f) (call_arguments call) \<longleftrightarrow>
      (\<exists>arguments. (\<exists>a \<in> set arguments. same_node f a) \<and>
        (\<exists>name \<in> {''catch'', ''catchAll'', ''catchIf''}. static_call ''Effect'' call = Some (name, arguments)))" for f call
    unfolding broad_call_iff list_ex_iff using static_call_arguments by blast
  then show ?thesis
    unfolding isInsideBroadEffectHandler_def in_broad_handler_def inside_broad_handler_iff by metis
qed

lemma error_tag_branched:
  "noManualEffectErrorTag l =
     (case branched (fst l) of
        Some m \<Rightarrow> if in_broad_handler l
          then [effect_report (fst l) (if isReasonTagMember m then ''reason'' else ''tag'')] else []
      | None \<Rightarrow> [])"
  by (cases "switch_discriminant (fst l)"; cases "tagMemberFromComparison (fst l)")
    (simp_all add: noManualEffectErrorTag_def branched_def in_broad_handler_iff del: switch_discriminant_Some)

lemma tag_comparison_branched:
  "noManualTagComparison l =
     (case branched (fst l) of
        Some m \<Rightarrow> if in_broad_handler l then []
          else [effect_report (fst l) (if switch_discriminant (fst l) = None then ''manualComparison'' else ''manualSwitch'')]
      | None \<Rightarrow> [])"
  by (cases "switch_discriminant (fst l)"; cases "tagMemberFromComparison (fst l)")
    (simp_all add: noManualTagComparison_def branched_def in_broad_handler_iff del: switch_discriminant_Some)

lemma error_tag_iff:
  "noManualEffectErrorTag l = [r] \<longleftrightarrow>
     (\<exists>m. branches_on (fst l) m \<and> in_broad_handler l \<and>
        r = effect_report (fst l) (if isReasonTagMember m then ''reason'' else ''tag''))"
  by (auto simp: error_tag_branched branched_iff[symmetric] split: option.splits)

lemma tag_comparison_iff:
  "noManualTagComparison l = [r] \<longleftrightarrow>
     (\<exists>m. branches_on (fst l) m \<and> \<not> in_broad_handler l \<and>
        r = effect_report (fst l) (if switch_discriminant (fst l) = None then ''manualComparison'' else ''manualSwitch''))"
  by (auto simp: tag_comparison_branched branched_iff[symmetric] simp del: switch_discriminant_Some split: option.splits)

lemma tag_rules_partition:
  "length (noManualEffectErrorTag l @ noManualTagComparison l) = (if Ex (branches_on (fst l)) then 1 else 0)"
proof (cases "branched (fst l)")
  case None
  then have "\<not> Ex (branches_on (fst l))" by (metis branched_iff option.distinct(1))
  with None show ?thesis by (simp add: error_tag_branched tag_comparison_branched)
next
  case (Some m)
  then have "Ex (branches_on (fst l))" by (auto simp: branched_iff)
  with Some show ?thesis by (simp add: error_tag_branched tag_comparison_branched)
qed

section \<open>Constructing a tagged value\<close>

definition writes_tag :: "node \<Rightarrow> bool" where
  "writes_tag property =
     (propertyName property = Some ''_tag'' \<and>
      (case property of Property i computed key v \<Rightarrow> isStringLiteral v | _ \<Rightarrow> False))"

definition noManualTaggedConstruction :: "loc \<Rightarrow> report list" where
  "noManualTaggedConstruction l =
     (case as_object (fst l) of
        None \<Rightarrow> []
      | Some properties \<Rightarrow>
          if isMatchPatternObject l then []
          else (case find writes_tag properties of
                  None \<Rightarrow> []
                | Some tag \<Rightarrow> [effect_report tag ''manualConstruction'']))"

section \<open>Imports of service constructors\<close>

definition upper_case :: "char \<Rightarrow> bool" where
  "upper_case c = (let n = of_char c :: nat in 65 \<le> n \<and> n \<le> 90)"

text \<open>\<open>/^make[A-Z]/u\<close>\<close>

definition service_constructor_name :: "string \<Rightarrow> bool" where
  "service_constructor_name s =
     (starts_with ''make'' s \<and> (case drop 4 s of [] \<Rightarrow> False | c # cs \<Rightarrow> upper_case c))"

text \<open>
  \<open>/\.(?:test|spec)\.[cm]?[jt]sx?$/u\<close>: the language between the first dot and the end is finite, so
  the expression is the list of its words.
\<close>

definition test_endings :: "string list" where
  "test_endings =
     [''.'' @ a @ ''.'' @ b @ c @ ''s'' @ d.
        a \<leftarrow> [''test'', ''spec''], b \<leftarrow> [[], ''c'', ''m''], c \<leftarrow> [''j'', ''t''], d \<leftarrow> [[], ''x'']]"

definition ends_with :: "string \<Rightarrow> string \<Rightarrow> bool" where
  "ends_with e s = starts_with (rev e) (rev s)"

definition is_test_file :: "string \<Rightarrow> bool" where
  "is_test_file file = list_ex (\<lambda>e. ends_with e file) test_endings"

definition forward_slashes :: "string \<Rightarrow> string" where
  "forward_slashes file = map (\<lambda>c. if c = CHR 0x5C then CHR 0x2F else c) file"

definition isProjectLocalImport :: "string \<Rightarrow> bool" where
  "isProjectLocalImport source = (starts_with ''./'' source \<or> starts_with ''../'' source)"

fun as_import :: "node \<Rightarrow> (string \<times> node list) option" where
  "as_import (ImportDeclaration i (Literal j (StringValue s)) specifiers) = Some (s, specifiers)"
| "as_import _ = None"

definition specifier_report :: "node \<Rightarrow> report list" where
  "specifier_report specifier =
     (case importedName specifier of
        None \<Rightarrow> []
      | Some name \<Rightarrow>
          if \<not> service_constructor_name name then []
          else [\<lparr>report_node = specifier, message_id = ''serviceConstructorImport'', report_data = [(''name'', name)]\<rparr>])"

definition noServiceConstructorImports :: "string \<Rightarrow> loc \<Rightarrow> report list" where
  "noServiceConstructorImports filename l =
     (case as_import (fst l) of
        None \<Rightarrow> []
      | Some (source, specifiers) \<Rightarrow>
          if is_test_file (forward_slashes filename) \<or> \<not> isProjectLocalImport source then []
          else concat (map specifier_report specifiers))"

section \<open>Chains of literal ternaries\<close>

fun isLiteral :: "node \<Rightarrow> bool" where
  "isLiteral (Literal i v) = True"
| "isLiteral (TemplateLiteral i quasis expressions) = (expressions = [])"
| "isLiteral _ = False"

definition comparedValue :: "source_code \<Rightarrow> node \<Rightarrow> string option" where
  "comparedValue sc n =
     (case as_binary n of
        None \<Rightarrow> None
      | Some (operator, left, right) \<Rightarrow>
          if operator \<notin> set equalityOperators then None
          else if isLiteral left then Some (getText sc right)
          else if isLiteral right then Some (getText sc left)
          else None)"

text \<open>The loop: the number of tests, or nothing when a test compares something else.\<close>

fun literal_checks :: "source_code \<Rightarrow> string \<Rightarrow> nat \<Rightarrow> node \<Rightarrow> nat option" where
  "literal_checks sc text n (ConditionalExpression i test consequent alternate) =
     (if comparedValue sc test \<noteq> Some text then None else literal_checks sc text (n + 1) alternate)"
| "literal_checks sc text n _ = Some n"

fun ternary :: "node \<Rightarrow> (node \<times> node) option" where
  "ternary (ConditionalExpression i test consequent alternate) = Some (test, alternate)"
| "ternary _ = None"

definition preferEffectMatch :: "source_code \<Rightarrow> loc \<Rightarrow> report list" where
  "preferEffectMatch sc l =
     (case ternary (fst l) of
        None \<Rightarrow> []
      | Some (test, alternate) \<Rightarrow>
          if parent_type l = ''ConditionalExpression'' then []
          else (case comparedValue sc test of
                  None \<Rightarrow> []
                | Some value \<Rightarrow>
                    (case literal_checks sc value 1 alternate of
                       None \<Rightarrow> []
                     | Some literalChecks \<Rightarrow>
                         if literalChecks > 1 then [effect_report (fst l) ''preferMatch''] else [])))"


section \<open>What the rules report\<close>

lemma find_split: "find P xs = Some x \<longleftrightarrow> (\<exists>as bs. xs = as @ x # bs \<and> P x \<and> filter P as = [])"
proof (induction xs)
  case (Cons y ys)
  show ?case
  proof (cases "P y")
    case True
    then show ?thesis by (auto simp: Cons_eq_append_conv split: if_splits)
  next
    case False
    with Cons show ?thesis by (auto simp: Cons_eq_append_conv split: if_splits) (metis append_Cons filter.simps(2))
  qed
qed simp

lemma tagged_construction_iff:
  "noManualTaggedConstruction l = [r] \<longleftrightarrow>
     (\<exists>i before tag after. fst l = ObjectExpression i (before @ tag # after) \<and> writes_tag tag \<and>
        filter writes_tag before = [] \<and> \<not> isMatchPatternObject l \<and> r = effect_report tag ''manualConstruction'')"
proof (cases "as_object (fst l)")
  case None
  then show ?thesis by (auto simp: noManualTaggedConstruction_def)
next
  case (Some ps)
  then obtain i where l: "fst l = ObjectExpression i ps" by auto
  then have "noManualTaggedConstruction l = [r] \<longleftrightarrow>
      \<not> isMatchPatternObject l \<and> (\<exists>tag. find writes_tag ps = Some tag \<and> r = effect_report tag ''manualConstruction'')"
    by (cases "find writes_tag ps") (auto simp: noManualTaggedConstruction_def)
  then show ?thesis unfolding find_split using l by auto
qed

lemma service_name_iff: "service_constructor_name s \<longleftrightarrow> (\<exists>c rest. s = ''make'' @ c # rest \<and> upper_case c)"
proof
  assume "service_constructor_name s"
  then obtain r where "s = ''make'' @ r" and "case drop 4 s of [] \<Rightarrow> False | c # cs \<Rightarrow> upper_case c"
    by (auto simp: service_constructor_name_def starts_with_iff)
  then show "\<exists>c rest. s = ''make'' @ c # rest \<and> upper_case c" by (cases r) auto
next
  assume "\<exists>c rest. s = ''make'' @ c # rest \<and> upper_case c"
  then show "service_constructor_name s" by (auto simp: service_constructor_name_def)
qed

lemma ends_with_iff: "ends_with e s \<longleftrightarrow> (\<exists>p. s = p @ e)"
  unfolding ends_with_def starts_with_iff by (metis rev_append rev_rev_ident)

text \<open>Turning backslashes into slashes does not change what is a test file.\<close>

lemma replace_absent:
  "a \<notin> set e \<Longrightarrow> b \<notin> set e \<Longrightarrow> map (\<lambda>c. if c = a then b else c) p = e \<longleftrightarrow> p = e"
proof (induction p arbitrary: e)
  case (Cons c p)
  then show ?case by (cases e) auto
qed auto

lemma forward_slashes_free:
  "CHR 0x5C \<notin> set e \<Longrightarrow> CHR 0x2F \<notin> set e \<Longrightarrow> forward_slashes p = e \<longleftrightarrow> p = e"
  unfolding forward_slashes_def by (rule replace_absent)

lemma ends_with_slashes:
  "CHR 0x5C \<notin> set e \<Longrightarrow> CHR 0x2F \<notin> set e \<Longrightarrow> ends_with e (forward_slashes file) = ends_with e file"
proof
  assume e: "CHR 0x5C \<notin> set e" "CHR 0x2F \<notin> set e"
  show "ends_with e file" if "ends_with e (forward_slashes file)"
  proof -
    from that obtain p where "forward_slashes file = p @ e" by (auto simp: ends_with_iff)
    then obtain q t where "file = q @ t" "forward_slashes t = e"
      unfolding forward_slashes_def map_eq_append_conv by blast
    with forward_slashes_free[OF e] show ?thesis by (auto simp: ends_with_iff)
  qed
  show "ends_with e (forward_slashes file)" if "ends_with e file"
  proof -
    from that obtain p where "file = p @ e" by (auto simp: ends_with_iff)
    with forward_slashes_free[OF e, of e] show ?thesis by (auto simp: ends_with_iff forward_slashes_def)
  qed
qed

lemma test_file_slashes: "is_test_file (forward_slashes file) = is_test_file file"
proof -
  have "list_all (\<lambda>e. CHR 0x5C \<notin> set e \<and> CHR 0x2F \<notin> set e) test_endings"
    by (simp add: test_endings_def)
  then show ?thesis
    unfolding is_test_file_def list_ex_iff list_all_iff using ends_with_slashes by blast
qed

lemma as_import_Some:
  "as_import n = Some (source, specifiers) \<longleftrightarrow>
     (\<exists>i j. n = ImportDeclaration i (Literal j (StringValue source)) specifiers)"
  by (cases n rule: as_import.cases) simp_all

definition constructor_report :: "node \<Rightarrow> string \<Rightarrow> report" where
  "constructor_report s name =
     \<lparr>report_node = s, message_id = ''serviceConstructorImport'', report_data = [(''name'', name)]\<rparr>"

lemma specifier_report_iff:
  "r \<in> set (specifier_report s) \<longleftrightarrow>
     (\<exists>name. importedName s = Some name \<and> service_constructor_name name \<and> r = constructor_report s name)"
  by (cases "importedName s") (simp_all add: specifier_report_def constructor_report_def)

lemma project_local_iff: "isProjectLocalImport source \<longleftrightarrow> (\<exists>p. source = ''./'' @ p \<or> source = ''../'' @ p)"
  unfolding isProjectLocalImport_def starts_with_iff by blast

lemma service_imports_cases:
  "r \<in> set (noServiceConstructorImports filename l) \<longleftrightarrow>
     (\<exists>source specifiers. as_import (fst l) = Some (source, specifiers) \<and> \<not> is_test_file filename \<and>
        isProjectLocalImport source \<and> (\<exists>s \<in> set specifiers. r \<in> set (specifier_report s)))"
  by (cases "as_import (fst l)") (auto simp: noServiceConstructorImports_def test_file_slashes)

lemma service_imports_iff:
  "r \<in> set (noServiceConstructorImports filename l) \<longleftrightarrow>
     (\<exists>i j source specifiers s c rest. fst l = ImportDeclaration i (Literal j (StringValue source)) specifiers \<and>
        s \<in> set specifiers \<and> importedName s = Some (''make'' @ c # rest) \<and> upper_case c \<and>
        \<not> is_test_file filename \<and> (\<exists>p. source = ''./'' @ p \<or> source = ''../'' @ p) \<and>
        r = constructor_report s (''make'' @ c # rest))"
  unfolding service_imports_cases specifier_report_iff service_name_iff as_import_Some project_local_iff by blast

text \<open>The tests of a chain of ternaries, from the outermost.\<close>

fun chain_tests :: "node \<Rightarrow> node list" where
  "chain_tests (ConditionalExpression i test consequent alternate) = test # chain_tests alternate"
| "chain_tests _ = []"

lemma literal_checks_iff:
  "literal_checks sc v n e =
     (if comparedValue sc ` set (chain_tests e) \<subseteq> {Some v} then Some (n + length (chain_tests e)) else None)"
  by (induction sc v n e rule: literal_checks.induct) simp_all

lemma prefer_match_iff:
  "preferEffectMatch sc l = [r] \<longleftrightarrow>
     (\<exists>text. comparedValue sc ` set (chain_tests (fst l)) = {Some text}) \<and> 2 \<le> length (chain_tests (fst l)) \<and>
     parent_type l \<noteq> ''ConditionalExpression'' \<and> r = effect_report (fst l) ''preferMatch''"
proof (cases "ternary (fst l)")
  case None
  then have "chain_tests (fst l) = []" by (cases "fst l" rule: ternary.cases) simp_all
  with None show ?thesis by (simp add: preferEffectMatch_def)
next
  case (Some p)
  then obtain test alternate where p: "p = (test, alternate)" and tests: "chain_tests (fst l) = test # chain_tests alternate"
    by (cases "fst l" rule: ternary.cases) auto
  have one: "insert a A = {Some v} \<longleftrightarrow> a = Some v \<and> A \<subseteq> {Some v}" for a A and v :: string by auto
  show ?thesis
    using Some p by (auto simp: preferEffectMatch_def tests literal_checks_iff one Suc_le_eq split: option.splits)
qed

section \<open>Properties\<close>

text \<open>
  C35: a comparison or a switch on a tag is reported by exactly one of the two tag rules: by the error
  rule in a handler passed to a broad catch of Effect, by the comparison rule anywhere else.
\<close>
theorem tag_rules_divide:
  "(noManualEffectErrorTag l = [r] \<longleftrightarrow>
     (\<exists>m. branches_on (fst l) m \<and> in_broad_handler l \<and>
        r = effect_report (fst l) (if isReasonTagMember m then ''reason'' else ''tag''))) \<and>
   (noManualTagComparison l = [r] \<longleftrightarrow>
     (\<exists>m. branches_on (fst l) m \<and> \<not> in_broad_handler l \<and>
        r = effect_report (fst l) (if switch_discriminant (fst l) = None then ''manualComparison'' else ''manualSwitch''))) \<and>
   length (noManualEffectErrorTag l @ noManualTagComparison l) = (if Ex (branches_on (fst l)) then 1 else 0)"
  using error_tag_iff tag_comparison_iff tag_rules_partition by blast

text \<open>
  C36: the import rule reports exactly the specifiers of a project-local import whose imported name is
  \<open>make\<close> and a capital letter, unless the file is a test file.
\<close>
theorem noServiceConstructorImports_exact:
  "r \<in> set (noServiceConstructorImports filename l) \<longleftrightarrow>
     (\<exists>i j source specifiers s c rest. fst l = ImportDeclaration i (Literal j (StringValue source)) specifiers \<and>
        s \<in> set specifiers \<and> importedName s = Some (''make'' @ c # rest) \<and> upper_case c \<and>
        \<not> is_test_file filename \<and> (\<exists>p. source = ''./'' @ p \<or> source = ''../'' @ p) \<and>
        r = constructor_report s (''make'' @ c # rest))"
  by (rule service_imports_iff)

text \<open>
  C37: the match rule reports exactly the outermost ternaries of chains of at least two tests that all
  compare one and the same value with a literal.
\<close>
theorem preferEffectMatch_exact:
  "preferEffectMatch sc l = [r] \<longleftrightarrow>
     (\<exists>text. comparedValue sc ` set (chain_tests (fst l)) = {Some text}) \<and> 2 \<le> length (chain_tests (fst l)) \<and>
     parent_type l \<noteq> ''ConditionalExpression'' \<and> r = effect_report (fst l) ''preferMatch''"
  by (rule prefer_match_iff)

end
