(* ===== verification/Padding_Tokens.thy ===== *)
theory Padding_Tokens
  imports Views
begin

text \<open>
  What the vendored padding rule reads of a source text: \<open>vendor/eslint-stylistic/padding-line-ast.ts\<close>,
  the tokens that Oxlint supplies, and texts as lists of UTF-16 code units. Tokenizing, comments and
  the selector engine are Oxlint's: they are functions of \<open>token_source\<close>.
\<close>

section \<open>Outcomes\<close>

text \<open>
  The rule throws on violated invariants, and its loop over tokens ends only if the tokens advance.
  An outcome is a value, a thrown error, or fuel used up.
\<close>

datatype padding_error =
    EmptySequence | MissingSourceLine | MissingPaddingPair | UnsupportedType string | TypeError

datatype 'a outcome = OutOfFuel | Raised padding_error | Returned 'a

fun and_then :: "'a outcome \<Rightarrow> ('a \<Rightarrow> 'b outcome) \<Rightarrow> 'b outcome" where
  "and_then OutOfFuel f = OutOfFuel"
| "and_then (Raised e) f = Raised e"
| "and_then (Returned x) f = f x"

lemma and_then_cong [fundef_cong]:
  "x = y \<Longrightarrow> (\<And>a. y = Returned a \<Longrightarrow> f a = g a) \<Longrightarrow> and_then x f = and_then y g"
  by (cases y) simp_all

lemma and_then_Returned:
  "and_then x f = Returned b \<longleftrightarrow> (\<exists>a. x = Returned a \<and> f a = Returned b)"
  by (cases x) simp_all

definition not_null :: "'a option \<Rightarrow> 'a outcome" where
  "not_null x = (case x of None \<Rightarrow> Raised TypeError | Some a \<Rightarrow> Returned a)"

text \<open>\<open>xs.some(f)\<close> and a loop that collects what it produces.\<close>

fun some_o :: "('a \<Rightarrow> bool outcome) \<Rightarrow> 'a list \<Rightarrow> bool outcome" where
  "some_o f [] = Returned False"
| "some_o f (x # xs) = and_then (f x) (\<lambda>b. if b then Returned True else some_o f xs)"

fun concat_o :: "('a \<Rightarrow> 'b list outcome) \<Rightarrow> 'a list \<Rightarrow> 'b list outcome" where
  "concat_o f [] = Returned []"
| "concat_o f (x # xs) = and_then (f x) (\<lambda>ys. and_then (concat_o f xs) (\<lambda>zs. Returned (ys @ zs)))"

lemma some_o_cong [fundef_cong]:
  "xs = ys \<Longrightarrow> (\<And>x. x \<in> set ys \<Longrightarrow> f x = g x) \<Longrightarrow> some_o f xs = some_o g ys"
proof -
  have "(\<And>x. x \<in> set ys \<Longrightarrow> f x = g x) \<Longrightarrow> some_o f ys = some_o g ys"
    by (induction ys) (simp_all cong: if_cong)
  then show "xs = ys \<Longrightarrow> (\<And>x. x \<in> set ys \<Longrightarrow> f x = g x) \<Longrightarrow> some_o f xs = some_o g ys" by simp
qed

lemma some_o_total: "(\<And>x. x \<in> set xs \<Longrightarrow> f x = Returned (p x)) \<Longrightarrow> some_o f xs = Returned (list_ex p xs)"
  by (induction xs) simp_all

lemma concat_o_total: "(\<And>x. x \<in> set xs \<Longrightarrow> f x = Returned (g x)) \<Longrightarrow> concat_o f xs = Returned (concat (map g xs))"
  by (induction xs) simp_all

section \<open>Code units\<close>

type_synonym code_units = "nat list"

definition units :: "string \<Rightarrow> code_units" where
  "units s = map of_char s"

text \<open>The class \<open>\s\<close> of regular expressions.\<close>

definition space_unit :: "nat \<Rightarrow> bool" where
  "space_unit u \<longleftrightarrow>
     u \<in> {9, 10, 11, 12, 13, 32, 160, 5760, 8232, 8233, 8239, 8287, 12288, 65279} \<or> 8192 \<le> u \<and> u \<le> 8202"

definition LINEBREAKS :: "code_units list" where
  "LINEBREAKS = [[13, 10], [13], [10], [8232], [8233]]"

definition begins :: "'a list \<Rightarrow> 'a list \<Rightarrow> bool" where
  "begins p s = (take (length p) s = p)"

section \<open>Tokens\<close>

text \<open>A token or a comment; comments have type Line or Block.\<close>

record token =
  token_type :: string
  token_value :: string
  token_start :: nat
  token_stop :: nat
  first_line :: nat
  last_line :: nat

text \<open>
  The parts of \<open>sourceCode\<close> and of the selector engine the rule calls. Positions stand for the nodes
  and tokens they delimit: \<open>tokenBefore p\<close> is \<open>getTokenBefore\<close> of what starts at \<open>p\<close>,
  \<open>tokenAfter p\<close> and \<open>tokenOrCommentAfter p\<close> are \<open>getTokenAfter\<close> of what ends at \<open>p\<close>,
  \<open>tokensBetween p q\<close> are the tokens and comments between something that ends at \<open>p\<close> and
  something that starts at \<open>q\<close>.
\<close>

record token_source =
  getFirstToken :: "node \<Rightarrow> token option"
  getLastToken :: "node \<Rightarrow> (token \<Rightarrow> bool) \<Rightarrow> token option"
  tokenBefore :: "nat \<Rightarrow> token option"
  tokenAfter :: "nat \<Rightarrow> token option"
  tokenOrCommentAfter :: "nat \<Rightarrow> token option"
  tokensBetween :: "nat \<Rightarrow> nat \<Rightarrow> token list"
  commentsBefore :: "node \<Rightarrow> comment list"
  getNodeByRangeIndex :: "nat \<Rightarrow> node option"
  code_units :: code_units
  source_lines :: "code_units list"
  matchesSelector :: "string \<Rightarrow> loc \<Rightarrow> bool"

definition text_between :: "token_source \<Rightarrow> nat \<Rightarrow> nat \<Rightarrow> code_units" where
  "text_between sc a b = take (b - a) (drop a (code_units sc))"

definition node_text :: "token_source \<Rightarrow> node \<Rightarrow> code_units" where
  "node_text sc n = text_between sc (start (info n)) (stop (info n))"

text \<open>The lines of the \<open>loc\<close> of a token and of a node.\<close>

definition token_lines :: "token \<Rightarrow> nat \<times> nat" where
  "token_lines t = (first_line t, last_line t)"

definition node_lines :: "node \<Rightarrow> nat \<times> nat" where
  "node_lines n = (start_line (info n), end_line (info n))"

definition isClosingBraceToken :: "token \<Rightarrow> bool" where
  "isClosingBraceToken t = (token_type t = ''Punctuator'' \<and> token_value t = ''}'')"

definition isSemicolonToken :: "token \<Rightarrow> bool" where
  "isSemicolonToken t = (token_type t = ''Punctuator'' \<and> token_value t = '';'')"

definition isNotSemicolonToken :: "token \<Rightarrow> bool" where
  "isNotSemicolonToken t = (\<not> isSemicolonToken t)"

definition isTokenOnSameLine :: "nat \<times> nat \<Rightarrow> nat \<times> nat \<Rightarrow> bool" where
  "isTokenOnSameLine left right = (snd left = fst right)"

definition function_types :: "string list" where
  "function_types = [''FunctionDeclaration'', ''FunctionExpression'', ''ArrowFunctionExpression'']"

definition isFunction :: "node \<Rightarrow> bool" where
  "isFunction n = (node_type n \<in> set function_types)"

definition isSingleLine :: "node \<Rightarrow> bool" where
  "isSingleLine n = (start_line (info n) = end_line (info n))"

fun skipChainExpression :: "node \<Rightarrow> node" where
  "skipChainExpression (ChainExpression i e) = e"
| "skipChainExpression n = n"

text \<open>Only the program has no parent, so the chains of other nodes are not empty.\<close>

definition isTopLevelExpressionStatement :: "loc \<Rightarrow> bool" where
  "isTopLevelExpressionStatement l =
     (node_type (fst l) = ''ExpressionStatement'' \<and>
      (parent_type l = ''Program'' \<or>
       parent_type l = ''BlockStatement'' \<and>
         (case snd l of p # q # rest \<Rightarrow> isFunction q | _ \<Rightarrow> False)))"

definition isParenthesized :: "token_source \<Rightarrow> node \<Rightarrow> bool" where
  "isParenthesized sc n =
     (map_option token_value (tokenBefore sc (start (info n))) = Some ''('' \<and>
      map_option token_value (tokenAfter sc (stop (info n))) = Some '')'')"

end
