(* ===== verification/Statement_Types.thy ===== *)
theory Statement_Types
  imports Padding_Tokens
begin

text \<open>
  The statement types of the padding rule, first half of
  \<open>vendor/eslint-stylistic/padding-line-between-statements.ts\<close>: each is a test on a node, and a table
  names them.
\<close>

section \<open>Testers\<close>

type_synonym tester = "token_source \<Rightarrow> loc \<Rightarrow> bool outcome"

definition newKeywordTester :: "string list \<Rightarrow> string \<Rightarrow> tester" where
  "newKeywordTester types keyword sc l =
     Returned (map_option token_value (getFirstToken sc (fst l)) = Some keyword \<and> node_type (fst l) \<in> set types)"

definition newNodeTypeTester :: "string \<Rightarrow> tester" where
  "newNodeTypeTester t sc l = Returned (node_type (fst l) = t)"

text \<open>Views: the expression of an expression statement, the argument of a unary expression.\<close>

fun statement_expression :: "node \<Rightarrow> node option" where
  "statement_expression (ExpressionStatement i e) = Some e"
| "statement_expression _ = None"

fun unary_argument :: "node \<Rightarrow> node option" where
  "unary_argument (UnaryExpression i operator e) = Some e"
| "unary_argument _ = None"

text \<open>The loop over comma expressions.\<close>

lemma last_size [termination_simp]: "es \<noteq> [] \<Longrightarrow> size (last es) \<le> size_list size (es :: node list)"
  by (rule size_member) simp

fun sequence_end :: "node \<Rightarrow> node outcome" where
  "sequence_end (SequenceExpression i es) = (if es = [] then Raised EmptySequence else sequence_end (last es))"
| "sequence_end n = Returned n"

definition isIIFEStatement :: "node \<Rightarrow> bool outcome" where
  "isIIFEStatement n =
     (case statement_expression n of
        None \<Rightarrow> Returned False
      | Some e \<Rightarrow>
          (let chained = skipChainExpression e;
               expression = (case unary_argument chained of None \<Rightarrow> chained | Some a \<Rightarrow> skipChainExpression a)
           in case as_call expression of
                None \<Rightarrow> Returned False
              | Some (callee, arguments) \<Rightarrow>
                  and_then (sequence_end callee) (\<lambda>f. Returned (isFunction f))))"

text \<open>The initializer of the first declarator.\<close>

fun first_init :: "node \<Rightarrow> node option" where
  "first_init (VariableDeclaration i kind (VariableDeclarator j d e # ds)) = e"
| "first_init _ = None"

fun member_root :: "node \<Rightarrow> node" where
  "member_root (MemberExpression i computed ob p) = member_root ob"
| "member_root n = n"

definition isCJSRequire :: "node \<Rightarrow> bool" where
  "isCJSRequire n =
     (case first_init n of
        None \<Rightarrow> False
      | Some e \<Rightarrow>
          (case as_call (member_root e) of
             None \<Rightarrow> False
           | Some (callee, arguments) \<Rightarrow> as_identifier callee = Some ''require''))"

fun do_while_block :: "node \<Rightarrow> bool" where
  "do_while_block (DoWhileStatement i body test) = (node_type body = ''BlockStatement'')"
| "do_while_block _ = False"

definition isBlockLikeStatement :: tester where
  "isBlockLikeStatement sc l =
     (let n = fst l in
      if do_while_block n then Returned True
      else and_then (isIIFEStatement n) (\<lambda>iife.
        if iife then Returned True
        else (let belongingNode =
                (case getLastToken sc n isNotSemicolonToken of
                   Some lastToken \<Rightarrow>
                     if isClosingBraceToken lastToken then getNodeByRangeIndex sc (token_start lastToken) else None
                 | None \<Rightarrow> None)
              in Returned (case belongingNode of
                   None \<Rightarrow> False
                 | Some m \<Rightarrow> node_type m = ''BlockStatement'' \<or> node_type m = ''SwitchStatement''))))"

definition isDirective :: "token_source \<Rightarrow> loc \<Rightarrow> bool" where
  "isDirective sc l =
     (isTopLevelExpressionStatement l \<and>
      (case statement_expression (fst l) of
         None \<Rightarrow> False
       | Some e \<Rightarrow> as_string_literal e \<noteq> None \<and> \<not> isParenthesized sc e))"

fun body_array :: "node \<Rightarrow> node list option" where
  "body_array (Program i ss) = Some ss"
| "body_array (BlockStatement i ss) = Some ss"
| "body_array (StaticBlock i ss) = Some ss"
| "body_array (TSModuleBlock i ss) = Some ss"
| "body_array (TSInterfaceBody i ss) = Some ss"
| "body_array _ = None"

text \<open>The loop over the siblings up to the node itself.\<close>

fun directives_until :: "token_source \<Rightarrow> loc \<Rightarrow> node list \<Rightarrow> bool" where
  "directives_until sc l [] = True"
| "directives_until sc l (sibling # siblings) =
     (if same_node sibling (fst l) then True
      else if \<not> isDirective sc (sibling, snd l) then False
      else directives_until sc l siblings)"

definition isDirectivePrologue :: "token_source \<Rightarrow> loc \<Rightarrow> bool" where
  "isDirectivePrologue sc l =
     (isDirective sc l \<and>
      (case Option.bind (parent l) (body_array \<circ> fst) of
         None \<Rightarrow> False | Some siblings \<Rightarrow> directives_until sc l siblings))"

text \<open>The loop down the objects of member expressions: the innermost object and its property.\<close>

fun innermost_member :: "node \<Rightarrow> node \<Rightarrow> node \<times> node" where
  "innermost_member (MemberExpression i computed ob p) q = innermost_member ob p"
| "innermost_member n q = (n, q)"

fun assigned :: "node \<Rightarrow> node option" where
  "assigned (ExpressionStatement i (AssignmentExpression j operator left right)) = Some left"
| "assigned _ = None"

definition isCJSExport :: "node \<Rightarrow> bool" where
  "isCJSExport n =
     (case Option.bind (assigned n) as_member of
        None \<Rightarrow> False
      | Some (computed, ob, p) \<Rightarrow>
          (case innermost_member ob p of
             (root, property) \<Rightarrow>
               as_identifier root = Some ''exports'' \<or>
               as_identifier root = Some ''module'' \<and> as_identifier property = Some ''exports''))"

definition isExpression :: "token_source \<Rightarrow> loc \<Rightarrow> bool" where
  "isExpression sc l = (node_type (fst l) = ''ExpressionStatement'' \<and> \<not> isDirectivePrologue sc l)"

text \<open>
  \<open>/^(?:module\s*\.\s*)?exports(?:\s*\.|\s*\[|$)/u\<close> and \<open>/^require\(/u\<close>. White space is followed by a
  character that is none, so taking all of it at once is the only way to match.
\<close>

definition exports_here :: "code_units \<Rightarrow> bool" where
  "exports_here s =
     (begins (units ''exports'') s \<and>
      (let r = drop 7 s in
       case dropWhile space_unit r of [] \<Rightarrow> r = [] | u # us \<Rightarrow> u = 46 \<or> u = 91))"

definition CJS_EXPORT :: "code_units \<Rightarrow> bool" where
  "CJS_EXPORT s =
     (exports_here s \<or>
      begins (units ''module'') s \<and>
      (case dropWhile space_unit (drop 6 s) of
         [] \<Rightarrow> False | u # us \<Rightarrow> u = 46 \<and> exports_here (dropWhile space_unit us)))"

definition CJS_IMPORT :: "code_units \<Rightarrow> bool" where
  "CJS_IMPORT s = begins (units ''require('') s"

section \<open>The tables\<close>

fun declaration_kind_of :: "node \<Rightarrow> string option" where
  "declaration_kind_of (VariableDeclaration i kind ds) = Some kind"
| "declaration_kind_of _ = None"

definition using_tester :: tester where
  "using_tester sc l =
     Returned (declaration_kind_of (fst l) = Some ''using'' \<or> declaration_kind_of (fst l) = Some ''await using'')"

definition MaybeMultilineStatementType :: "(string, tester) js_map" where
  "MaybeMultilineStatementType =
     [(''block-like'', isBlockLikeStatement),
      (''expression'', \<lambda>sc l. Returned (isExpression sc l)),
      (''return'', newKeywordTester [''ReturnStatement''] ''return''),
      (''export'', newKeywordTester
         [''ExportAllDeclaration'', ''ExportDefaultDeclaration'', ''ExportNamedDeclaration''] ''export''),
      (''var'', newKeywordTester [''VariableDeclaration''] ''var''),
      (''let'', newKeywordTester [''VariableDeclaration''] ''let''),
      (''const'', newKeywordTester [''VariableDeclaration''] ''const''),
      (''using'', using_tester),
      (''type'', newKeywordTester [''TSTypeAliasDeclaration''] ''type'')]"

definition on_lines :: "(bool \<Rightarrow> bool) \<Rightarrow> tester \<Rightarrow> tester" where
  "on_lines f test sc l = and_then (test sc l) (\<lambda>b. Returned (b \<and> f (isSingleLine (fst l))))"

definition with_line_modes :: "(string, tester) js_map \<Rightarrow> (string, tester) js_map" where
  "with_line_modes m =
     concat (map (\<lambda>(key, test).
       [(key, test), (''singleline-'' @ key, on_lines id test), (''multiline-'' @ key, on_lines Not test)]) m)"

definition cjs_export_tester :: tester where
  "cjs_export_tester sc l =
     Returned (case assigned (fst l) of None \<Rightarrow> False | Some left \<Rightarrow> CJS_EXPORT (node_text sc left))"

definition cjs_import_tester :: tester where
  "cjs_import_tester sc l =
     Returned (case first_init (fst l) of None \<Rightarrow> False | Some e \<Rightarrow> CJS_IMPORT (node_text sc e))"

definition StatementTypes :: "(string, tester) js_map" where
  "StatementTypes =
     [(''*'', \<lambda>sc l. Returned True),
      (''exports'', \<lambda>sc l. Returned (isCJSExport (fst l))),
      (''require'', \<lambda>sc l. Returned (isCJSRequire (fst l))),
      (''directive'', \<lambda>sc l. Returned (isDirectivePrologue sc l)),
      (''iife'', \<lambda>sc l. isIIFEStatement (fst l)),
      (''block'', newNodeTypeTester ''BlockStatement''),
      (''empty'', newNodeTypeTester ''EmptyStatement''),
      (''function'', newNodeTypeTester ''FunctionDeclaration''),
      (''ts-method'', newNodeTypeTester ''TSMethodSignature''),
      (''break'', newKeywordTester [''BreakStatement''] ''break''),
      (''case'', newKeywordTester [''SwitchCase''] ''case''),
      (''class'', newKeywordTester [''ClassDeclaration''] ''class''),
      (''continue'', newKeywordTester [''ContinueStatement''] ''continue''),
      (''debugger'', newKeywordTester [''DebuggerStatement''] ''debugger''),
      (''default'', newKeywordTester [''SwitchCase'', ''ExportDefaultDeclaration''] ''default''),
      (''do'', newKeywordTester [''DoWhileStatement''] ''do''),
      (''for'', newKeywordTester [''ForStatement'', ''ForInStatement'', ''ForOfStatement''] ''for''),
      (''if'', newKeywordTester [''IfStatement''] ''if''),
      (''import'', newKeywordTester [''ImportDeclaration''] ''import''),
      (''switch'', newKeywordTester [''SwitchStatement''] ''switch''),
      (''throw'', newKeywordTester [''ThrowStatement''] ''throw''),
      (''try'', newKeywordTester [''TryStatement''] ''try''),
      (''while'', newKeywordTester [''WhileStatement'', ''DoWhileStatement''] ''while''),
      (''with'', newKeywordTester [''WithStatement''] ''with''),
      (''cjs-export'', cjs_export_tester),
      (''cjs-import'', cjs_import_tester),
      (''enum'', newKeywordTester [''TSEnumDeclaration''] ''enum''),
      (''interface'', newKeywordTester [''TSInterfaceDeclaration''] ''interface''),
      (''function-overload'', newNodeTypeTester ''TSDeclareFunction'')]
     @ with_line_modes MaybeMultilineStatementType"

end
