(* ===== verification/Padding_Line.thy ===== *)
theory Padding_Line
  imports Statement_Types
begin

text \<open>
  The padding rule, second half of \<open>vendor/eslint-stylistic/padding-line-between-statements.ts\<close>: the
  policy, the blank lines between two statements, the reports with their fixes, and the handlers, which
  keep a stack of scopes with the previous statement of each and a queue of pairs to verify at the end.
\<close>

section \<open>Policies\<close>

datatype padding_type = AnyPadding | NeverPadding | AlwaysPadding

datatype line_mode = AnyLines | SingleLines | MultiLines

datatype statement_option =
    TypeName string
  | Selector string "line_mode option"
  | AnyOf "statement_option list"

record policy_entry =
  blankLine :: padding_type
  prev_option :: statement_option
  next_option :: statement_option

record padding_config =
  policy :: "policy_entry list"
  customStatementTypes :: "(string, tester) js_map"

type_synonym matched_nodes = "(string, nat set) js_map"

text \<open>Labels are taken off before a statement is matched.\<close>

fun unlabelled :: "node \<Rightarrow> node list \<Rightarrow> loc" where
  "unlabelled (LabeledStatement i label body) anc = unlabelled body (LabeledStatement i label body # anc)"
| "unlabelled n anc = (n, anc)"

definition statement_tester :: "padding_config \<Rightarrow> string \<Rightarrow> tester option" where
  "statement_tester cfg t =
     (case get (customStatementTypes cfg) t of Some test \<Rightarrow> Some test | None \<Rightarrow> get StatementTypes t)"

fun match_option :: "padding_config \<Rightarrow> matched_nodes \<Rightarrow> token_source \<Rightarrow> statement_option \<Rightarrow> loc \<Rightarrow> bool outcome" where
  "match_option cfg matched sc (AnyOf types) l =
     some_o (\<lambda>t. match_option cfg matched sc t (unlabelled (fst l) (snd l))) types"
| "match_option cfg matched sc (Selector selector lineMode) l =
     (let inner = fst (unlabelled (fst l) (snd l)) in
      case get matched selector of
        None \<Rightarrow> Returned False
      | Some matchedNodes \<Rightarrow>
          Returned (if nid (info inner) \<notin> matchedNodes then False
                    else if lineMode = Some SingleLines then isSingleLine inner
                    else if lineMode = Some MultiLines then \<not> isSingleLine inner
                    else True))"
| "match_option cfg matched sc (TypeName t) l =
     (case statement_tester cfg t of
        None \<Rightarrow> Raised (UnsupportedType t)
      | Some test \<Rightarrow> test sc (unlabelled (fst l) (snd l)))"

definition entry_matches ::
  "padding_config \<Rightarrow> matched_nodes \<Rightarrow> token_source \<Rightarrow> loc \<Rightarrow> loc \<Rightarrow> policy_entry \<Rightarrow> bool outcome" where
  "entry_matches cfg matched sc prevNode nextNode entry =
     and_then (match_option cfg matched sc (prev_option entry) prevNode)
       (\<lambda>b. if b then match_option cfg matched sc (next_option entry) nextNode else Returned False)"

text \<open>The loop over the entries, from the last one.\<close>

fun first_matching :: "(policy_entry \<Rightarrow> bool outcome) \<Rightarrow> policy_entry list \<Rightarrow> padding_type outcome" where
  "first_matching test [] = Returned AnyPadding"
| "first_matching test (entry # entries) =
     and_then (test entry) (\<lambda>b. if b then Returned (blankLine entry) else first_matching test entries)"

definition getPaddingType ::
  "padding_config \<Rightarrow> matched_nodes \<Rightarrow> token_source \<Rightarrow> loc \<Rightarrow> loc \<Rightarrow> padding_type outcome" where
  "getPaddingType cfg matched sc prevNode nextNode =
     first_matching (entry_matches cfg matched sc prevNode nextNode) (rev (policy cfg))"

section \<open>Blank lines\<close>

definition isSemicolonLessStyle :: "node \<Rightarrow> token \<Rightarrow> token \<Rightarrow> token \<Rightarrow> bool" where
  "isSemicolonLessStyle n prevToken semiToken nextToken \<longleftrightarrow>
     start (info n) \<le> token_start prevToken \<and> isSemicolonToken semiToken \<and>
     \<not> isTokenOnSameLine (token_lines prevToken) (token_lines semiToken) \<and>
     isTokenOnSameLine (token_lines semiToken) (token_lines nextToken)"

definition actual_last :: "node \<Rightarrow> token option \<Rightarrow> token \<Rightarrow> token option \<Rightarrow> token" where
  "actual_last n prevToken semiToken nextToken =
     (case (prevToken, nextToken) of
        (Some p, Some q) \<Rightarrow> if isSemicolonLessStyle n p semiToken q then p else semiToken
      | _ \<Rightarrow> semiToken)"

definition getActualLastToken :: "token_source \<Rightarrow> node \<Rightarrow> token outcome" where
  "getActualLastToken sc n =
     and_then (not_null (getLastToken sc n (\<lambda>t. True))) (\<lambda>semiToken.
       Returned (actual_last n (tokenBefore sc (token_start semiToken)) semiToken
                   (tokenAfter sc (token_stop semiToken))))"

text \<open>Lines at least two apart have a blank line between them.\<close>

definition blank_between :: "nat \<times> nat \<Rightarrow> nat \<times> nat \<Rightarrow> bool" where
  "blank_between left right \<longleftrightarrow> snd left + 2 \<le> fst right"

fun padding_loop :: "token_source \<Rightarrow> nat \<Rightarrow> token \<Rightarrow> node \<Rightarrow> (token \<times> token) list \<Rightarrow> (token \<times> token) list outcome" where
  "padding_loop sc 0 prevToken nextNode pairs = OutOfFuel"
| "padding_loop sc (Suc fuel) prevToken nextNode pairs =
     and_then (not_null (tokenOrCommentAfter sc (token_stop prevToken))) (\<lambda>token.
       let pairs' = (if blank_between (token_lines prevToken) (token_lines token)
                     then pairs @ [(prevToken, token)] else pairs)
       in if token_start token < start (info nextNode) then padding_loop sc fuel token nextNode pairs'
          else Returned pairs')"

definition getPaddingLineSequences :: "token_source \<Rightarrow> nat \<Rightarrow> node \<Rightarrow> node \<Rightarrow> (token \<times> token) list outcome" where
  "getPaddingLineSequences sc fuel prevNode nextNode =
     and_then (getActualLastToken sc prevNode) (\<lambda>prevToken.
       if blank_between (token_lines prevToken) (node_lines nextNode)
       then padding_loop sc fuel prevToken nextNode [] else Returned [])"

section \<open>Removing blank lines from a text\<close>

definition LT :: "nat \<Rightarrow> bool" where
  "LT u \<longleftrightarrow> u \<in> set (concat LINEBREAKS)"

text \<open>All ways in which \<open>\s*LT\<close> matches at the start, shortest first, with the rest of the text.\<close>

fun breaks :: "code_units \<Rightarrow> (code_units \<times> code_units) list" where
  "breaks [] = []"
| "breaks (u # us) =
     (if LT u then [([u], us)] else []) @
     (if space_unit u then map (\<lambda>(taken, rest). (u # taken, rest)) (breaks us) else [])"

text \<open>
  \<open>PADDING_LINE_SEQUENCE\<close>, \<open>^(\s*?LT)\s*LT(\s*;?)$\<close>, with the choices in the order of the
  engine: the first group as short as possible, the rest of the blank lines as long as possible.
\<close>

definition padding_tail :: "code_units \<Rightarrow> bool" where
  "padding_tail s \<longleftrightarrow> dropWhile space_unit s \<in> {[], [59]}"

definition PADDING_LINE_SEQUENCE :: "code_units \<Rightarrow> (code_units \<times> code_units) option" where
  "PADDING_LINE_SEQUENCE s =
     first_some (\<lambda>(trailingSpaces, rest).
       map_option (\<lambda>(blank, indentSpaces). (trailingSpaces, indentSpaces))
         (find (\<lambda>(blank, indentSpaces). padding_tail indentSpaces) (rev (breaks rest)))) (breaks s)"

definition replacerToRemovePaddingLines :: "code_units \<Rightarrow> code_units \<Rightarrow> code_units" where
  "replacerToRemovePaddingLines trailingSpaces indentSpaces = trailingSpaces @ indentSpaces"

definition remove_padding :: "code_units \<Rightarrow> code_units" where
  "remove_padding s =
     (case PADDING_LINE_SEQUENCE s of
        None \<Rightarrow> s | Some (trailingSpaces, indentSpaces) \<Rightarrow> replacerToRemovePaddingLines trailingSpaces indentSpaces)"

section \<open>Reports and fixes\<close>

datatype report_loc = NodeLoc node | FirstLineLoc node nat

datatype text_fix = InsertTextAfter token code_units | ReplaceTextRange nat nat code_units

record spacing_report =
  spacing_node :: node
  spacing_message :: string
  spacing_loc :: report_loc
  spacing_fix :: "text_fix option"

definition getReportLoc :: "token_source \<Rightarrow> node \<Rightarrow> report_loc outcome" where
  "getReportLoc sc n =
     (if isSingleLine n then Returned (NodeLoc n)
      else (let line = start_line (info n) in
            case (if line = 0 then None else at (source_lines sc) (line - 1)) of
              None \<Rightarrow> Raised MissingSourceLine
            | Some sourceLine \<Rightarrow> Returned (FirstLineLoc n (length sourceLine))))"

definition never_fix :: "token_source \<Rightarrow> (token \<times> token) list \<Rightarrow> text_fix option outcome" where
  "never_fix sc paddingLines =
     (case paddingLines of
        [] \<Rightarrow> Raised MissingPaddingPair
      | [(prevToken, nextToken)] \<Rightarrow>
          (let s = token_stop prevToken; e = token_start nextToken
           in Returned (Some (ReplaceTextRange s e (remove_padding (text_between sc s e)))))
      | _ \<Rightarrow> Returned None)"

definition verifyForNever :: "token_source \<Rightarrow> node \<Rightarrow> (token \<times> token) list \<Rightarrow> spacing_report list outcome" where
  "verifyForNever sc nextNode paddingLines =
     (if paddingLines = [] then Returned []
      else and_then (getReportLoc sc nextNode) (\<lambda>location. and_then (never_fix sc paddingLines) (\<lambda>f.
             Returned [\<lparr>spacing_node = nextNode, spacing_message = ''unexpectedBlankLine'',
                        spacing_loc = location, spacing_fix = f\<rparr>])))"

text \<open>
  The search for the first token on another line, whose filter moves \<open>prevToken\<close> over the comments
  that trail the previous statement.
\<close>

fun skip_trailing :: "token \<Rightarrow> token list \<Rightarrow> token \<times> token option" where
  "skip_trailing prevToken [] = (prevToken, None)"
| "skip_trailing prevToken (t # ts) =
     (if isTokenOnSameLine (token_lines prevToken) (token_lines t) then skip_trailing t ts
      else (prevToken, Some t))"

definition always_fix :: "token_source \<Rightarrow> node \<Rightarrow> node \<Rightarrow> text_fix option outcome" where
  "always_fix sc prevNode nextNode =
     and_then (getActualLastToken sc prevNode) (\<lambda>lastToken.
       let (prevToken, found) = skip_trailing lastToken (tokensBetween sc (token_stop lastToken) (start (info nextNode)));
           nextLines = (case found of Some t \<Rightarrow> token_lines t | None \<Rightarrow> node_lines nextNode)
       in Returned (Some (InsertTextAfter prevToken
            (if isTokenOnSameLine (token_lines prevToken) nextLines then [10, 10] else [10]))))"

definition verifyForAlways :: "token_source \<Rightarrow> node \<Rightarrow> node \<Rightarrow> (token \<times> token) list \<Rightarrow> spacing_report list outcome" where
  "verifyForAlways sc prevNode nextNode paddingLines =
     (if paddingLines \<noteq> [] then Returned []
      else and_then (getReportLoc sc nextNode) (\<lambda>location. and_then (always_fix sc prevNode nextNode) (\<lambda>f.
             Returned [\<lparr>spacing_node = nextNode, spacing_message = ''expectedBlankLine'',
                        spacing_loc = location, spacing_fix = f\<rparr>])))"

definition PaddingTypes ::
  "padding_type \<Rightarrow> token_source \<Rightarrow> node \<Rightarrow> node \<Rightarrow> (token \<times> token) list \<Rightarrow> spacing_report list outcome" where
  "PaddingTypes t sc prevNode nextNode paddingLines =
     (case t of
        AnyPadding \<Rightarrow> Returned []
      | NeverPadding \<Rightarrow> verifyForNever sc nextNode paddingLines
      | AlwaysPadding \<Rightarrow> verifyForAlways sc prevNode nextNode paddingLines)"

section \<open>The handlers\<close>

text \<open>A scope holds the previous statement; \<open>scopeInfo\<close> is the innermost scope with those above it.\<close>

record padding_state =
  scopeInfo :: "loc option list"
  pendingPairs :: "(loc \<times> loc) list"
  selectorMatchedNodes :: matched_nodes

fun collectSelectorOption :: "statement_option \<Rightarrow> matched_nodes \<Rightarrow> matched_nodes" where
  "collectSelectorOption (AnyOf types) m = fold collectSelectorOption types m"
| "collectSelectorOption (Selector selector lineMode) m = put selector {} m"
| "collectSelectorOption (TypeName t) m = m"

definition create_padding :: "padding_config \<Rightarrow> padding_state" where
  "create_padding cfg =
     \<lparr>scopeInfo = [], pendingPairs = [],
      selectorMatchedNodes =
        fold (\<lambda>entry m. collectSelectorOption (next_option entry) (collectSelectorOption (prev_option entry) m))
          (policy cfg) []\<rparr>"

definition enterScope :: "padding_state \<Rightarrow> padding_state" where
  "enterScope st = st\<lparr>scopeInfo := None # scopeInfo st\<rparr>"

definition exitScope :: "padding_state \<Rightarrow> padding_state" where
  "exitScope st = st\<lparr>scopeInfo := tl (scopeInfo st)\<rparr>"

definition statement_lists :: "string list" where
  "statement_lists =
     [''BlockStatement'', ''Program'', ''StaticBlock'', ''SwitchCase'', ''SwitchStatement'',
      ''TSInterfaceBody'', ''TSModuleBlock'', ''TSTypeLiteral'']"

definition verify :: "loc \<Rightarrow> padding_state \<Rightarrow> padding_state outcome" where
  "verify l st =
     (if snd l = [] \<or> parent_type l \<notin> set statement_lists then Returned st
      else (case scopeInfo st of
              [] \<Rightarrow> Raised TypeError
            | prevNode # outer \<Rightarrow>
                Returned (st\<lparr>pendingPairs := pendingPairs st @ (case prevNode of None \<Rightarrow> [] | Some p \<Rightarrow> [(p, l)]),
                             scopeInfo := Some l # outer\<rparr>)))"

definition verifyThenEnterScope :: "loc \<Rightarrow> padding_state \<Rightarrow> padding_state outcome" where
  "verifyThenEnterScope l st = and_then (verify l st) (\<lambda>st'. Returned (enterScope st'))"

definition verify_pair ::
  "padding_config \<Rightarrow> matched_nodes \<Rightarrow> token_source \<Rightarrow> nat \<Rightarrow> loc \<times> loc \<Rightarrow> spacing_report list outcome" where
  "verify_pair cfg matched sc fuel pair =
     (case pair of (prevNode, nextNode) \<Rightarrow>
        and_then (getPaddingType cfg matched sc prevNode nextNode) (\<lambda>t.
          and_then (getPaddingLineSequences sc fuel (fst prevNode) (fst nextNode)) (\<lambda>paddingLines.
            PaddingTypes t sc (fst prevNode) (fst nextNode) paddingLines)))"

definition verifyPendingPairs ::
  "padding_config \<Rightarrow> token_source \<Rightarrow> nat \<Rightarrow> padding_state \<Rightarrow> spacing_report list outcome" where
  "verifyPendingPairs cfg sc fuel st =
     concat_o (verify_pair cfg (selectorMatchedNodes st) sc fuel) (pendingPairs st)"

text \<open>The types whose nodes open a scope, and those that are verified before they do.\<close>

definition plain_scopes :: "string list" where
  "plain_scopes =
     [''Program'', ''BlockStatement'', ''SwitchStatement'', ''StaticBlock'',
      ''TSInterfaceBody'', ''TSModuleBlock'', ''TSTypeLiteral'']"

definition verified_scopes :: "string list" where
  "verified_scopes = [''SwitchCase'', ''TSDeclareFunction'', ''TSMethodSignature'']"

definition note_selectors :: "token_source \<Rightarrow> loc \<Rightarrow> matched_nodes \<Rightarrow> matched_nodes" where
  "note_selectors sc l m =
     map (\<lambda>(selector, ns). (selector, if matchesSelector sc selector l then insert (nid (info (fst l))) ns else ns)) m"

text \<open>
  Entering a node. The selector \<open>:statement\<close> is less specific than the name of a node type, so its
  handler runs first.
\<close>

definition on_enter :: "token_source \<Rightarrow> loc \<Rightarrow> padding_state \<Rightarrow> padding_state outcome" where
  "on_enter sc l st =
     and_then (if matchesSelector sc '':statement'' l then verify l st else Returned st) (\<lambda>st1.
       and_then (if node_type (fst l) \<in> set plain_scopes then Returned (enterScope st1)
                 else if node_type (fst l) \<in> set verified_scopes then verifyThenEnterScope l st1
                 else Returned st1) (\<lambda>st2.
         Returned (st2\<lparr>selectorMatchedNodes := note_selectors sc l (selectorMatchedNodes st2)\<rparr>)))"

definition on_exit ::
  "padding_config \<Rightarrow> token_source \<Rightarrow> nat \<Rightarrow> loc \<Rightarrow> padding_state \<Rightarrow> (padding_state \<times> spacing_report list) outcome" where
  "on_exit cfg sc fuel l st =
     (if node_type (fst l) = ''Program''
      then and_then (verifyPendingPairs cfg sc fuel st) (\<lambda>rs. Returned (exitScope st, rs))
      else if node_type (fst l) \<in> set (plain_scopes @ verified_scopes) then Returned (exitScope st, [])
      else Returned (st, []))"

datatype event = Enter loc | Exit loc

fun padding_step ::
  "padding_config \<Rightarrow> token_source \<Rightarrow> nat \<Rightarrow> padding_state \<Rightarrow> event \<Rightarrow> (padding_state \<times> spacing_report list) outcome" where
  "padding_step cfg sc fuel st (Enter l) = and_then (on_enter sc l st) (\<lambda>st'. Returned (st', []))"
| "padding_step cfg sc fuel st (Exit l) = on_exit cfg sc fuel l st"

text \<open>The walk of the linter over a tree, and a run of the rule over it.\<close>

fun events :: "node \<Rightarrow> node list \<Rightarrow> event list" where
  "events n anc = Enter (n, anc) # concat (map (\<lambda>c. events c (n # anc)) (children n)) @ [Exit (n, anc)]"

declare events.simps [simp del]

fun run_padding ::
  "padding_config \<Rightarrow> token_source \<Rightarrow> nat \<Rightarrow> padding_state \<Rightarrow> event list \<Rightarrow> (padding_state \<times> spacing_report list) outcome" where
  "run_padding cfg sc fuel st [] = Returned (st, [])"
| "run_padding cfg sc fuel st (e # es) =
     and_then (padding_step cfg sc fuel st e) (\<lambda>(st', rs).
       and_then (run_padding cfg sc fuel st' es) (\<lambda>(st'', rs'). Returned (st'', rs @ rs')))"

definition createPaddingLineRule ::
  "padding_config \<Rightarrow> token_source \<Rightarrow> nat \<Rightarrow> node \<Rightarrow> spacing_report list outcome" where
  "createPaddingLineRule cfg sc fuel program =
     and_then (run_padding cfg sc fuel (create_padding cfg) (events program [])) (\<lambda>(st, rs). Returned rs)"

end
