(* ===== verification/Padding_Run.thy ===== *)
theory Padding_Run
  imports Padding_Line "HOL-Library.Multiset"
begin

text \<open>
  A run of the padding rule over a program: the stack of scopes is balanced over every subtree, no
  handler throws, and the queue holds the adjacent statements of every statement list of the program.
\<close>

section \<open>Adjacent statements\<close>

definition verified :: "token_source \<Rightarrow> loc \<Rightarrow> bool" where
  "verified sc l \<longleftrightarrow>
     snd l \<noteq> [] \<and> parent_type l \<in> set statement_lists \<and>
     (matchesSelector sc '':statement'' l \<or> node_type (fst l) \<in> set verified_scopes)"

definition adjacent :: "'a list \<Rightarrow> ('a \<times> 'a) list" where
  "adjacent xs = zip xs (tl xs)"

lemma adjacent_simps [simp]: "adjacent [] = []" "adjacent [x] = []" "adjacent (x # y # ys) = (x, y) # adjacent (y # ys)"
  by (simp_all add: adjacent_def)

definition statements_of :: "token_source \<Rightarrow> loc \<Rightarrow> loc list" where
  "statements_of sc l = filter (verified sc) (map (child_loc l) (children (fst l)))"

definition adjacent_statements :: "token_source \<Rightarrow> node \<Rightarrow> (loc \<times> loc) list" where
  "adjacent_statements sc program = concat (map (adjacent \<circ> statements_of sc) (locations program []))"

text \<open>
  The selector class of statements is one of \<open>:statement\<close>'s documented types; it holds none of the
  types the rule verifies by name. Only the root of a tree is a program.
\<close>

definition statement_class :: "token_source \<Rightarrow> bool" where
  "statement_class sc \<longleftrightarrow>
     (\<forall>l. node_type (fst l) \<in> set verified_scopes \<longrightarrow> \<not> matchesSelector sc '':statement'' l)"

definition program_free :: "node \<Rightarrow> node list \<Rightarrow> bool" where
  "program_free n anc \<longleftrightarrow> list_all (\<lambda>l. node_type (fst l) \<noteq> ''Program'') (locations n anc)"

definition only_program :: "node \<Rightarrow> bool" where
  "only_program program \<longleftrightarrow>
     node_type program = ''Program'' \<and> list_all (\<lambda>c. program_free c [program]) (children program)"

lemma program_free_child:
  "program_free n anc \<longleftrightarrow> node_type n \<noteq> ''Program'' \<and> list_all (\<lambda>c. program_free c (n # anc)) (children n)"
  by (auto simp: program_free_def locations.simps[of n anc] list_all_iff)

section \<open>One step\<close>

definition link :: "loc option \<Rightarrow> loc \<Rightarrow> (loc \<times> loc) list" where
  "link prev l = (case prev of None \<Rightarrow> [] | Some p \<Rightarrow> [(p, l)])"

lemma link_simps [simp]: "link None l = []" "link (Some p) l = [(p, l)]"
  by (simp_all add: link_def)

definition opens :: "node \<Rightarrow> bool" where
  "opens n \<longleftrightarrow> node_type n \<in> set (plain_scopes @ verified_scopes)"

lemma lists_open: "node_type n \<in> set statement_lists \<Longrightarrow> opens n"
  by (auto simp: opens_def statement_lists_def plain_scopes_def verified_scopes_def)

text \<open>The state after the handlers of a node that is entered under the scopes \<open>prev # outer\<close>.\<close>

definition seen :: "token_source \<Rightarrow> loc \<Rightarrow> padding_state \<Rightarrow> padding_state" where
  "seen sc l st =
     (if verified sc l
      then st\<lparr>pendingPairs := pendingPairs st @ link (hd (scopeInfo st)) l,
             scopeInfo := Some l # tl (scopeInfo st)\<rparr>
      else st)"

lemma verify_seen:
  "scopeInfo st \<noteq> [] \<Longrightarrow> snd l \<noteq> [] \<Longrightarrow> parent_type l \<in> set statement_lists \<Longrightarrow>
     matchesSelector sc '':statement'' l \<or> node_type (fst l) \<in> set verified_scopes \<Longrightarrow>
     verify l st = Returned (seen sc l st)"
  by (cases "scopeInfo st") (auto simp: verify_def seen_def verified_def link_def split: option.split)

lemma verify_unlisted: "snd l = [] \<or> parent_type l \<notin> set statement_lists \<Longrightarrow> verify l st = Returned st"
  by (auto simp: verify_def)

lemma scope_types_disjoint: "t \<in> set plain_scopes \<Longrightarrow> t \<notin> set verified_scopes"
  by (auto simp: plain_scopes_def verified_scopes_def)

lemma on_enter_seen:
  assumes "statement_class sc" and "verified sc l \<longrightarrow> scopeInfo st \<noteq> []"
  shows "on_enter sc l st =
    (let st' = (if opens (fst l) then enterScope (seen sc l st) else seen sc l st)
     in Returned (st'\<lparr>selectorMatchedNodes := note_selectors sc l (selectorMatchedNodes st')\<rparr>))"
proof (cases "snd l \<noteq> [] \<and> parent_type l \<in> set statement_lists")
  case False
  then have "seen sc l st = st" "verify l st' = Returned st'" for st'
    using verify_unlisted by (auto simp: seen_def verified_def)
  then show ?thesis
    by (auto simp: on_enter_def verifyThenEnterScope_def opens_def Let_def)
next
  case True
  show ?thesis
  proof (cases "node_type (fst l) \<in> set verified_scopes")
    case named: True
    with assms(1) have "\<not> matchesSelector sc '':statement'' l" unfolding statement_class_def by blast
    moreover have "verify l st = Returned (seen sc l st)"
      using True named assms(2) by (intro verify_seen) (auto simp: verified_def)
    ultimately show ?thesis
      using named scope_types_disjoint by (auto simp: on_enter_def verifyThenEnterScope_def opens_def Let_def)
  next
    case False
    show ?thesis
    proof (cases "matchesSelector sc '':statement'' l")
      case sel: True
      have "verify l st = Returned (seen sc l st)"
        using True sel assms(2) by (intro verify_seen) (auto simp: verified_def)
      with sel False show ?thesis by (auto simp: on_enter_def opens_def Let_def)
    next
      case sel: False
      with False have "seen sc l st = st" by (auto simp: seen_def verified_def)
      with sel False show ?thesis by (auto simp: on_enter_def opens_def Let_def)
    qed
  qed
qed

lemma run_append:
  "run_padding cfg sc fuel st es = Returned (st', rs) \<Longrightarrow>
     run_padding cfg sc fuel st (es @ es') =
       and_then (run_padding cfg sc fuel st' es') (\<lambda>(st'', rs'). Returned (st'', rs @ rs'))"
proof (induction es arbitrary: st rs)
  case Nil
  then show ?case by (cases "run_padding cfg sc fuel st' es'") auto
next
  case (Cons e es)
  from Cons.prems obtain st1 r1 r2 where step: "padding_step cfg sc fuel st e = Returned (st1, r1)"
    and rest: "run_padding cfg sc fuel st1 es = Returned (st', r2)" and rs: "rs = r1 @ r2"
    by (auto simp: and_then_Returned)
  from Cons.IH[OF rest] show ?case
    by (cases "run_padding cfg sc fuel st' es'") (auto simp: step rs)
qed


section \<open>Whole subtrees\<close>

text \<open>The pairs queued by statements \<open>vs\<close> met one after the other, after a statement \<open>prev\<close>.\<close>

fun links :: "loc option \<Rightarrow> loc list \<Rightarrow> (loc \<times> loc) list" where
  "links prev [] = []"
| "links prev (v # vs) = link prev v @ links (Some v) vs"

lemma links_Some: "links (Some v) vs = adjacent (v # vs)"
  by (induction vs arbitrary: v) simp_all

lemma links_None: "links None vs = adjacent vs"
  by (cases vs) (simp_all add: links_Some)

definition advance :: "loc list \<Rightarrow> loc option list \<Rightarrow> loc option list" where
  "advance vs stack = (if vs = [] then stack else Some (last vs) # tl stack)"

lemma links_append: "links prev (vs @ ws) = links prev vs @ links (if vs = [] then prev else Some (last vs)) ws"
  by (induction prev vs rule: links.induct) simp_all

text \<open>
  The effect of a walk over the locations \<open>ls\<close>, whose topmost verified nodes are \<open>vs\<close>: the scopes
  above are as before, the innermost one remembers the last statement.
\<close>

definition effect :: "token_source \<Rightarrow> loc list \<Rightarrow> loc list \<Rightarrow> padding_state \<Rightarrow> padding_state \<Rightarrow> bool" where
  "effect sc vs ls st st' \<longleftrightarrow>
     scopeInfo st' = advance vs (scopeInfo st) \<and>
     mset (pendingPairs st') = mset (pendingPairs st) + mset (links (hd (scopeInfo st)) vs) +
       mset (concat (map (adjacent \<circ> statements_of sc) ls)) \<and>
     selectorMatchedNodes st' = fold (note_selectors sc) ls (selectorMatchedNodes st)"

lemma effect_nothing: "effect sc [] [] st st"
  by (simp add: effect_def advance_def)

lemma effect_append:
  assumes "effect sc vs ls st st1" and "effect sc ws ks st1 st2"
  shows "effect sc (vs @ ws) (ls @ ks) st st2"
proof -
  from assms(1) have scopes: "scopeInfo st1 = advance vs (scopeInfo st)" by (simp add: effect_def)
  then have "hd (scopeInfo st1) = (if vs = [] then hd (scopeInfo st) else Some (last vs))"
    "advance ws (scopeInfo st1) = advance (vs @ ws) (scopeInfo st)"
    by (simp_all add: advance_def)
  with assms show ?thesis by (simp add: effect_def links_append)
qed

definition walks ::
  "padding_config \<Rightarrow> token_source \<Rightarrow> nat \<Rightarrow> loc list \<Rightarrow> loc list \<Rightarrow> event list \<Rightarrow> bool" where
  "walks cfg sc fuel vs ls es \<longleftrightarrow>
     (\<forall>st. (vs \<noteq> [] \<longrightarrow> scopeInfo st \<noteq> []) \<longrightarrow>
       (\<exists>st'. run_padding cfg sc fuel st es = Returned (st', []) \<and> effect sc vs ls st st'))"

lemma walks_nothing: "walks cfg sc fuel [] [] []"
  by (simp add: walks_def effect_nothing)

lemma walks_append:
  assumes "walks cfg sc fuel vs ls es" and "walks cfg sc fuel ws ks es'"
  shows "walks cfg sc fuel (vs @ ws) (ls @ ks) (es @ es')"
  unfolding walks_def
proof (intro allI impI)
  fix st :: padding_state assume scopes: "vs @ ws \<noteq> [] \<longrightarrow> scopeInfo st \<noteq> []"
  with assms(1) obtain st1 where run1: "run_padding cfg sc fuel st es = Returned (st1, [])"
    and eff1: "effect sc vs ls st st1" by (auto simp: walks_def)
  then have "ws \<noteq> [] \<longrightarrow> scopeInfo st1 \<noteq> []" using scopes by (auto simp: effect_def advance_def)
  with assms(2) obtain st2 where run2: "run_padding cfg sc fuel st1 es' = Returned (st2, [])"
    and eff2: "effect sc ws ks st1 st2" by (auto simp: walks_def)
  from run_append[OF run1, of es'] run2 have "run_padding cfg sc fuel st (es @ es') = Returned (st2, [])" by simp
  with effect_append[OF eff1 eff2]
  show "\<exists>st'. run_padding cfg sc fuel st (es @ es') = Returned (st', []) \<and> effect sc (vs @ ws) (ls @ ks) st st'"
    by blast
qed

lemma walks_concat:
  "(\<And>x. x \<in> set xs \<Longrightarrow> walks cfg sc fuel (vs x) (ls x) (es x)) \<Longrightarrow>
     walks cfg sc fuel (concat (map vs xs)) (concat (map ls xs)) (concat (map es xs))"
  by (induction xs) (simp_all add: walks_nothing walks_append)

lemma statements_of_concat: "statements_of sc l = concat (map (\<lambda>c. filter (verified sc) [child_loc l c]) (children (fst l)))"
proof -
  have "filter P (map f xs) = concat (map (\<lambda>x. filter P [f x]) xs)" for P :: "loc \<Rightarrow> bool" and f and xs :: "node list"
    by (induction xs) simp_all
  then show ?thesis by (simp add: statements_of_def)
qed

lemma unlisted_statements: "\<not> opens (fst l) \<Longrightarrow> statements_of sc l = []"
  using lists_open by (cases l) (auto simp: statements_of_def filter_empty_conv verified_def)

text \<open>Between the enter and the exit event of a node, its scope is the innermost one.\<close>

lemma walks_node:
  assumes "statement_class sc" and "node_type n \<noteq> ''Program''"
    and below: "walks cfg sc fuel (statements_of sc (n, anc)) ls es"
  shows "walks cfg sc fuel (filter (verified sc) [(n, anc)]) ((n, anc) # ls) (Enter (n, anc) # es @ [Exit (n, anc)])"
  unfolding walks_def
proof (intro allI impI)
  fix st :: padding_state assume scopes: "filter (verified sc) [(n, anc)] \<noteq> [] \<longrightarrow> scopeInfo st \<noteq> []"
  let ?seen = "seen sc (n, anc) st"
  let ?open = "if opens n then enterScope ?seen else ?seen"
  let ?st1 = "?open\<lparr>selectorMatchedNodes := note_selectors sc (n, anc) (selectorMatchedNodes ?open)\<rparr>"
  from scopes have enter: "on_enter sc (n, anc) st = Returned ?st1"
    by (subst on_enter_seen[OF assms(1)]) (auto simp: Let_def split: if_splits)
  have "statements_of sc (n, anc) \<noteq> [] \<longrightarrow> scopeInfo ?st1 \<noteq> []"
    using unlisted_statements[of "(n, anc)" sc] by (auto simp: enterScope_def)
  with below obtain st2 where run: "run_padding cfg sc fuel ?st1 es = Returned (st2, [])"
    and eff: "effect sc (statements_of sc (n, anc)) ls ?st1 st2" unfolding walks_def by blast
  let ?st3 = "if opens n then exitScope st2 else st2"
  have exit: "on_exit cfg sc fuel (n, anc) st2 = Returned (?st3, [])"
    using assms(2) by (simp add: on_exit_def opens_def)
  have "run_padding cfg sc fuel st (Enter (n, anc) # es @ [Exit (n, anc)]) = Returned (?st3, [])"
    using run_append[OF run, of "[Exit (n, anc)]"] by (simp add: enter exit)
  moreover have "effect sc (filter (verified sc) [(n, anc)]) ((n, anc) # ls) st ?st3"
  proof (cases "opens n")
    case True
    with eff show ?thesis
      by (simp add: effect_def advance_def seen_def enterScope_def exitScope_def links_None)
  next
    case False
    with eff unlisted_statements[of "(n, anc)" sc] show ?thesis
      by (simp add: effect_def advance_def seen_def)
  qed
  ultimately show "\<exists>st'. run_padding cfg sc fuel st (Enter (n, anc) # es @ [Exit (n, anc)]) = Returned (st', []) \<and>
      effect sc (filter (verified sc) [(n, anc)]) ((n, anc) # ls) st st'" by blast
qed

lemma walks_children:
  "(\<And>c. c \<in> set (children n) \<Longrightarrow>
      walks cfg sc fuel (filter (verified sc) [(c, n # anc)]) (locations c (n # anc)) (events c (n # anc))) \<Longrightarrow>
   walks cfg sc fuel (statements_of sc (n, anc)) (concat (map (\<lambda>c. locations c (n # anc)) (children n)))
     (concat (map (\<lambda>c. events c (n # anc)) (children n)))"
  unfolding statements_of_concat fst_conv child_loc.simps by (rule walks_concat)

lemma walks_subtree:
  assumes "statement_class sc"
  shows "program_free n anc \<Longrightarrow> walks cfg sc fuel (filter (verified sc) [(n, anc)]) (locations n anc) (events n anc)"
proof (induction n anc rule: events.induct)
  case (1 n anc)
  from "1.prems" have n: "node_type n \<noteq> ''Program''" and cs: "program_free c (n # anc)" if "c \<in> set (children n)" for c
    using that by (auto simp: program_free_child[of n anc] list_all_iff)
  from "1.prems" have "node_type n \<noteq> ''Program''" by (simp add: program_free_child[of n anc])
  moreover have "walks cfg sc fuel (statements_of sc (n, anc)) (concat (map (\<lambda>c. locations c (n # anc)) (children n)))
     (concat (map (\<lambda>c. events c (n # anc)) (children n)))"
    by (rule walks_children) (rule "1.IH"[OF _ cs])
  ultimately show ?case
    by (subst events.simps, subst locations.simps) (rule walks_node[OF assms])
qed

text \<open>The nodes noted for the selectors of the policy are those that match, wherever they are.\<close>

fun selectors_of :: "statement_option \<Rightarrow> string set" where
  "selectors_of (AnyOf types) = \<Union> (selectors_of ` set types)"
| "selectors_of (Selector selector lineMode) = {selector}"
| "selectors_of (TypeName t) = {}"

definition policy_selectors :: "padding_config \<Rightarrow> string set" where
  "policy_selectors cfg = (\<Union>entry \<in> set (policy cfg). selectors_of (prev_option entry) \<union> selectors_of (next_option entry))"

lemma collect_selectors:
  "get (collectSelectorOption t m) s = (if s \<in> selectors_of t then Some {} else get m s)"
proof (induction t arbitrary: m)
  case (AnyOf types)
  have "get (fold collectSelectorOption ts m) s =
      (if s \<in> \<Union> (selectors_of ` set ts) then Some {} else get m s)" if "set ts \<subseteq> set types" for ts
    using that by (induction ts arbitrary: m) (auto simp: AnyOf.IH)
  then show ?case by simp
qed simp_all

lemma initial_selectors:
  "get (selectorMatchedNodes (create_padding cfg)) s = (if s \<in> policy_selectors cfg then Some {} else None)"
proof -
  have "get (fold (\<lambda>entry m. collectSelectorOption (next_option entry) (collectSelectorOption (prev_option entry) m)) es m) s =
      (if \<exists>e \<in> set es. s \<in> selectors_of (prev_option e) \<union> selectors_of (next_option e) then Some {} else get m s)" for es :: "policy_entry list" and m
    by (induction es arbitrary: m) (auto simp: collect_selectors)
  then show ?thesis by (simp add: create_padding_def policy_selectors_def)
qed

lemma noted_selectors:
  "get (fold (note_selectors sc) ls m) s =
     map_option (\<lambda>ns. ns \<union> (nid \<circ> info \<circ> fst) ` {l \<in> set ls. matchesSelector sc s l}) (get m s)"
proof (induction ls arbitrary: m)
  case Nil
  then show ?case by (simp add: option.map_ident)
next
  case (Cons l ls)
  have "get (note_selectors sc l m) s =
      map_option (\<lambda>ns. if matchesSelector sc s l then insert (nid (info (fst l))) ns else ns) (get m s)"
    unfolding note_selectors_def by (induction m) auto
  then show ?case by (cases "get m s") (auto simp: Cons.IH)
qed

definition matched_in :: "padding_config \<Rightarrow> token_source \<Rightarrow> node \<Rightarrow> matched_nodes" where
  "matched_in cfg sc program =
     fold (note_selectors sc) (locations program []) (selectorMatchedNodes (create_padding cfg))"

lemma matched_in_get:
  "get (matched_in cfg sc program) s =
     (if s \<in> policy_selectors cfg
      then Some ((nid \<circ> info \<circ> fst) ` {l \<in> set (locations program []). matchesSelector sc s l}) else None)"
  by (simp add: matched_in_def noted_selectors initial_selectors)

text \<open>The whole program: at its exit the queue is complete.\<close>

lemma padding_run:
  assumes "statement_class sc" and "only_program program"
  shows "\<exists>pairs. mset pairs = mset (adjacent_statements sc program) \<and>
     createPaddingLineRule cfg sc fuel program =
       concat_o (verify_pair cfg (matched_in cfg sc program) sc fuel) pairs"
proof -
  let ?body = "concat (map (\<lambda>c. events c [program]) (children program))"
  let ?ls = "concat (map (\<lambda>c. locations c [program]) (children program))"
  let ?st0 = "create_padding cfg"
  let ?st1 = "enterScope ?st0\<lparr>selectorMatchedNodes := note_selectors sc (program, []) (selectorMatchedNodes ?st0)\<rparr>"
  from assms(2) have program: "node_type program = ''Program''"
    and free: "c \<in> set (children program) \<Longrightarrow> program_free c [program]" for c
    by (auto simp: only_program_def list_all_iff)
  have "walks cfg sc fuel (statements_of sc (program, [])) ?ls ?body"
    using walks_children[of program cfg sc fuel "[]"] walks_subtree[OF assms(1) free] by simp
  then obtain st2 where run: "run_padding cfg sc fuel ?st1 ?body = Returned (st2, [])"
    and eff: "effect sc (statements_of sc (program, [])) ?ls ?st1 st2"
    unfolding walks_def by (force simp: enterScope_def)
  have enter: "on_enter sc (program, []) ?st0 = Returned ?st1"
    by (subst on_enter_seen[OF assms(1)])
      (simp_all add: verified_def seen_def opens_def program plain_scopes_def enterScope_def)
  have events: "events program [] = Enter (program, []) # ?body @ [Exit (program, [])]"
    by (subst events.simps) simp
  have "createPaddingLineRule cfg sc fuel program = verifyPendingPairs cfg sc fuel st2"
    unfolding createPaddingLineRule_def events
    using run_append[OF run, of "[Exit (program, [])]"]
    by (cases "verifyPendingPairs cfg sc fuel st2") (simp_all add: enter on_exit_def program)
  moreover have "selectorMatchedNodes st2 = matched_in cfg sc program"
    using eff unfolding matched_in_def by (subst locations.simps) (simp add: effect_def enterScope_def)
  moreover have "mset (pendingPairs st2) = mset (adjacent_statements sc program)"
    using eff unfolding adjacent_statements_def
    by (subst locations.simps) (simp add: effect_def enterScope_def create_padding_def links_None)
  ultimately show ?thesis unfolding verifyPendingPairs_def by metis
qed

end
