(* ===== verification/Padding_Fix.thy ===== *)
theory Padding_Fix
  imports Padding_Run
begin

text \<open>
  Blank lines and fixes over an ordered stream of tokens and comments. The loop of
  \<open>getPaddingLineSequences\<close> finds exactly the blank lines between two statements, the fix that asks for
  a blank line produces one, and the fix that removes blank lines leaves one line break.
\<close>

section \<open>Streams of tokens\<close>

definition is_comment :: "token \<Rightarrow> bool" where
  "is_comment t \<longleftrightarrow> token_type t = ''Line'' \<or> token_type t = ''Block''"

definition in_order :: "token list \<Rightarrow> bool" where
  "in_order ts \<longleftrightarrow>
     sorted_wrt (\<lambda>t u. token_stop t \<le> token_start u \<and> last_line t \<le> first_line u) ts \<and>
     list_all (\<lambda>t. token_start t < token_stop t \<and> first_line t \<le> last_line t) ts"

text \<open>What Oxlint documents of its token queries, for a source whose tokens and comments are \<open>ts\<close>.\<close>

definition tokens_of :: "token_source \<Rightarrow> token list \<Rightarrow> bool" where
  "tokens_of sc ts \<longleftrightarrow> in_order ts \<and>
     (\<forall>n f. getLastToken sc n f =
        find (\<lambda>t. \<not> is_comment t \<and> start (info n) \<le> token_start t \<and> token_stop t \<le> stop (info n) \<and> f t) (rev ts)) \<and>
     (\<forall>p. tokenBefore sc p = find (\<lambda>t. \<not> is_comment t \<and> token_stop t \<le> p) (rev ts)) \<and>
     (\<forall>p. tokenAfter sc p = find (\<lambda>t. \<not> is_comment t \<and> p \<le> token_start t) ts) \<and>
     (\<forall>p. tokenOrCommentAfter sc p = find (\<lambda>t. p \<le> token_start t) ts) \<and>
     (\<forall>p q. tokensBetween sc p q = filter (\<lambda>t. p \<le> token_start t \<and> token_stop t \<le> q) ts)"

lemma token_laws:
  assumes "tokens_of sc ts"
  shows tokens_in_order: "in_order ts"
    and last_token_law: "getLastToken sc n f =
      find (\<lambda>t. \<not> is_comment t \<and> start (info n) \<le> token_start t \<and> token_stop t \<le> stop (info n) \<and> f t) (rev ts)"
    and token_before_law: "tokenBefore sc p = find (\<lambda>t. \<not> is_comment t \<and> token_stop t \<le> p) (rev ts)"
    and token_after_law: "tokenAfter sc p = find (\<lambda>t. \<not> is_comment t \<and> p \<le> token_start t) ts"
    and next_law: "tokenOrCommentAfter sc p = find (\<lambda>t. p \<le> token_start t) ts"
    and between_law: "tokensBetween sc p q = filter (\<lambda>t. p \<le> token_start t \<and> token_stop t \<le> q) ts"
  using assms by (simp_all add: tokens_of_def)

lemma in_order_Cons:
  "in_order (t # ts) \<longleftrightarrow> in_order ts \<and> token_start t < token_stop t \<and> first_line t \<le> last_line t \<and>
     list_all (\<lambda>u. token_stop t \<le> token_start u \<and> last_line t \<le> first_line u) ts"
  by (auto simp: in_order_def list_all_iff)

lemma in_order_Nil [simp]: "in_order []"
  by (simp add: in_order_def)

lemma in_order_append:
  "in_order (ts @ us) \<longleftrightarrow> in_order ts \<and> in_order us \<and>
     list_all (\<lambda>t. list_all (\<lambda>u. token_stop t \<le> token_start u \<and> last_line t \<le> first_line u) us) ts"
  by (auto simp: in_order_def sorted_wrt_append list_all_iff)

lemma find_append: "find P (xs @ ys) = (case find P xs of None \<Rightarrow> find P ys | Some x \<Rightarrow> Some x)"
  by (induction xs) simp_all

lemma find_none: "list_all (\<lambda>x. \<not> P x) xs \<Longrightarrow> find P xs = None"
  by (induction xs) simp_all

lemma in_order_token: "in_order ts \<Longrightarrow> t \<in> set ts \<Longrightarrow> token_start t < token_stop t \<and> first_line t \<le> last_line t"
  by (simp add: in_order_def list_all_iff)

lemma in_order_split:
  "in_order (ts @ us) \<Longrightarrow> t \<in> set ts \<Longrightarrow> u \<in> set us \<Longrightarrow> token_stop t \<le> token_start u \<and> last_line t \<le> first_line u"
  by (simp add: in_order_append list_all_iff)

lemma before_starts:
  assumes "in_order (before @ prev # after)" and "t \<in> set before"
  shows "token_start t < token_stop prev"
  using in_order_split[OF assms, of prev] in_order_token[OF assms(1), of t] in_order_token[OF assms(1), of prev] assms(2)
  by simp

text \<open>The token after one in the stream.\<close>

lemma next_token:
  assumes "tokens_of sc (before @ prev # u # after)"
  shows "tokenOrCommentAfter sc (token_stop prev) = Some u"
proof -
  from assms have order: "in_order (before @ prev # u # after)" by (simp add: tokens_of_def)
  then have "list_all (\<lambda>t. \<not> token_stop prev \<le> token_start t) before"
    using before_starts[OF order] by (force simp: list_all_iff)
  moreover from order have "\<not> token_stop prev \<le> token_start prev" "token_stop prev \<le> token_start u"
    by (simp_all add: in_order_append in_order_Cons)
  ultimately have "find (\<lambda>t. token_stop prev \<le> token_start t) (before @ prev # u # after) = Some u"
    by (simp add: find_append find_none)
  with assms show ?thesis by (simp add: tokens_of_def)
qed

definition blank_pairs :: "token list \<Rightarrow> (token \<times> token) list" where
  "blank_pairs ts = filter (\<lambda>(t, u). blank_between (token_lines t) (token_lines u)) (adjacent ts)"

lemma loop_pairs:
  "tokens_of sc (before @ prev # mids @ u # rest) \<Longrightarrow> list_all (\<lambda>t. token_start t < start (info n)) mids \<Longrightarrow>
     start (info n) \<le> token_start u \<Longrightarrow> length mids < fuel \<Longrightarrow>
     padding_loop sc fuel prev n pairs = Returned (pairs @ blank_pairs (prev # mids @ [u]))"
proof (induction mids arbitrary: before prev pairs fuel)
  case Nil
  from Nil.prems(4) obtain m where "fuel = Suc m" by (cases fuel) auto
  with next_token[of sc before prev u rest] Nil.prems show ?case
    by (simp add: not_null_def blank_pairs_def Let_def)
next
  case (Cons v mids)
  from Cons.prems(4) obtain m where fuel: "fuel = Suc m" by (cases fuel) auto
  have "tokenOrCommentAfter sc (token_stop prev) = Some v"
    using next_token[of sc before prev v "mids @ u # rest"] Cons.prems(1) by simp
  moreover have "padding_loop sc m v n ps = Returned (ps @ blank_pairs (v # mids @ [u]))" for ps
    using Cons.prems Cons.IH[of "before @ [prev]" v m ps] fuel by simp
  ultimately show ?case
    using Cons.prems(2) by (simp add: fuel not_null_def blank_pairs_def Let_def)
qed

text \<open>Without a blank line from end to end there is none on the way, so the guard loses nothing.\<close>

lemma no_blank_pairs:
  "in_order (prev # mids @ [u]) \<Longrightarrow> \<not> blank_between (token_lines prev) (token_lines u) \<Longrightarrow> blank_pairs (prev # mids @ [u]) = []"
proof (induction mids arbitrary: prev)
  case Nil
  then show ?case by (simp add: blank_pairs_def)
next
  case (Cons v mids)
  from Cons.prems have "last_line prev \<le> first_line v" "first_line v \<le> last_line v" "last_line v \<le> first_line u"
    by (auto simp: in_order_Cons in_order_append list_all_iff)
  with Cons.prems have "\<not> blank_between (token_lines prev) (token_lines v)" "\<not> blank_between (token_lines v) (token_lines u)"
    by (auto simp: blank_between_def token_lines_def)
  with Cons.IH[of v] Cons.prems(1) show ?case by (simp add: blank_pairs_def in_order_Cons)
qed

text \<open>Where two statements stand in the stream: \<open>u\<close> is the first token of the second one.\<close>

definition placed :: "token list \<Rightarrow> token list \<Rightarrow> token \<Rightarrow> token list \<Rightarrow> token \<Rightarrow> token list \<Rightarrow> node \<Rightarrow> bool" where
  "placed ts before prev mids u rest n \<longleftrightarrow>
     ts = before @ prev # mids @ u # rest \<and> token_start u = start (info n) \<and> first_line u = start_line (info n)"

lemma sequences_exact:
  assumes "tokens_of sc ts" and "getActualLastToken sc p = Returned prev"
    and "placed ts before prev mids u rest n" and "length ts \<le> fuel"
  shows "getPaddingLineSequences sc fuel p n = Returned (blank_pairs (prev # mids @ [u]))"
proof -
  from assms(3) have ts: "ts = before @ prev # mids @ u # rest" and u: "token_start u = start (info n)"
    and lines: "node_lines n = (first_line u, end_line (info n))"
    by (simp_all add: placed_def node_lines_def)
  from assms(1) have order: "in_order ts" by (simp add: tokens_of_def)
  have "token_start t < start (info n)" if "t \<in> set mids" for t
    using in_order_token[OF order, of t] in_order_split[of "before @ prev # mids" "u # rest" t u] order that
    by (simp add: ts u)
  then have "list_all (\<lambda>t. token_start t < start (info n)) mids" by (simp add: list_all_iff)
  then have "padding_loop sc fuel prev n [] = Returned ([] @ blank_pairs (prev # mids @ [u]))"
    using assms(1,4) by (intro loop_pairs[where before = before and rest = rest]) (simp_all add: ts u)
  moreover have "blank_between (token_lines prev) (node_lines n) \<longleftrightarrow> blank_between (token_lines prev) (token_lines u)"
    by (simp add: blank_between_def lines token_lines_def)
  moreover have "in_order (prev # mids @ [u])"
    using order by (auto simp: ts in_order_append in_order_Cons list_all_iff)
  ultimately show ?thesis
    using assms(2) no_blank_pairs by (auto simp: getPaddingLineSequences_def)
qed


section \<open>Inserting line breaks\<close>

text \<open>What follows position \<open>pos\<close> moves down by \<open>k\<close> lines when \<open>k\<close> line feeds are inserted there.\<close>

definition shift_token :: "nat \<Rightarrow> nat \<Rightarrow> token \<Rightarrow> token" where
  "shift_token pos k t =
     (if pos \<le> token_start t
      then t\<lparr>token_start := token_start t + k, token_stop := token_stop t + k,
             first_line := first_line t + k, last_line := last_line t + k\<rparr>
      else t)"

definition shift_info :: "nat \<Rightarrow> nat \<Rightarrow> node_info \<Rightarrow> node_info" where
  "shift_info pos k i =
     i\<lparr>start := (if pos \<le> start i then start i + k else start i),
       start_line := (if pos \<le> start i then start_line i + k else start_line i),
       stop := (if pos < stop i then stop i + k else stop i),
       end_line := (if pos < stop i then end_line i + k else end_line i)\<rparr>"

definition shift_node :: "nat \<Rightarrow> nat \<Rightarrow> node \<Rightarrow> node" where
  "shift_node pos k n = Node (shift_info pos k (info n)) (form n)"

lemma shift_token_simps [simp]:
  "token_type (shift_token pos k t) = token_type t" "token_value (shift_token pos k t) = token_value t"
  "is_comment (shift_token pos k t) = is_comment t"
  "isSemicolonToken (shift_token pos k t) = isSemicolonToken t"
  by (simp_all add: shift_token_def is_comment_def isSemicolonToken_def)

lemma shift_token_range [simp]:
  "token_start (shift_token pos k t) = (if pos \<le> token_start t then token_start t + k else token_start t)"
  "token_stop (shift_token pos k t) = (if pos \<le> token_start t then token_stop t + k else token_stop t)"
  "first_line (shift_token pos k t) = (if pos \<le> token_start t then first_line t + k else first_line t)"
  "last_line (shift_token pos k t) = (if pos \<le> token_start t then last_line t + k else last_line t)"
  by (simp_all add: shift_token_def)

lemma find_map: "find P (map f xs) = map_option f (find (P \<circ> f) xs)"
  by (induction xs) simp_all

lemma find_cong_list: "(\<And>x. x \<in> set xs \<Longrightarrow> P x = Q x) \<Longrightarrow> find P xs = find Q xs"
  by (induction xs) simp_all

text \<open>A position at the end of a token cuts no token.\<close>

definition cuts :: "token list \<Rightarrow> nat \<Rightarrow> bool" where
  "cuts ts pos \<longleftrightarrow> list_all (\<lambda>t. pos \<le> token_start t \<or> token_stop t \<le> pos) ts"

lemma token_end_cuts: "in_order (xs @ t # ys) \<Longrightarrow> cuts (xs @ t # ys) (token_stop t)"
  using in_order_split[of xs "t # ys"] in_order_split[of "xs @ [t]" ys t] in_order_token[of "xs @ t # ys"]
  by (fastforce simp: cuts_def list_all_iff)

lemma shift_range:
  "pos \<le> token_start t \<or> token_stop t \<le> pos \<Longrightarrow> token_start t < token_stop t \<Longrightarrow>
     (start (shift_info pos k i) \<le> token_start (shift_token pos k t) \<and> token_stop (shift_token pos k t) \<le> stop (shift_info pos k i))
     \<longleftrightarrow> (start i \<le> token_start t \<and> token_stop t \<le> stop i)"
  by (auto simp: shift_info_def)

lemma last_token_shift:
  assumes "tokens_of sc ts" and "tokens_of sc' (map (shift_token pos k) ts)" and "cuts ts pos"
  shows "getLastToken sc' (shift_node pos k n) (\<lambda>t. True) = map_option (shift_token pos k) (getLastToken sc n (\<lambda>t. True))"
proof -
  have order: "in_order ts" using assms(1) by (simp add: tokens_of_def)
  let ?Q = "\<lambda>t. \<not> is_comment t \<and> start (info n) \<le> token_start t \<and> token_stop t \<le> stop (info n) \<and> True"
  let ?P = "\<lambda>t. \<not> is_comment t \<and> start (shift_info pos k (info n)) \<le> token_start t \<and> token_stop t \<le> stop (shift_info pos k (info n)) \<and> True"
  have "(?P \<circ> shift_token pos k) t = ?Q t" if "t \<in> set (rev ts)" for t
    using shift_range[of pos t k "info n"] that assms(3) in_order_token[OF order, of t]
    by (auto simp: cuts_def list_all_iff)
  then have "find (?P \<circ> shift_token pos k) (rev ts) = find ?Q (rev ts)" by (rule find_cong_list)
  then show ?thesis
    by (simp only: last_token_law[OF assms(1)] last_token_law[OF assms(2)] shift_node_def node.sel rev_map find_map)
qed

lemma find_in: "find P xs = Some x \<Longrightarrow> x \<in> set xs \<and> P x"
  by (induction xs) (auto split: if_splits)

lemma token_before_shift:
  assumes "tokens_of sc ts" and "tokens_of sc' (map (shift_token pos k) ts)" and "cuts ts pos"
  shows "tokenBefore sc' (if pos \<le> p then p + k else p) = map_option (shift_token pos k) (tokenBefore sc p)"
proof -
  have order: "in_order ts" using assms(1) by (simp add: tokens_of_def)
  let ?q = "if pos \<le> p then p + k else p"
  have same: "((\<lambda>t. \<not> is_comment t \<and> token_stop t \<le> ?q) \<circ> shift_token pos k) t = (\<not> is_comment t \<and> token_stop t \<le> p)"
    if "t \<in> set (rev ts)" for t
    using that assms(3) in_order_token[OF order, of t] by (auto simp: cuts_def list_all_iff)
  show ?thesis
    unfolding token_before_law[OF assms(1)] token_before_law[OF assms(2)] rev_map find_map
    by (simp only: find_cong_list[of "rev ts", OF same])
qed

lemma token_after_shift:
  assumes "tokens_of sc ts" and "tokens_of sc' (map (shift_token pos k) ts)" and "cuts ts pos"
  shows "tokenAfter sc' (if pos < p then p + k else p) = map_option (shift_token pos k) (tokenAfter sc p)"
proof -
  have order: "in_order ts" using assms(1) by (simp add: tokens_of_def)
  let ?q = "if pos < p then p + k else p"
  have same: "((\<lambda>t. \<not> is_comment t \<and> ?q \<le> token_start t) \<circ> shift_token pos k) t = (\<not> is_comment t \<and> p \<le> token_start t)"
    if "t \<in> set ts" for t
    using that assms(3) in_order_token[OF order, of t] by (auto simp: cuts_def list_all_iff)
  show ?thesis
    unfolding token_after_law[OF assms(1)] token_after_law[OF assms(2)] find_map
    by (simp only: find_cong_list[of ts, OF same])
qed


section \<open>The last token of a statement stays the last one\<close>

lemma in_order_lines:
  "in_order ts \<Longrightarrow> t \<in> set ts \<Longrightarrow> u \<in> set ts \<Longrightarrow> token_stop t \<le> token_start u \<Longrightarrow> last_line t \<le> first_line u"
proof (induction ts)
  case (Cons a ts)
  have "token_start t < token_stop t" "token_start u < token_stop u"
    using in_order_token[OF Cons.prems(1)] Cons.prems(2,3) by auto
  with Cons show ?case by (fastforce simp: in_order_Cons list_all_iff)
qed simp

lemma shift_before: "token_start t < pos \<Longrightarrow> shift_token pos k t = t"
  by (simp add: shift_token_def)

lemma last_token_facts:
  assumes "tokens_of sc ts" and "getLastToken sc p (\<lambda>t. True) = Some semi"
  shows "semi \<in> set ts" and "start (info p) \<le> token_start semi" and "token_stop semi \<le> stop (info p)"
  using assms(2) unfolding last_token_law[OF assms(1)] by (auto dest: find_in)

lemma token_before_facts:
  assumes "tokens_of sc ts" and "tokenBefore sc q = Some x"
  shows "x \<in> set ts" and "token_stop x \<le> q"
  using assms(2) unfolding token_before_law[OF assms(1)] by (auto dest: find_in)

lemma token_after_facts:
  assumes "tokens_of sc ts" and "tokenAfter sc q = Some x"
  shows "x \<in> set ts" and "q \<le> token_start x"
  using assms(2) unfolding token_after_law[OF assms(1)] by (auto dest: find_in)

lemma actual_last_cases:
  assumes "getActualLastToken sc p = Returned prev"
  obtains semi where "getLastToken sc p (\<lambda>t. True) = Some semi"
    and "prev = actual_last p (tokenBefore sc (token_start semi)) semi (tokenAfter sc (token_stop semi))"
  using assms by (auto simp: getActualLastToken_def not_null_def split: option.splits)

lemma actual_last_inside:
  assumes "tokens_of sc ts" and "getActualLastToken sc p = Returned prev"
  shows "prev \<in> set ts" and "token_stop prev \<le> stop (info p)" and "start (info p) \<le> token_start prev"
proof -
  from assms(2) obtain semi where semi: "getLastToken sc p (\<lambda>t. True) = Some semi"
    and prev: "prev = actual_last p (tokenBefore sc (token_start semi)) semi (tokenAfter sc (token_stop semi))"
    by (rule actual_last_cases)
  note facts = last_token_facts[OF assms(1) semi]
  have "prev = semi \<or> tokenBefore sc (token_start semi) = Some prev \<and> start (info p) \<le> token_start prev"
    by (auto simp: prev actual_last_def isSemicolonLessStyle_def split: option.split)
  then have "prev = semi \<or> prev \<in> set ts \<and> token_stop prev \<le> token_start semi \<and> start (info p) \<le> token_start prev"
    using token_before_facts[OF assms(1)] by blast
  with facts in_order_token[OF tokens_in_order[OF assms(1)] facts(1)]
  show "prev \<in> set ts" and "token_stop prev \<le> stop (info p)" and "start (info p) \<le> token_start prev" by auto
qed

lemma last_token_stays:
  assumes S: "tokens_of sc ts" and S': "tokens_of sc' (map (shift_token pos k) ts)" and cuts: "cuts ts pos"
    and prev: "getActualLastToken sc p = Returned prev" and pos: "token_stop prev \<le> pos"
  shows "\<exists>a. getActualLastToken sc' (shift_node pos k p) = Returned a \<and>
    (a = prev \<or> a \<in> set ts \<and> token_stop prev \<le> token_start a \<and> token_stop a \<le> pos)"
proof -
  note order = tokens_in_order[OF S]
  obtain semi where semi: "getLastToken sc p (\<lambda>t. True) = Some semi"
    and actual: "prev = actual_last p (tokenBefore sc (token_start semi)) semi (tokenAfter sc (token_stop semi))"
    using prev by (rule actual_last_cases)
  note inside = last_token_facts[OF S semi] and prev_inside = actual_last_inside[OF S prev]
  have size: "token_start semi < token_stop semi" "token_start prev < token_stop prev"
    using in_order_token[OF order] inside prev_inside by blast+
  with pos prev_inside(3) have "start (info (shift_node pos k p)) = start (info p)"
    by (simp add: shift_node_def shift_info_def)
  then have less: "isSemicolonLessStyle (shift_node pos k p) x s y = isSemicolonLessStyle p x s y" for x s y
    by (simp add: isSemicolonLessStyle_def)
  have new: "getActualLastToken sc' (shift_node pos k p) =
      Returned (actual_last (shift_node pos k p) (tokenBefore sc' (token_start (shift_token pos k semi)))
        (shift_token pos k semi) (tokenAfter sc' (token_stop (shift_token pos k semi))))"
    by (simp add: getActualLastToken_def last_token_shift[OF S S' cuts] semi not_null_def)
  show ?thesis
  proof (cases "prev = semi")
    case True
    with pos size have still: "shift_token pos k semi = semi" and "token_start semi < pos" by (simp_all add: shift_before)
    then have before: "tokenBefore sc' (token_start semi) = map_option (shift_token pos k) (tokenBefore sc (token_start semi))"
      using token_before_shift[OF S S' cuts, of "token_start semi"] by simp
    have after: "tokenAfter sc' (token_stop semi) = map_option (shift_token pos k) (tokenAfter sc (token_stop semi))"
      using token_after_shift[OF S S' cuts, of "token_stop semi"] True pos by simp
    have "\<not> isSemicolonLessStyle p (shift_token pos k x) semi (shift_token pos k y)"
      if x: "tokenBefore sc (token_start semi) = Some x" and y: "tokenAfter sc (token_stop semi) = Some y" for x y
    proof -
      note fx = token_before_facts[OF S x] and fy = token_after_facts[OF S y]
      have "x \<noteq> semi" using fx size by auto
      with True actual x y have not_less: "\<not> isSemicolonLessStyle p x semi y" by (auto simp: actual_last_def split: if_splits)
      have "shift_token pos k x = x"
        using fx in_order_token[OF order fx(1)] \<open>token_start semi < pos\<close> by (intro shift_before) simp
      moreover have "last_line semi \<le> first_line y" using in_order_lines[OF order inside(1) fy] .
      ultimately show ?thesis
        using not_less by (auto simp: isSemicolonLessStyle_def isTokenOnSameLine_def token_lines_def)
    qed
    with True show ?thesis
      by (auto simp: new still before after actual_last_def less split: option.split)
  next
    case False
    with actual obtain y where x: "tokenBefore sc (token_start semi) = Some prev"
      and y: "tokenAfter sc (token_stop semi) = Some y" and style: "isSemicolonLessStyle p prev semi y"
      by (auto simp: actual_last_def split: option.splits if_splits)
    note fx = token_before_facts[OF S x] and fy = token_after_facts[OF S y]
    have still_prev: "shift_token pos k prev = prev" using pos size by (simp add: shift_before)
    show ?thesis
    proof (cases "pos \<le> token_start semi")
      case moved: True
      have before: "tokenBefore sc' (token_start semi + k) = Some prev"
        using token_before_shift[OF S S' cuts, of "token_start semi"] moved x still_prev by simp
      have after: "tokenAfter sc' (token_stop semi + k) = Some (shift_token pos k y)"
        using token_after_shift[OF S S' cuts, of "token_stop semi"] moved size y by simp
      have "last_line prev \<le> first_line semi" using in_order_lines[OF order fx(1) inside(1) fx(2)] .
      with style moved fy(2) size have "isSemicolonLessStyle p prev (shift_token pos k semi) (shift_token pos k y)"
        by (auto simp: isSemicolonLessStyle_def isTokenOnSameLine_def token_lines_def)
      with moved show ?thesis by (simp add: new before after actual_last_def less)
    next
      case unmoved: False
      then have still: "shift_token pos k semi = semi" by (simp add: shift_before)
      have "token_stop semi \<le> pos" using unmoved cuts inside(1) by (auto simp: cuts_def list_all_iff)
      moreover have "tokenBefore sc' (token_start semi) = Some prev"
        using token_before_shift[OF S S' cuts, of "token_start semi"] unmoved x still_prev by simp
      moreover obtain a where "actual_last (shift_node pos k p) (Some prev) semi (tokenAfter sc' (token_stop semi)) = a"
        and "a = prev \<or> a = semi" by (simp add: actual_last_def split: option.split)
      ultimately show ?thesis using inside(1) fx(2) by (auto simp: new still)
    qed
  qed
qed

section \<open>The fix that inserts a blank line\<close>

lemma order_split:
  assumes "in_order ts" and "a \<in> set ts" and "b \<in> set ts" and "token_stop a \<le> token_start b"
  obtains before mids rest where "ts = before @ a # mids @ b # rest"
proof -
  from assms(2) obtain before after where ts: "ts = before @ a # after" by (auto dest: split_list)
  have size: "token_start a < token_stop a" "token_start b < token_stop b"
    using in_order_token[OF assms(1)] assms(2,3) by blast+
  have "b \<notin> set before"
    using in_order_split[of before "a # after" b a] assms(1,4) size by (auto simp: ts)
  moreover have "b \<noteq> a" using assms(4) size by auto
  ultimately have "b \<in> set after" using assms(3) ts by auto
  then obtain mids rest where "after = mids @ b # rest" by (auto dest: split_list)
  with ts show thesis by (auto intro: that)
qed

lemma tokens_between_mids:
  assumes S: "tokens_of sc ts" and ts: "ts = before @ prev # mids @ u # rest"
  shows "tokensBetween sc (token_stop prev) (token_start u) = mids"
proof -
  note order = tokens_in_order[OF S]
  let ?P = "\<lambda>t. token_stop prev \<le> token_start t \<and> token_stop t \<le> token_start u"
  have sized: "token_start t < token_stop t" if "t \<in> set ts" for t using in_order_token[OF order that] by simp
  have "\<not> ?P t" if "t \<in> set before" for t
    using before_starts[of before prev "mids @ u # rest" t] order that by (auto simp: ts)
  moreover have "\<not> ?P prev" using sized[of prev] by (simp add: ts)
  moreover have "?P t" if "t \<in> set mids" for t
    using in_order_split[of "before @ [prev]" "mids @ u # rest" prev t]
      in_order_split[of "before @ prev # mids" "u # rest" t u] order that by (simp add: ts)
  moreover have "\<not> ?P t" if "t \<in> set (u # rest)" for t
    using in_order_split[of "before @ prev # mids @ [u]" rest u t] order that sized[of u] sized[of t] by (auto simp: ts)
  ultimately have "filter ?P before = []" "filter ?P mids = mids" "filter ?P (u # rest) = []" "\<not> ?P prev"
    by (simp_all only: filter_empty_conv filter_id_conv) blast+
  then have "filter ?P ts = mids" unfolding ts by (simp del: filter.simps add: filter.simps(2)[of ?P prev])
  then show ?thesis by (simp add: between_law[OF S])
qed

lemma skip_trailing_split:
  "skip_trailing prev mids = (t, found) \<Longrightarrow>
     \<exists>xs ys. prev # mids = xs @ t # ys \<and> found = (case ys of [] \<Rightarrow> None | y # zs \<Rightarrow> Some y) \<and>
       (\<forall>y. found = Some y \<longrightarrow> \<not> isTokenOnSameLine (token_lines t) (token_lines y))"
proof (induction prev mids rule: skip_trailing.induct)
  case (1 prev)
  then show ?case by (intro exI[of _ "[]"]) simp
next
  case (2 prev u us)
  show ?case
  proof (cases "isTokenOnSameLine (token_lines prev) (token_lines u)")
    case True
    with 2 obtain xs ys where "u # us = xs @ t # ys" "found = (case ys of [] \<Rightarrow> None | y # zs \<Rightarrow> Some y)"
      "\<forall>y. found = Some y \<longrightarrow> \<not> isTokenOnSameLine (token_lines t) (token_lines y)" by auto
    then show ?thesis by (intro exI[of _ "prev # xs"] exI[of _ ys]) simp
  next
    case False
    with "2.prems" show ?thesis by (intro exI[of _ "[]"] exI[of _ "u # us"]) auto
  qed
qed

lemma adjacent_member: "(a, b) \<in> set (adjacent (xs @ a # b # ys))"
proof (induction xs)
  case (Cons x xs)
  then show ?case by (cases xs) simp_all
qed simp

lemma adjacent_map: "adjacent (map f xs) = map (map_prod f f) (adjacent xs)"
proof (induction xs)
  case (Cons x xs)
  then show ?case by (cases xs) simp_all
qed simp


text \<open>Once \<open>k\<close> lines are inserted before \<open>w\<close>, the two tokens around them have a blank line between.\<close>

lemma shifted_blank:
  assumes "last_line t \<le> first_line w" and "k = (if isTokenOnSameLine (token_lines t) (token_lines w) then 2 else 1)"
    and "token_start t < pos" and "pos \<le> token_start w"
  shows "blank_between (token_lines (shift_token pos k t)) (token_lines (shift_token pos k w))"
  using assms by (auto simp: blank_between_def token_lines_def isTokenOnSameLine_def split: if_splits)

lemma shifted_pair:
  assumes "blank_between (token_lines (shift_token pos k t)) (token_lines (shift_token pos k w))"
  shows "blank_pairs (map (shift_token pos k) (xs @ t # w # zs)) \<noteq> []"
proof -
  have "(shift_token pos k t, shift_token pos k w) \<in> set (adjacent (map (shift_token pos k) (xs @ t # w # zs)))"
    unfolding adjacent_map using adjacent_member[of t w xs zs] by (force simp: image_iff)
  with assms show ?thesis by (force simp: blank_pairs_def filter_empty_conv)
qed

lemma always_fix_insertion:
  assumes "always_fix sc p n = Returned (Some (InsertTextAfter t nl))"
  obtains prev found where "getActualLastToken sc p = Returned prev"
    and "skip_trailing prev (tokensBetween sc (token_stop prev) (start (info n))) = (t, found)"
    and "nl = (if isTokenOnSameLine (token_lines t)
      (case found of Some v \<Rightarrow> token_lines v | None \<Rightarrow> node_lines n) then [10, 10] else [10])"
proof -
  from assms obtain prev where prev: "getActualLastToken sc p = Returned prev"
    by (auto simp: always_fix_def and_then_Returned)
  obtain x found where "skip_trailing prev (tokensBetween sc (token_stop prev) (start (info n))) = (x, found)"
    by fastforce
  with assms prev that show thesis by (auto simp: always_fix_def Let_def)
qed

lemma insertion_blank:
  assumes S: "tokens_of sc ts" and S': "tokens_of sc' (map (shift_token (token_stop t) (length nl)) ts)"
    and f: "always_fix sc p n = Returned (Some (InsertTextAfter t nl))"
    and u: "u \<in> set ts" "token_start u = start (info n)" "first_line u = start_line (info n)"
    and apart: "stop (info p) \<le> start (info n)" and fuel: "length ts \<le> fuel"
  shows "\<exists>ps. getPaddingLineSequences sc' fuel (shift_node (token_stop t) (length nl) p)
    (shift_node (token_stop t) (length nl) n) = Returned ps \<and> ps \<noteq> []"
proof -
  let ?k = "length nl" and ?pos = "token_stop t"
  let ?sh = "shift_token ?pos ?k"
  note order = tokens_in_order[OF S]
  obtain prev found where prev: "getActualLastToken sc p = Returned prev"
    and skip: "skip_trailing prev (tokensBetween sc (token_stop prev) (start (info n))) = (t, found)"
    and nl: "nl = (if isTokenOnSameLine (token_lines t)
      (case found of Some v \<Rightarrow> token_lines v | None \<Rightarrow> node_lines n) then [10, 10] else [10])"
    using f by (rule always_fix_insertion)
  note inside = actual_last_inside[OF S prev]
  have prev_u: "token_stop prev \<le> token_start u" using inside(2) apart u(2) by simp
  obtain before mids rest where ts: "ts = before @ prev # mids @ u # rest"
    using order_split[OF order inside(1) u(1) prev_u] .
  with skip tokens_between_mids[OF S ts] u(2) have skipped: "skip_trailing prev mids = (t, found)" by simp
  obtain xs ys where mids: "prev # mids = xs @ t # ys" and found: "found = (case ys of [] \<Rightarrow> None | y # zs \<Rightarrow> Some y)"
    and other: "\<forall>y. found = Some y \<longrightarrow> \<not> isTokenOnSameLine (token_lines t) (token_lines y)"
    using skip_trailing_split[OF skipped] by auto
  obtain w zs where ws: "ys @ [u] = w # zs" by (cases ys) auto
  have ts_t: "ts = (before @ xs) @ t # ys @ u # rest" using ts mids by (metis append.assoc append_Cons)
  then have ts_w: "ts = (before @ xs @ [t]) @ w # zs @ rest" using ws by (simp add: append_eq_Cons_conv) fastforce
  have tw: "token_stop t \<le> token_start w" "last_line t \<le> first_line w" "token_start t < token_stop t"
    using in_order_split[of "before @ xs @ [t]" "w # zs @ rest" t w] in_order_token[OF order, of t] order ts_w by auto
  have "?k = (if isTokenOnSameLine (token_lines t) (token_lines w) then 2 else 1)"
  proof (cases ys)
    case Nil
    then have "w = u" and "found = None" using ws found by simp_all
    then show ?thesis using u(3) by (simp add: nl isTokenOnSameLine_def token_lines_def node_lines_def)
  next
    case (Cons y zs)
    then have "found = Some w" using ws found by simp
    with other show ?thesis by (simp add: nl)
  qed
  then have blank: "blank_between (token_lines (?sh t)) (token_lines (?sh w))"
    using tw by (intro shifted_blank) simp_all
  have cuts: "cuts ts ?pos" unfolding ts_t by (rule token_end_cuts) (use order ts_t in simp)
  have "prev \<in> set (xs @ [t])" using mids by (cases xs) auto
  then have "token_stop prev \<le> ?pos"
    using in_order_split[of "before @ xs" "t # ys @ u # rest" prev t] order tw(3) unfolding ts_t by fastforce
  from last_token_stays[OF S S' cuts prev this] obtain a where
    a: "getActualLastToken sc' (shift_node ?pos ?k p) = Returned a"
    and a_cases: "a = prev \<or> a \<in> set ts \<and> token_stop prev \<le> token_start a \<and> token_stop a \<le> ?pos" by blast
  have "a \<in> set (xs @ [t])"
  proof (cases "a = prev")
    case False
    with a_cases have a: "a \<in> set ts" "token_stop prev \<le> token_start a" "token_stop a \<le> ?pos" by auto
    have "a \<notin> set before" using before_starts[of before prev "mids @ u # rest" a] order a(2) ts by auto
    moreover have "a \<notin> set (w # zs @ rest)"
      using in_order_split[of "before @ xs @ [t]" "w # zs @ rest" t a] in_order_token[OF order a(1)] a(3) order ts_w by auto
    ultimately show ?thesis using a(1) unfolding ts_w by auto
  qed (use \<open>prev \<in> set (xs @ [t])\<close> in simp)
  then obtain xs1 xs2 where xs: "xs @ [t] = xs1 @ a # xs2" by (auto dest: split_list)
  obtain mids' where mids': "ts = (before @ xs1) @ a # mids' @ u # rest" and window: "\<exists>vs. a # mids' @ [u] = vs @ t # w # zs"
  proof (cases xs2 rule: rev_cases)
    case Nil
    with xs have "a = t" "xs1 = xs" by simp_all
    then show thesis using ts_t ws by (intro that[of ys]) auto
  next
    case (snoc xs3 v)
    with xs have "v = t" "xs = xs1 @ a # xs3" by simp_all
    then show thesis using ts_t ws by (intro that[of "xs3 @ t # ys"]) auto
  qed
  have "a \<in> set (before @ xs @ [t])" using xs by simp
  then have still: "?sh a = a"
    using in_order_split[of "before @ xs" "t # ys @ u # rest" a t] in_order_token[OF order, of a] order tw(3)
    unfolding ts_t by (intro shift_before) fastforce
  have moved: "?pos \<le> token_start u"
    using in_order_split[of "before @ xs @ [t]" "ys @ u # rest" t u] order ts_t by simp
  have "placed (map ?sh ts) (map ?sh (before @ xs1)) a (map ?sh mids') (?sh u) (map ?sh rest) (shift_node ?pos ?k n)"
    using moved u(2,3) by (simp add: placed_def mids' still shift_node_def shift_info_def)
  from sequences_exact[OF S' a this] fuel
  have "getPaddingLineSequences sc' fuel (shift_node ?pos ?k p) (shift_node ?pos ?k n) =
      Returned (blank_pairs (map ?sh (a # mids' @ [u])))" by (simp add: still)
  moreover from window obtain vs where "a # mids' @ [u] = vs @ t # w # zs" by blast
  ultimately show ?thesis using shifted_pair[OF blank, of vs zs] by auto
qed

end
