(* ===== verification/Padding_Removal.thy ===== *)
theory Padding_Removal
  imports Padding_Line
begin

text \<open>
  The text that the fix of \<open>verifyForNever\<close> writes: the expression \<open>PADDING_LINE_SEQUENCE\<close> has one
  way to match, the first line break and all up to the last one.
\<close>

lemma LT_space: "LT u \<Longrightarrow> space_unit u"
  by (auto simp: LT_def LINEBREAKS_def space_unit_def)

lemma breaks_iff:
  "(taken, rest) \<in> set (breaks s) \<longleftrightarrow>
     (\<exists>x l. taken = x @ [l] \<and> s = taken @ rest \<and> list_all space_unit x \<and> LT l)"
proof (induction s arbitrary: taken)
  case (Cons u us)
  have "(taken, rest) \<in> set (breaks (u # us)) \<longleftrightarrow>
      LT u \<and> taken = [u] \<and> rest = us \<or> space_unit u \<and> (\<exists>v. taken = u # v \<and> (v, rest) \<in> set (breaks us))"
    by auto
  also have "\<dots> \<longleftrightarrow> (\<exists>x l. taken = x @ [l] \<and> u # us = taken @ rest \<and> list_all space_unit x \<and> LT l)"
    unfolding Cons.IH by (auto simp: Cons_eq_append_conv) blast+
  finally show ?case .
qed simp

text \<open>The longer matches after a match are those that go on from its end.\<close>

lemma breaks_longer:
  "(taken, rest) \<in> set (breaks s) \<Longrightarrow>
     \<exists>shorter. breaks s = shorter @ (taken, rest) # map (\<lambda>(more, rest'). (taken @ more, rest')) (breaks rest)"
proof (induction s arbitrary: taken)
  case (Cons u us)
  then consider "LT u" "taken = [u]" "rest = us"
    | v where "space_unit u" "taken = u # v" "(v, rest) \<in> set (breaks us)"
    by (auto split: if_splits)
  then show ?case
  proof cases
    case 1
    then show ?thesis by (intro exI[of _ "[]"]) (simp add: LT_space)
  next
    case 2
    from Cons.IH[OF 2(3)] obtain shorter where
      "breaks us = shorter @ (v, rest) # map (\<lambda>(more, rest'). (v @ more, rest')) (breaks rest)" by blast
    with 2 show ?thesis
      by (intro exI[of _ "(if LT u then [([u], us)] else []) @ map (\<lambda>(t, r). (u # t, r)) shorter"])
        (simp add: case_prod_unfold comp_def)
  qed
qed simp

lemma breaks_first: "breaks s = (taken, rest) # longer \<Longrightarrow> \<exists>x l. taken = x @ [l] \<and> filter LT x = [] \<and> LT l"
proof (induction s arbitrary: taken longer)
  case (Cons u us)
  show ?case
  proof (cases "LT u")
    case True
    with Cons.prems show ?thesis by (intro exI[of _ "[]"] exI[of _ u]) simp
  next
    case False
    with Cons.prems obtain v more where "breaks us = (v, rest) # more" "taken = u # v"
      by (auto split: if_splits simp: map_eq_Cons_conv)
    moreover from Cons.IH[OF this(1)] obtain x l where "v = x @ [l]" "filter LT x = []" "LT l" by blast
    ultimately show ?thesis using False by (intro exI[of _ "u # x"] exI[of _ l]) simp
  qed
qed simp

lemma breaks_distinct: "distinct (breaks s)"
proof (induction s)
  case (Cons u us)
  have "([], us) \<notin> set (breaks us)" by (simp add: breaks_iff)
  with Cons show ?case by (auto simp: distinct_map inj_on_def)
qed simp

definition longest_tail :: "code_units \<Rightarrow> (code_units \<times> code_units) option" where
  "longest_tail rest = find (\<lambda>(blank, indentSpaces). padding_tail indentSpaces) (rev (breaks rest))"

lemma find_member: "find P xs = Some x \<Longrightarrow> x \<in> set xs \<and> P x"
  by (induction xs) (auto split: if_splits)

lemma find_some: "x \<in> set xs \<Longrightarrow> P x \<Longrightarrow> find P xs \<noteq> None"
  by (auto simp: find_None_iff)

lemma tail_spaces: "padding_tail (y @ l # t) \<Longrightarrow> LT l \<Longrightarrow> list_all space_unit y \<and> padding_tail t"
  by (induction y) (auto simp: padding_tail_def LT_space split: if_splits)

lemma find_append_none: "find P xs = None \<Longrightarrow> find P (xs @ ys) = find P ys"
  by (induction xs) (simp_all split: if_splits)

lemma find_append_some: "find P xs = Some x \<Longrightarrow> find P (xs @ ys) = Some x"
  by (induction xs) (simp_all split: if_splits)

lemma longest_tail_Some:
  assumes "longest_tail rest = Some (blank, indent)"
  shows "(blank, indent) \<in> set (breaks rest)" and "padding_tail indent" and "filter LT indent = []"
proof -
  let ?P = "\<lambda>(b, i). padding_tail i"
  from find_member[of ?P "rev (breaks rest)"] assms
  show member: "(blank, indent) \<in> set (breaks rest)" and tail: "padding_tail indent"
    by (auto simp: longest_tail_def)
  let ?longer = "map (\<lambda>(more, r). (blank @ more, r)) (breaks indent)"
  obtain shorter where longer: "breaks rest = shorter @ (blank, indent) # ?longer"
    using breaks_longer[OF member] by blast
  show "filter LT indent = []"
  proof (rule ccontr)
    assume "filter LT indent \<noteq> []"
    then obtain l where "l \<in> set indent" and l: "LT l" by (auto simp: filter_empty_conv)
    then obtain y t where indent: "indent = y @ l # t" by (auto dest: split_list)
    with tail l have spaces: "list_all space_unit y" and "padding_tail t" using tail_spaces by blast+
    with l have "(blank @ y @ [l], t) \<in> set (rev ?longer)" by (force simp: breaks_iff indent)
    with \<open>padding_tail t\<close> have "find ?P (rev ?longer) \<noteq> None" by (intro find_some) auto
    then obtain x where x: "find ?P (rev ?longer) = Some x" by blast
    then have "x \<in> set ?longer" using find_member[OF x] by simp
    moreover have "x = (blank, indent)"
      using assms find_append_some[OF x, of "(blank, indent) # rev shorter"] by (simp add: longest_tail_def longer)
    ultimately show False by (auto simp: breaks_iff)
  qed
qed

lemma sequence_first:
  "PADDING_LINE_SEQUENCE s =
     (case breaks s of [] \<Rightarrow> None
      | (trailing, rest) # longer \<Rightarrow> map_option (\<lambda>(blank, indent). (trailing, indent)) (longest_tail rest))"
proof (cases "breaks s")
  case Nil
  then show ?thesis by (simp add: PADDING_LINE_SEQUENCE_def)
next
  case (Cons first longer)
  obtain trailing rest where first: "first = (trailing, rest)" by fastforce
  let ?f = "\<lambda>(trailing, rest). map_option (\<lambda>(blank, indent). (trailing, indent)) (longest_tail rest)"
  have f: "PADDING_LINE_SEQUENCE s = first_some ?f (breaks s)"
    by (simp add: PADDING_LINE_SEQUENCE_def longest_tail_def)
  have "longest_tail rest \<noteq> None" if "(trailing', rest') \<in> set longer" and some: "longest_tail rest' \<noteq> None" for trailing' rest'
  proof -
    from some obtain blank indent where "longest_tail rest' = Some (blank, indent)" by fastforce
    note found = longest_tail_Some(1,2)[OF this]
    have "\<exists>shorter. breaks s = shorter @ (trailing, rest) # map (\<lambda>(more, r). (trailing @ more, r)) (breaks rest)"
      using breaks_longer[of trailing rest s] by (simp add: Cons first)
    then obtain shorter where all: "breaks s = shorter @ (trailing, rest) # map (\<lambda>(more, r). (trailing @ more, r)) (breaks rest)" ..
    have "shorter = []"
    proof (rule ccontr)
      assume "shorter \<noteq> []"
      then obtain zs where "shorter = (trailing, rest) # zs" using all by (cases shorter) (auto simp: Cons first)
      with all have "longer = zs @ (trailing, rest) # map (\<lambda>(more, r). (trailing @ more, r)) (breaks rest)"
        by (simp add: Cons first)
      moreover have "\<exists>shorter. breaks s = shorter @ (trailing, rest) # map (\<lambda>(more, r). (trailing @ more, r)) (breaks rest)"
        using all by blast
      ultimately show False using breaks_distinct[of s] by (simp add: Cons first)
    qed
    with all that(1) obtain more where "(more, rest') \<in> set (breaks rest)" by (auto simp: Cons first)
    with found(1) have "(more @ blank, indent) \<in> set (breaks rest)" by (auto simp: breaks_iff LT_space)
    with found(2) show ?thesis unfolding longest_tail_def by (intro find_some) auto
  qed
  then have "longest_tail rest' = None" if "(trailing', rest') \<in> set longer" "longest_tail rest = None" for trailing' rest'
    using that by blast
  then have "first_some ?f longer = None" if "longest_tail rest = None"
    using that by (fastforce simp: first_some_None)
  then show ?thesis
    by (cases "longest_tail rest") (simp_all add: f Cons first case_prod_unfold)
qed


text \<open>A match takes the first line break, some blank lines, and a rest that has no line break.\<close>

lemma sequence_match:
  assumes "PADDING_LINE_SEQUENCE s = Some (trailing, indent)"
  shows "\<exists>x l blank k. trailing = x @ [l] \<and> filter LT x = [] \<and> LT l \<and> s = trailing @ blank @ [k] @ indent \<and>
    list_all space_unit blank \<and> LT k \<and> filter LT indent = []"
proof -
  from assms obtain rest longer blank where first: "breaks s = (trailing, rest) # longer"
    and tail: "longest_tail rest = Some (blank, indent)"
    by (auto simp: sequence_first split: list.splits)
  obtain x l where "trailing = x @ [l]" "filter LT x = []" "LT l" using breaks_first[OF first] by blast
  moreover have "s = trailing @ rest" using breaks_iff[of trailing rest s] by (auto simp: first)
  moreover obtain y k where "blank = y @ [k]" "rest = blank @ indent" "list_all space_unit y" "LT k"
    using longest_tail_Some(1)[OF tail] by (auto simp: breaks_iff)
  ultimately show ?thesis using longest_tail_Some(3)[OF tail] by auto
qed

lemma sequence_breaks: "PADDING_LINE_SEQUENCE s = Some m \<Longrightarrow> 2 \<le> length (filter LT s)"
  using sequence_match[of s "fst m" "snd m"] by auto

lemma remove_padding_cases:
  obtains "remove_padding s = s" "PADDING_LINE_SEQUENCE s = None"
  | x l blank k indent where "remove_padding s = x @ l # indent" "s = x @ l # blank @ k # indent"
      "filter LT x = []" "LT l" "list_all space_unit blank" "LT k" "filter LT indent = []"
proof (cases "PADDING_LINE_SEQUENCE s")
  case None
  then show thesis by (intro that(1)) (simp_all add: remove_padding_def)
next
  case (Some m)
  obtain trailing indent where "m = (trailing, indent)" by fastforce
  with Some have "PADDING_LINE_SEQUENCE s = Some (trailing, indent)" by simp
  then obtain x l blank k where "trailing = x @ [l]" "filter LT x = []" "LT l" "s = trailing @ blank @ [k] @ indent"
    "list_all space_unit blank" "LT k" "filter LT indent = []"
    and "remove_padding s = trailing @ indent"
    using sequence_match[of s trailing indent] by (auto simp: remove_padding_def replacerToRemovePaddingLines_def)
  then show thesis by (intro that(2)[of x l indent blank k]) simp_all
qed

lemma remove_again: "remove_padding (remove_padding s) = remove_padding s"
proof (cases s rule: remove_padding_cases)
  case (2 x l blank k indent)
  then have "length (filter LT (x @ l # indent)) = 1" by simp
  then have "PADDING_LINE_SEQUENCE (x @ l # indent) = None"
    using sequence_breaks[of "x @ l # indent"] by (cases "PADDING_LINE_SEQUENCE (x @ l # indent)") auto
  with 2(1) show ?thesis by (simp add: remove_padding_def[of "x @ l # indent"])
qed simp

lemma remove_only_space: "filter (Not \<circ> space_unit) (remove_padding s) = filter (Not \<circ> space_unit) s"
proof (cases s rule: remove_padding_cases)
  case (2 x l blank k indent)
  then have "filter (Not \<circ> space_unit) blank = []" by (auto simp: filter_empty_conv list_all_iff)
  with 2 show ?thesis by (simp add: LT_space)
qed simp

lemma remove_keeps_break: "filter LT (remove_padding s) = [] \<longleftrightarrow> filter LT s = []"
proof (cases s rule: remove_padding_cases)
  case (2 x l blank k indent)
  then show ?thesis by simp
qed simp

text \<open>A pair of carriage return and line feed counts as two line breaks, and is cut in half.\<close>

lemma remove_padding_crlf: "remove_padding [13, 10, 13, 10, 32, 32] = [13, 32, 32]"
  by (simp add: remove_padding_def PADDING_LINE_SEQUENCE_def replacerToRemovePaddingLines_def LT_def LINEBREAKS_def
    space_unit_def padding_tail_def)

section \<open>Properties\<close>

text \<open>
  C39: the text the removing fix writes is final: removing again changes nothing, only white space
  is gone, and statements on different lines stay on different lines.
\<close>
theorem remove_padding_final:
  "remove_padding (remove_padding s) = remove_padding s \<and>
   filter (Not \<circ> space_unit) (remove_padding s) = filter (Not \<circ> space_unit) s \<and>
   (filter LT (remove_padding s) = [] \<longleftrightarrow> filter LT s = [])"
  using remove_again remove_only_space remove_keeps_break by blast

end
