(* ===== verification/Readable_Spacing.thy ===== *)
theory Readable_Spacing
  imports Padding_Run
begin

text \<open>
  The rule \<open>require-readable-spacing\<close>: the padding rule with the policy of
  \<open>rules/require-readable-spacing.ts\<close>.
\<close>

section \<open>The policy\<close>

fun exported_declaration_of :: "node \<Rightarrow> node option" where
  "exported_declaration_of (ExportNamedDeclaration i d ss s) = d"
| "exported_declaration_of n = Some n"

definition isSinglelineBinding :: "node \<Rightarrow> bool" where
  "isSinglelineBinding n =
     (map_option node_type (exported_declaration_of n) = Some ''VariableDeclaration'' \<and>
      start_line (info n) = end_line (info n))"

definition hasLeadingComment :: "node \<Rightarrow> token_source \<Rightarrow> bool" where
  "hasLeadingComment n sc =
     (let previousLine = map_option last_line (tokenBefore sc (start (info n)))
      in list_ex (\<lambda>comment. Some (comment_start_line comment) \<noteq> previousLine) (commentsBefore sc n))"

definition singlelineBinding :: tester where
  "singlelineBinding sc l = Returned (isSinglelineBinding (fst l))"

definition undocumentedSinglelineBinding :: tester where
  "undocumentedSinglelineBinding sc l = Returned (isSinglelineBinding (fst l) \<and> \<not> hasLeadingComment (fst l) sc)"

definition entry :: "padding_type \<Rightarrow> statement_option \<Rightarrow> statement_option \<Rightarrow> policy_entry" where
  "entry b p n = \<lparr>blankLine = b, prev_option = p, next_option = n\<rparr>"

abbreviation types :: "string list \<Rightarrow> statement_option" where
  "types ts \<equiv> AnyOf (map TypeName ts)"

definition outside_imports :: string where
  "outside_imports = ''Program > :not(ImportDeclaration)''"

definition overload_signature :: string where
  "overload_signature = '':matches(TSDeclareFunction, ExportNamedDeclaration[declaration.type=\"TSDeclareFunction\"])''"

definition overload_member :: string where
  "overload_member = '':matches(TSDeclareFunction, FunctionDeclaration, ExportNamedDeclaration[declaration.type=\"TSDeclareFunction\"], ExportNamedDeclaration[declaration.type=\"FunctionDeclaration\"])''"

definition paddingRule :: padding_config where
  "paddingRule =
     \<lparr>policy =
        [entry AlwaysPadding (TypeName ''import'') (TypeName ''*''),
         entry AlwaysPadding (TypeName ''*'') (Selector outside_imports None),
         entry AlwaysPadding (Selector outside_imports None) (TypeName ''*''),
         entry AlwaysPadding (TypeName ''*'') (types [''function'', ''class'', ''interface'', ''type'']),
         entry AlwaysPadding (types [''function'', ''class'', ''interface'', ''type'']) (TypeName ''*''),
         entry AlwaysPadding (TypeName ''*'')
           (types [''multiline-const'', ''multiline-let'', ''multiline-var'', ''multiline-using'']),
         entry AlwaysPadding (types [''multiline-const'', ''multiline-let'', ''multiline-var'', ''multiline-using''])
           (TypeName ''*''),
         entry AlwaysPadding (TypeName ''*'')
           (types [''return'', ''if'', ''switch'', ''try'', ''for'', ''while'', ''do'']),
         entry AlwaysPadding (TypeName ''block-like'') (TypeName ''*''),
         entry AnyPadding (TypeName ''import'') (TypeName ''import''),
         entry AnyPadding (TypeName ''singleline-binding'') (TypeName ''undocumented-singleline-binding''),
         entry AnyPadding (Selector overload_signature None) (Selector overload_member None)],
      customStatementTypes =
        [(''singleline-binding'', singlelineBinding),
         (''undocumented-singleline-binding'', undocumentedSinglelineBinding)]\<rparr>"

definition requireReadableSpacing :: "token_source \<Rightarrow> nat \<Rightarrow> node \<Rightarrow> spacing_report list outcome" where
  "requireReadableSpacing = createPaddingLineRule paddingRule"

section \<open>What the policy asks for\<close>

definition starts_with_keyword :: "token_source \<Rightarrow> node \<Rightarrow> string \<Rightarrow> string list \<Rightarrow> bool" where
  "starts_with_keyword sc n keyword kinds \<longleftrightarrow>
     map_option token_value (getFirstToken sc n) = Some keyword \<and> node_type n \<in> set kinds"

definition declares_type :: "token_source \<Rightarrow> node \<Rightarrow> bool" where
  "declares_type sc n \<longleftrightarrow>
     node_type n = ''FunctionDeclaration'' \<or> starts_with_keyword sc n ''class'' [''ClassDeclaration''] \<or>
     starts_with_keyword sc n ''interface'' [''TSInterfaceDeclaration''] \<or>
     starts_with_keyword sc n ''type'' [''TSTypeAliasDeclaration'']"

definition long_binding :: "token_source \<Rightarrow> node \<Rightarrow> bool" where
  "long_binding sc n \<longleftrightarrow>
     \<not> isSingleLine n \<and>
     (starts_with_keyword sc n ''const'' [''VariableDeclaration''] \<or>
      starts_with_keyword sc n ''let'' [''VariableDeclaration''] \<or>
      starts_with_keyword sc n ''var'' [''VariableDeclaration''] \<or>
      declaration_kind_of n \<in> {Some ''using'', Some ''await using''})"

definition controls_flow :: "token_source \<Rightarrow> node \<Rightarrow> bool" where
  "controls_flow sc n \<longleftrightarrow>
     starts_with_keyword sc n ''return'' [''ReturnStatement''] \<or>
     starts_with_keyword sc n ''if'' [''IfStatement''] \<or>
     starts_with_keyword sc n ''switch'' [''SwitchStatement''] \<or>
     starts_with_keyword sc n ''try'' [''TryStatement''] \<or>
     starts_with_keyword sc n ''for'' [''ForStatement'', ''ForInStatement'', ''ForOfStatement''] \<or>
     starts_with_keyword sc n ''while'' [''WhileStatement'', ''DoWhileStatement''] \<or>
     starts_with_keyword sc n ''do'' [''DoWhileStatement'']"

definition is_import :: "token_source \<Rightarrow> node \<Rightarrow> bool" where
  "is_import sc n \<longleftrightarrow> starts_with_keyword sc n ''import'' [''ImportDeclaration'']"

definition selected :: "matched_nodes \<Rightarrow> string \<Rightarrow> node \<Rightarrow> bool" where
  "selected matched s n \<longleftrightarrow> (\<exists>ns. get matched s = Some ns \<and> nid (info n) \<in> ns)"

text \<open>Statements that may stand together: overloads, groups of short bindings, imports.\<close>

definition grouped :: "matched_nodes \<Rightarrow> token_source \<Rightarrow> node \<Rightarrow> node \<Rightarrow> bool" where
  "grouped matched sc p n \<longleftrightarrow>
     selected matched overload_signature p \<and> selected matched overload_member n \<or>
     isSinglelineBinding p \<and> isSinglelineBinding n \<and> \<not> hasLeadingComment n sc \<or>
     is_import sc p \<and> is_import sc n"

definition set_apart :: "matched_nodes \<Rightarrow> token_source \<Rightarrow> node \<Rightarrow> node \<Rightarrow> bool" where
  "set_apart matched sc p n \<longleftrightarrow>
     controls_flow sc n \<or> long_binding sc p \<or> long_binding sc n \<or> declares_type sc p \<or> declares_type sc n \<or>
     selected matched outside_imports p \<or> selected matched outside_imports n \<or> is_import sc p"

text \<open>The labels of both statements are taken off once; a second time changes nothing.\<close>

lemma unlabelled_again [simp]: "unlabelled (fst (unlabelled n anc)) (snd (unlabelled n anc)) = unlabelled n anc"
  by (induction n anc rule: unlabelled.induct) simp_all

lemma custom_types:
  "customStatementTypes paddingRule =
     [(''singleline-binding'', singlelineBinding), (''undocumented-singleline-binding'', undocumentedSinglelineBinding)]"
  by (simp only: paddingRule_def padding_config.select_convs)

lemma policy_testers:
  "statement_tester paddingRule ''*'' = Some (\<lambda>sc l. Returned True)"
  "statement_tester paddingRule ''import'' = Some (newKeywordTester [''ImportDeclaration''] ''import'')"
  "statement_tester paddingRule ''function'' = Some (newNodeTypeTester ''FunctionDeclaration'')"
  "statement_tester paddingRule ''class'' = Some (newKeywordTester [''ClassDeclaration''] ''class'')"
  "statement_tester paddingRule ''interface'' = Some (newKeywordTester [''TSInterfaceDeclaration''] ''interface'')"
  by (simp_all add: statement_tester_def custom_types StatementTypes_def with_line_modes_def MaybeMultilineStatementType_def)

lemma declaration_testers:
  "statement_tester paddingRule ''type'' = Some (newKeywordTester [''TSTypeAliasDeclaration''] ''type'')"
  "statement_tester paddingRule ''multiline-const'' = Some (on_lines Not (newKeywordTester [''VariableDeclaration''] ''const''))"
  "statement_tester paddingRule ''multiline-let'' = Some (on_lines Not (newKeywordTester [''VariableDeclaration''] ''let''))"
  "statement_tester paddingRule ''multiline-var'' = Some (on_lines Not (newKeywordTester [''VariableDeclaration''] ''var''))"
  "statement_tester paddingRule ''multiline-using'' = Some (on_lines Not using_tester)"
  by (simp_all add: statement_tester_def custom_types StatementTypes_def with_line_modes_def MaybeMultilineStatementType_def)

lemma control_testers:
  "statement_tester paddingRule ''return'' = Some (newKeywordTester [''ReturnStatement''] ''return'')"
  "statement_tester paddingRule ''if'' = Some (newKeywordTester [''IfStatement''] ''if'')"
  "statement_tester paddingRule ''switch'' = Some (newKeywordTester [''SwitchStatement''] ''switch'')"
  "statement_tester paddingRule ''try'' = Some (newKeywordTester [''TryStatement''] ''try'')"
  "statement_tester paddingRule ''for'' = Some (newKeywordTester [''ForStatement'', ''ForInStatement'', ''ForOfStatement''] ''for'')"
  by (simp_all add: statement_tester_def custom_types StatementTypes_def with_line_modes_def MaybeMultilineStatementType_def)

lemma binding_testers:
  "statement_tester paddingRule ''while'' = Some (newKeywordTester [''WhileStatement'', ''DoWhileStatement''] ''while'')"
  "statement_tester paddingRule ''do'' = Some (newKeywordTester [''DoWhileStatement''] ''do'')"
  "statement_tester paddingRule ''block-like'' = Some isBlockLikeStatement"
  "statement_tester paddingRule ''singleline-binding'' = Some singlelineBinding"
  "statement_tester paddingRule ''undocumented-singleline-binding'' = Some undocumentedSinglelineBinding"
  by (simp_all add: statement_tester_def custom_types StatementTypes_def with_line_modes_def MaybeMultilineStatementType_def)

lemmas statement_testers = policy_testers declaration_testers control_testers binding_testers

lemma match_types:
  "(\<And>t. t \<in> set ts \<Longrightarrow> match_option cfg matched sc (TypeName t) l = Returned (f t)) \<Longrightarrow>
     unlabelled (fst l) (snd l) = l \<Longrightarrow>
     match_option cfg matched sc (types ts) l = Returned (list_ex f ts)"
proof -
  assume "\<And>t. t \<in> set ts \<Longrightarrow> match_option cfg matched sc (TypeName t) l = Returned (f t)"
    and "unlabelled (fst l) (snd l) = l"
  moreover from this have "some_o (\<lambda>t. match_option cfg matched sc t l) (map TypeName ts) = Returned (list_ex f ts)"
    by (induction ts) simp_all
  ultimately show ?thesis by simp
qed

lemma testers_return:
  "newKeywordTester kinds keyword sc l = Returned (starts_with_keyword sc (fst l) keyword kinds)"
  "on_lines Not (newKeywordTester kinds keyword) sc l =
     Returned (starts_with_keyword sc (fst l) keyword kinds \<and> \<not> isSingleLine (fst l))"
  by (simp_all add: newKeywordTester_def on_lines_def starts_with_keyword_def)

lemmas policy_matching = statement_testers testers_return on_lines_def using_tester_def newNodeTypeTester_def
  singlelineBinding_def undocumentedSinglelineBinding_def Let_def

lemma match_declares:
  "match_option paddingRule m sc (types [''function'', ''class'', ''interface'', ''type'']) l =
     Returned (declares_type sc (fst (unlabelled (fst l) (snd l))))"
  by (simp add: policy_matching declares_type_def)

lemma match_long:
  "match_option paddingRule m sc (types [''multiline-const'', ''multiline-let'', ''multiline-var'', ''multiline-using'']) l =
     Returned (long_binding sc (fst (unlabelled (fst l) (snd l))))"
  by (auto simp: policy_matching long_binding_def)

lemma match_control:
  "match_option paddingRule m sc (types [''return'', ''if'', ''switch'', ''try'', ''for'', ''while'', ''do'']) l =
     Returned (controls_flow sc (fst (unlabelled (fst l) (snd l))))"
  by (simp add: policy_matching controls_flow_def)

lemma match_selector:
  "match_option cfg m sc (Selector s None) l = Returned (selected m s (fst (unlabelled (fst l) (snd l))))"
  by (auto simp: selected_def Let_def split: option.split)

lemma match_names:
  "match_option paddingRule m sc (TypeName ''*'') l = Returned True"
  "match_option paddingRule m sc (TypeName ''import'') l = Returned (is_import sc (fst (unlabelled (fst l) (snd l))))"
  "match_option paddingRule m sc (TypeName ''block-like'') l = isBlockLikeStatement sc (unlabelled (fst l) (snd l))"
  "match_option paddingRule m sc (TypeName ''singleline-binding'') l =
     Returned (isSinglelineBinding (fst (unlabelled (fst l) (snd l))))"
  "match_option paddingRule m sc (TypeName ''undocumented-singleline-binding'') l =
     Returned (isSinglelineBinding (fst (unlabelled (fst l) (snd l))) \<and>
               \<not> hasLeadingComment (fst (unlabelled (fst l) (snd l))) sc)"
  by (simp_all add: policy_matching is_import_def)

text \<open>The last entry that matches decides: groups win over everything, and a block sets apart what follows.\<close>

lemma policy_verdict:
  "getPaddingType paddingRule m sc l k =
     (let p = unlabelled (fst l) (snd l); n = unlabelled (fst k) (snd k) in
      if grouped m sc (fst p) (fst n) then Returned AnyPadding
      else and_then (isBlockLikeStatement sc p) (\<lambda>block.
        Returned (if block \<or> set_apart m sc (fst p) (fst n) then AlwaysPadding else AnyPadding)))"
proof -
  have entries: "rev (policy paddingRule) =
      [entry AnyPadding (Selector overload_signature None) (Selector overload_member None),
       entry AnyPadding (TypeName ''singleline-binding'') (TypeName ''undocumented-singleline-binding''),
       entry AnyPadding (TypeName ''import'') (TypeName ''import''),
       entry AlwaysPadding (TypeName ''block-like'') (TypeName ''*''),
       entry AlwaysPadding (TypeName ''*'') (types [''return'', ''if'', ''switch'', ''try'', ''for'', ''while'', ''do'']),
       entry AlwaysPadding (types [''multiline-const'', ''multiline-let'', ''multiline-var'', ''multiline-using'']) (TypeName ''*''),
       entry AlwaysPadding (TypeName ''*'') (types [''multiline-const'', ''multiline-let'', ''multiline-var'', ''multiline-using'']),
       entry AlwaysPadding (types [''function'', ''class'', ''interface'', ''type'']) (TypeName ''*''),
       entry AlwaysPadding (TypeName ''*'') (types [''function'', ''class'', ''interface'', ''type'']),
       entry AlwaysPadding (Selector outside_imports None) (TypeName ''*''),
       entry AlwaysPadding (TypeName ''*'') (Selector outside_imports None),
       entry AlwaysPadding (TypeName ''import'') (TypeName ''*'')]"
    by (simp add: paddingRule_def)
  have test: "entry_matches cfg m sc l k (entry b p n) =
      and_then (match_option cfg m sc p l) (\<lambda>b. if b then match_option cfg m sc n k else Returned False)" for cfg b p n
    by (simp add: entry_matches_def entry_def cong: if_cong)
  have verdict: "blankLine (entry b p n) = b" for b p n by (simp add: entry_def)
  show ?thesis
    unfolding getPaddingType_def entries first_matching.simps test verdict
      match_declares match_long match_control match_selector match_names
    by (cases "isBlockLikeStatement sc (unlabelled (fst l) (snd l))")
      (simp_all add: grouped_def set_apart_def Let_def del: match_option.simps)
qed

section \<open>A whole run\<close>

text \<open>
  The pairs the rule objects to, over the tree and the tokens: statements that do not stand together, one
  of which is set apart, with no blank line between them.
\<close>

definition crowded :: "matched_nodes \<Rightarrow> token_source \<Rightarrow> nat \<Rightarrow> loc \<times> loc \<Rightarrow> bool" where
  "crowded m sc fuel pair = (case pair of (l, k) \<Rightarrow>
     (let p = unlabelled (fst l) (snd l); n = unlabelled (fst k) (snd k) in
      \<not> grouped m sc (fst p) (fst n) \<and>
      (isBlockLikeStatement sc p = Returned True \<or> set_apart m sc (fst p) (fst n)) \<and>
      getPaddingLineSequences sc fuel (fst l) (fst k) = Returned []))"

lemma crowded_pair:
  "verify_pair paddingRule m sc fuel pair = Returned rs \<Longrightarrow>
     map spacing_node rs = map (fst \<circ> snd) (filter (crowded m sc fuel) [pair])"
  by (cases pair)
    (auto simp: verify_pair_def crowded_def policy_verdict Let_def and_then_Returned PaddingTypes_def verifyForAlways_def
      split: if_splits)

lemma crowded_pairs:
  "concat_o (verify_pair paddingRule m sc fuel) pairs = Returned rs \<Longrightarrow>
     map spacing_node rs = map (fst \<circ> snd) (filter (crowded m sc fuel) pairs)"
proof (induction pairs arbitrary: rs)
  case (Cons pair pairs)
  then show ?case using crowded_pair[of m sc fuel pair] by (auto simp: and_then_Returned)
qed simp

text \<open>
  What a pair needs to be verified: no empty comma expression, tokens up to the next statement, and its
  first line in the source.
\<close>

definition checkable :: "token_source \<Rightarrow> nat \<Rightarrow> loc \<times> loc \<Rightarrow> bool" where
  "checkable sc fuel pair = (case pair of (l, k) \<Rightarrow>
     isBlockLikeStatement sc (unlabelled (fst l) (snd l)) \<in> range Returned \<and>
     getPaddingLineSequences sc fuel (fst l) (fst k) \<in> range Returned \<and> getReportLoc sc (fst k) \<in> range Returned)"

lemma checkable_pair:
  assumes "checkable sc fuel pair"
  shows "\<exists>rs. verify_pair paddingRule m sc fuel pair = Returned rs"
proof -
  obtain l k where pair: "pair = (l, k)" by (cases pair)
  with assms obtain b ls loc where block: "isBlockLikeStatement sc (unlabelled (fst l) (snd l)) = Returned b"
    and ls: "getPaddingLineSequences sc fuel (fst l) (fst k) = Returned ls" and loc: "getReportLoc sc (fst k) = Returned loc"
    by (auto simp: checkable_def)
  have "getPaddingType paddingRule m sc l k \<in> {Returned AnyPadding, Returned AlwaysPadding}"
    by (simp add: policy_verdict Let_def block)
  then obtain t where t: "getPaddingType paddingRule m sc l k = Returned t" "t = AnyPadding \<or> t = AlwaysPadding" by blast
  obtain f where "always_fix sc (fst l) (fst k) = Returned f"
    using ls by (auto simp: getPaddingLineSequences_def always_fix_def and_then_Returned Let_def case_prod_unfold)
  with t ls loc show ?thesis by (auto simp: pair verify_pair_def PaddingTypes_def verifyForAlways_def)
qed

lemma checkable_pairs:
  "\<forall>pair \<in> set pairs. checkable sc fuel pair \<Longrightarrow> \<exists>rs. concat_o (verify_pair paddingRule m sc fuel) pairs = Returned rs"
proof (induction pairs)
  case (Cons pair pairs)
  from Cons.prems obtain rs where "verify_pair paddingRule m sc fuel pair = Returned rs"
    using checkable_pair[of sc fuel pair m] by auto
  moreover from Cons obtain rs' where "concat_o (verify_pair paddingRule m sc fuel) pairs = Returned rs'" by auto
  ultimately show ?case by simp
qed simp

lemma crowded_run:
  assumes "statement_class sc" and "only_program program"
    and "\<forall>pair \<in> set (adjacent_statements sc program). checkable sc fuel pair"
  shows "\<exists>rs. requireReadableSpacing sc fuel program = Returned rs \<and> mset (map spacing_node rs) =
     image_mset (fst \<circ> snd) (filter_mset (crowded (matched_in paddingRule sc program) sc fuel) (mset (adjacent_statements sc program)))"
proof -
  let ?verify = "verify_pair paddingRule (matched_in paddingRule sc program) sc fuel"
  obtain pairs where pairs: "mset pairs = mset (adjacent_statements sc program)"
    and run: "requireReadableSpacing sc fuel program = concat_o ?verify pairs"
    using padding_run[OF assms(1,2)] unfolding requireReadableSpacing_def by metis
  have "\<forall>pair \<in> set pairs. checkable sc fuel pair" using assms(3) mset_eq_setD[OF pairs] by simp
  then obtain rs where rs: "concat_o ?verify pairs = Returned rs" using checkable_pairs by blast
  have "mset (map spacing_node rs) = image_mset (fst \<circ> snd) (filter_mset (crowded (matched_in paddingRule sc program) sc fuel) (mset pairs))"
    unfolding crowded_pairs[OF rs] by simp
  then show ?thesis unfolding run rs pairs by blast
qed

end
