(* ===== verification/Padding_Examples.thy ===== *)
theory Padding_Examples
  imports Padding_Fix Padding_Removal Readable_Spacing
begin

text \<open>
  The properties of the padding rule and of \<open>require-readable-spacing\<close>, and a source on which their
  hypotheses hold: an import and a call on two adjacent lines.
\<close>

section \<open>A token source\<close>

definition source_of :: "token list \<Rightarrow> code_units list \<Rightarrow> (string \<Rightarrow> loc \<Rightarrow> bool) \<Rightarrow> token_source" where
  "source_of ts ls sel =
     \<lparr>getFirstToken = (\<lambda>n. find (\<lambda>t. \<not> is_comment t \<and> start (info n) \<le> token_start t) ts),
      getLastToken = (\<lambda>n f. find (\<lambda>t. \<not> is_comment t \<and> start (info n) \<le> token_start t \<and>
        token_stop t \<le> stop (info n) \<and> f t) (rev ts)),
      tokenBefore = (\<lambda>p. find (\<lambda>t. \<not> is_comment t \<and> token_stop t \<le> p) (rev ts)),
      tokenAfter = (\<lambda>p. find (\<lambda>t. \<not> is_comment t \<and> p \<le> token_start t) ts),
      tokenOrCommentAfter = (\<lambda>p. find (\<lambda>t. p \<le> token_start t) ts),
      tokensBetween = (\<lambda>p q. filter (\<lambda>t. p \<le> token_start t \<and> token_stop t \<le> q) ts),
      commentsBefore = (\<lambda>n. []), getNodeByRangeIndex = (\<lambda>p. None),
      code_units = concat ls, source_lines = ls, matchesSelector = sel\<rparr>"

lemma source_tokens: "in_order ts \<Longrightarrow> tokens_of (source_of ts ls sel) ts"
  by (simp add: tokens_of_def source_of_def)

definition punctuator :: "string \<Rightarrow> nat \<Rightarrow> nat \<Rightarrow> token" where
  "punctuator s p line =
     \<lparr>token_type = ''Punctuator'', token_value = s, token_start = p, token_stop = p + length s,
      first_line = line, last_line = line\<rparr>"

text \<open>\<^verbatim>\<open>import 'a';\<close> and, on the next line, \<^verbatim>\<open>b();\<close>\<close>

definition sample_tokens :: "token list" where
  "sample_tokens =
     [\<lparr>token_type = ''Keyword'', token_value = ''import'', token_start = 0, token_stop = 6, first_line = 1, last_line = 1\<rparr>,
      \<lparr>token_type = ''String'', token_value = ''a'', token_start = 7, token_stop = 10, first_line = 1, last_line = 1\<rparr>,
      punctuator '';'' 10 1,
      \<lparr>token_type = ''Identifier'', token_value = ''b'', token_start = 12, token_stop = 13, first_line = 2, last_line = 2\<rparr>,
      punctuator ''('' 13 2, punctuator '')'' 14 2, punctuator '';'' 15 2]"

definition span :: "nat \<Rightarrow> nat \<Rightarrow> nat \<Rightarrow> nat \<Rightarrow> node_info" where
  "span k p q line = \<lparr>nid = k, start = p, stop = q, start_line = line, end_line = line\<rparr>"

definition sample_import :: node where
  "sample_import = ImportDeclaration (span 1 0 11 1) (Literal (span 2 7 10 1) (StringValue ''a'')) []"

definition sample_call :: node where
  "sample_call = ExpressionStatement (span 3 12 16 2)
     (CallExpression (span 4 12 15 2) (Identifier (span 5 12 13 2) ''b'' None) None [])"

definition sample_program :: node where
  "sample_program = Program \<lparr>nid = 0, start = 0, stop = 16, start_line = 1, end_line = 2\<rparr> [sample_import, sample_call]"

definition sample_selector :: "string \<Rightarrow> loc \<Rightarrow> bool" where
  "sample_selector s l \<longleftrightarrow>
     s = '':statement'' \<and> node_type (fst l) \<in> {''ImportDeclaration'', ''ExpressionStatement''} \<or>
     s = outside_imports \<and> parent_type l = ''Program'' \<and> node_type (fst l) \<noteq> ''ImportDeclaration''"

definition sample_source :: token_source where
  "sample_source = source_of sample_tokens [] sample_selector"

lemma sample_order: "in_order sample_tokens"
  by (simp add: sample_tokens_def punctuator_def in_order_Cons)

lemma sample_laws: "tokens_of sample_source sample_tokens"
  unfolding sample_source_def by (rule source_tokens[OF sample_order])

lemma sample_statements: "statement_class sample_source"
  by (auto simp: statement_class_def sample_source_def source_of_def sample_selector_def verified_scopes_def outside_imports_def)

lemmas sample_defs = sample_program_def sample_import_def sample_call_def span_def

text \<open>The walk, one child after the other, so that it can be computed.\<close>

definition locations_all :: "node list \<Rightarrow> node list \<Rightarrow> loc list" where
  "locations_all cs anc = concat (map (\<lambda>c. locations c anc) cs)"

lemma locations_steps:
  "locations n anc = (n, anc) # locations_all (children n) (n # anc)"
  "locations_all [] anc = []" "locations_all (c # cs) anc = locations c anc @ locations_all cs anc"
  by (subst locations.simps) (simp_all add: locations_all_def)

lemma sample_root: "only_program sample_program"
  by (simp add: only_program_def program_free_def sample_defs locations_steps children_def)

lemma sample_pairs: "adjacent_statements sample_source sample_program =
    [((sample_import, [sample_program]), (sample_call, [sample_program]))]"
  by (simp add: adjacent_statements_def statements_of_def locations_steps children_def sample_defs verified_def
    statement_lists_def sample_source_def source_of_def sample_selector_def verified_scopes_def adjacent_def outside_imports_def)

lemma sample_last: "getActualLastToken sample_source sample_import = Returned (punctuator '';'' 10 1)"
  by code_simp

text \<open>Noted nodes of the sample: the call is outside the imports.\<close>

lemma sample_selected: "selected (matched_in paddingRule sample_source sample_program) outside_imports sample_call"
proof -
  have "outside_imports \<in> policy_selectors paddingRule"
    by (simp add: policy_selectors_def paddingRule_def entry_def)
  moreover have "(sample_call, [sample_program]) \<in> set (locations sample_program [])"
    by (simp add: sample_defs locations_steps children_def)
  moreover have "matchesSelector sample_source outside_imports (sample_call, [sample_program])"
    by (simp add: sample_source_def source_of_def sample_selector_def sample_call_def sample_program_def)
  ultimately show ?thesis by (force simp: selected_def matched_in_get)
qed


lemma sample_signature: "\<not> selected (matched_in paddingRule sample_source sample_program) overload_signature n"
proof -
  have "\<not> matchesSelector sample_source overload_signature l" for l
    by (simp add: sample_source_def source_of_def sample_selector_def overload_signature_def outside_imports_def)
  then show ?thesis by (auto simp: selected_def matched_in_get split: if_splits)
qed

lemma sample_not_grouped: "\<not> grouped (matched_in paddingRule sample_source sample_program) sample_source sample_import sample_call"
proof -
  have "\<not> isSinglelineBinding sample_import" "\<not> is_import sample_source sample_call" by code_simp+
  then show ?thesis by (simp add: grouped_def sample_signature)
qed

lemma sample_verdict:
  "getPaddingType paddingRule (matched_in paddingRule sample_source sample_program) sample_source
     (sample_import, [sample_program]) (sample_call, [sample_program]) = Returned AlwaysPadding"
proof -
  have "unlabelled sample_import [sample_program] = (sample_import, [sample_program])"
    "unlabelled sample_call [sample_program] = (sample_call, [sample_program])"
    "isBlockLikeStatement sample_source (sample_import, [sample_program]) = Returned False" by code_simp+
  then show ?thesis
    by (simp add: policy_verdict sample_not_grouped set_apart_def sample_selected)
qed

lemma sample_lines: "getPaddingLineSequences sample_source 7 sample_import sample_call = Returned []"
  by code_simp

lemma sample_fix: "always_fix sample_source sample_import sample_call = Returned (Some (InsertTextAfter (punctuator '';'' 10 1) [10]))"
  by code_simp

lemma sample_checkable: "checkable sample_source 7 ((sample_import, [sample_program]), (sample_call, [sample_program]))"
proof -
  have "isBlockLikeStatement sample_source (unlabelled sample_import [sample_program]) = Returned False"
    "getReportLoc sample_source sample_call = Returned (NodeLoc sample_call)" by code_simp+
  then show ?thesis by (auto simp: checkable_def sample_lines)
qed

lemma sample_crowded:
  "crowded (matched_in paddingRule sample_source sample_program) sample_source 7
     ((sample_import, [sample_program]), (sample_call, [sample_program]))"
proof -
  have "unlabelled sample_import [sample_program] = (sample_import, [sample_program])"
    "unlabelled sample_call [sample_program] = (sample_call, [sample_program])" by code_simp+
  then show ?thesis by (simp add: crowded_def sample_not_grouped set_apart_def sample_selected sample_lines)
qed

lemma sample_run:
  "requireReadableSpacing sample_source 7 sample_program =
     Returned [\<lparr>spacing_node = sample_call, spacing_message = ''expectedBlankLine'',
       spacing_loc = NodeLoc sample_call, spacing_fix = Some (InsertTextAfter (punctuator '';'' 10 1) [10])\<rparr>]"
proof -
  obtain pairs where "mset pairs = mset (adjacent_statements sample_source sample_program)"
    and run: "createPaddingLineRule paddingRule sample_source 7 sample_program =
       concat_o (verify_pair paddingRule (matched_in paddingRule sample_source sample_program) sample_source 7) pairs"
    using padding_run[OF sample_statements sample_root] by blast
  then have pairs: "pairs = [((sample_import, [sample_program]), (sample_call, [sample_program]))]"
    by (simp add: sample_pairs)
  have "isSingleLine sample_call" by code_simp
  then show ?thesis
    by (simp add: requireReadableSpacing_def run pairs verify_pair_def sample_verdict sample_lines PaddingTypes_def
      verifyForAlways_def getReportLoc_def sample_fix)
qed

section \<open>Whatever the rule reports\<close>

lemma concat_o_member:
  "concat_o f xs = Returned rs \<Longrightarrow> r \<in> set rs \<Longrightarrow> \<exists>x ys. x \<in> set xs \<and> f x = Returned ys \<and> r \<in> set ys"
proof (induction xs arbitrary: rs)
  case (Cons x xs)
  then obtain ys zs where "f x = Returned ys" "concat_o f xs = Returned zs" "rs = ys @ zs"
    by (auto simp: and_then_Returned)
  with Cons show ?case by (metis Un_iff list.set_intros set_append)
qed simp

lemma run_reports:
  "run_padding cfg sc fuel st es = Returned (st', rs) \<Longrightarrow> r \<in> set rs \<Longrightarrow>
     \<exists>matched pair rs'. verify_pair cfg matched sc fuel pair = Returned rs' \<and> r \<in> set rs'"
proof (induction es arbitrary: st rs)
  case (Cons e es)
  from Cons.prems obtain st1 rs1 rs2 where step: "padding_step cfg sc fuel st e = Returned (st1, rs1)"
    and rest: "run_padding cfg sc fuel st1 es = Returned (st', rs2)" and rs: "rs = rs1 @ rs2"
    by (auto simp: and_then_Returned)
  show ?case
  proof (cases "r \<in> set rs1")
    case True
    with step obtain l where "e = Exit l" and "on_exit cfg sc fuel l st = Returned (st1, rs1)"
      by (cases e) (auto simp: and_then_Returned)
    with True have "verifyPendingPairs cfg sc fuel st = Returned rs1"
      by (auto simp: on_exit_def and_then_Returned split: if_splits)
    with True concat_o_member show ?thesis unfolding verifyPendingPairs_def by metis
  next
    case False
    with Cons.prems(2) rs Cons.IH[OF rest] show ?thesis by auto
  qed
qed simp

lemma readable_pair:
  assumes "verify_pair paddingRule matched sc fuel pair = Returned rs" and "r \<in> set rs"
  shows "spacing_message r = ''expectedBlankLine'' \<and> (\<exists>t. spacing_fix r \<in> {Some (InsertTextAfter t [10]), Some (InsertTextAfter t [10, 10])})"
proof -
  obtain p n where pair: "pair = (p, n)" by (cases pair)
  from assms(1) obtain t ls where t: "getPaddingType paddingRule matched sc p n = Returned t"
    and verdict: "PaddingTypes t sc (fst p) (fst n) ls = Returned rs"
    by (auto simp: verify_pair_def pair and_then_Returned)
  have "t \<noteq> NeverPadding"
    using t by (auto simp: policy_verdict Let_def and_then_Returned split: if_splits)
  moreover have "t \<noteq> AnyPadding" using verdict assms(2) by (auto simp: PaddingTypes_def)
  ultimately have "verifyForAlways sc (fst p) (fst n) ls = Returned rs"
    using verdict by (cases t) (simp_all add: PaddingTypes_def)
  then obtain loc f where "always_fix sc (fst p) (fst n) = Returned f"
    and "rs = [] \<or> rs = [\<lparr>spacing_node = fst n, spacing_message = ''expectedBlankLine'', spacing_loc = loc, spacing_fix = f\<rparr>]"
    using assms(2) by (auto simp: verifyForAlways_def and_then_Returned split: if_splits)
  moreover from this have "\<exists>t. f \<in> {Some (InsertTextAfter t [10]), Some (InsertTextAfter t [10, 10])}"
    by (auto simp: always_fix_def and_then_Returned Let_def case_prod_unfold)
  ultimately show ?thesis using assms(2) by auto
qed

section \<open>What the policy may throw\<close>

definition returns_or_empty :: "'a outcome \<Rightarrow> bool" where
  "returns_or_empty x \<longleftrightarrow> x = Raised EmptySequence \<or> (\<exists>a. x = Returned a)"

lemma returns_or_empty_simps [simp]:
  "returns_or_empty (Returned a)" "returns_or_empty (Raised EmptySequence)"
  by (simp_all add: returns_or_empty_def)

lemma returns_or_empty_then: "returns_or_empty x \<Longrightarrow> (\<And>a. returns_or_empty (f a)) \<Longrightarrow> returns_or_empty (and_then x f)"
  by (cases x) (simp_all add: returns_or_empty_def)

lemma sequence_end_outcome: "returns_or_empty (sequence_end n)"
  by (induction n rule: sequence_end.induct) auto

lemma iife_outcome: "returns_or_empty (isIIFEStatement n)"
  unfolding isIIFEStatement_def Let_def
  by (auto split: option.splits intro!: returns_or_empty_then sequence_end_outcome)

lemma block_like_outcome: "returns_or_empty (isBlockLikeStatement sc l)"
  unfolding isBlockLikeStatement_def Let_def
  by (auto intro!: returns_or_empty_then iife_outcome)

lemma policy_outcomes: "getPaddingType paddingRule m sc l k \<in> {Returned AnyPadding, Returned AlwaysPadding, Raised EmptySequence}"
  using block_like_outcome[of sc "unlabelled (fst l) (snd l)"]
  by (auto simp: policy_verdict Let_def returns_or_empty_def split: if_splits)

section \<open>Properties\<close>

text \<open>
  C6: the handlers of the padding rule never throw, their scopes are balanced, and what is verified at
  the end of a program are exactly the pairs of adjacent statements of its statement lists.
\<close>
theorem padding_pairs_exact:
  "statement_class sc \<Longrightarrow> only_program program \<Longrightarrow>
     \<exists>pairs. mset pairs = mset (adjacent_statements sc program) \<and>
       createPaddingLineRule cfg sc fuel program =
         concat_o (verify_pair cfg (matched_in cfg sc program) sc fuel) pairs"
  by (rule padding_run)

theorem padding_pairs_exact_witness:
  "\<exists>pairs. mset pairs = {# ((sample_import, [sample_program]), (sample_call, [sample_program])) #} \<and>
     createPaddingLineRule paddingRule sample_source 7 sample_program =
       concat_o (verify_pair paddingRule (matched_in paddingRule sample_source sample_program) sample_source 7) pairs"
  using padding_pairs_exact[OF sample_statements sample_root, of paddingRule 7] by (simp add: sample_pairs)



text \<open>
  C19: between two statements the loop over the tokens finds exactly the gaps of a blank line between
  neighbouring tokens and comments, and the test that skips the loop skips it only when there is none.
\<close>
theorem getPaddingLineSequences_exact:
  "tokens_of sc ts \<Longrightarrow> getActualLastToken sc p = Returned prev \<Longrightarrow> placed ts before prev mids u rest n \<Longrightarrow>
     length ts \<le> fuel \<Longrightarrow> getPaddingLineSequences sc fuel p n = Returned (blank_pairs (prev # mids @ [u]))"
  by (rule sequences_exact)

theorem getPaddingLineSequences_exact_witness:
  "getPaddingLineSequences sample_source 7 sample_import sample_call =
     Returned (blank_pairs [punctuator '';'' 10 1, sample_tokens ! 3])"
proof -
  have "placed sample_tokens (take 2 sample_tokens) (punctuator '';'' 10 1) [] (sample_tokens ! 3) (drop 4 sample_tokens) sample_call"
    by (simp add: placed_def sample_tokens_def sample_call_def span_def)
  moreover have "length sample_tokens \<le> 7" by (simp add: sample_tokens_def)
  ultimately show ?thesis
    using getPaddingLineSequences_exact[OF sample_laws sample_last, of "take 2 sample_tokens" "[]"] by simp
qed

text \<open>
  C9: once the fix that asks for a blank line is applied, the rule has nothing more to report between
  the two statements, also with trailing comments and semicolons at the start of a line.
\<close>
theorem verifyForAlways_settles:
  "tokens_of sc ts \<Longrightarrow> tokens_of sc' (map (shift_token (token_stop t) (length nl)) ts) \<Longrightarrow>
     always_fix sc p n = Returned (Some (InsertTextAfter t nl)) \<Longrightarrow>
     u \<in> set ts \<Longrightarrow> token_start u = start (info n) \<Longrightarrow> first_line u = start_line (info n) \<Longrightarrow>
     stop (info p) \<le> start (info n) \<Longrightarrow> length ts \<le> fuel \<Longrightarrow>
     p' = shift_node (token_stop t) (length nl) p \<Longrightarrow> n' = shift_node (token_stop t) (length nl) n \<Longrightarrow>
     and_then (getPaddingLineSequences sc' fuel p' n') (verifyForAlways sc' p' n') = Returned []"
  using insertion_blank[of sc ts sc' t nl p n u fuel] by (auto simp: verifyForAlways_def)

definition fixed_source :: token_source where
  "fixed_source = source_of (map (shift_token 11 1) sample_tokens) [] sample_selector"

theorem verifyForAlways_settles_witness:
  "and_then (getPaddingLineSequences fixed_source 7 (shift_node 11 1 sample_import) (shift_node 11 1 sample_call))
     (verifyForAlways fixed_source (shift_node 11 1 sample_import) (shift_node 11 1 sample_call)) = Returned []"
proof -
  have "in_order (map (shift_token 11 1) sample_tokens)"
    by (simp add: sample_tokens_def punctuator_def in_order_Cons shift_token_def)
  then have "tokens_of fixed_source (map (shift_token 11 1) sample_tokens)"
    unfolding fixed_source_def by (rule source_tokens)
  then show ?thesis
    using verifyForAlways_settles[OF sample_laws _ sample_fix, of fixed_source "sample_tokens ! 3" 7]
    by (simp add: punctuator_def sample_tokens_def sample_call_def sample_import_def span_def)
qed

text \<open>
  The fixes of require-readable-spacing only insert one or two line feeds after a token; it never
  asks for a blank line to go.
\<close>
theorem requireReadableSpacing_inserts:
  "requireReadableSpacing sc fuel program = Returned rs \<Longrightarrow> r \<in> set rs \<Longrightarrow>
     spacing_message r = ''expectedBlankLine'' \<and>
     (\<exists>t. spacing_fix r \<in> {Some (InsertTextAfter t [10]), Some (InsertTextAfter t [10, 10])})"
proof -
  assume run: "requireReadableSpacing sc fuel program = Returned rs" and r: "r \<in> set rs"
  from run obtain st where "run_padding paddingRule sc fuel (create_padding paddingRule) (events program []) = Returned (st, rs)"
    by (auto simp: requireReadableSpacing_def createPaddingLineRule_def and_then_Returned)
  from run_reports[OF this r] show ?thesis using readable_pair by blast
qed

theorem requireReadableSpacing_inserts_witness:
  "\<exists>r. requireReadableSpacing sample_source 7 sample_program = Returned [r] \<and>
     (\<exists>t. spacing_fix r \<in> {Some (InsertTextAfter t [10]), Some (InsertTextAfter t [10, 10])})"
  using requireReadableSpacing_inserts[OF sample_run] sample_run by auto

text \<open>
  C20: the policy of require-readable-spacing, entry after entry from the last, comes to this: grouped
  statements may stand together; else a block before, or a kind of statement that is set apart, asks
  for a blank line.
\<close>
theorem readable_policy_exact:
  "getPaddingType paddingRule m sc l k =
     (let p = unlabelled (fst l) (snd l); n = unlabelled (fst k) (snd k) in
      if grouped m sc (fst p) (fst n) then Returned AnyPadding
      else and_then (isBlockLikeStatement sc p) (\<lambda>block.
        Returned (if block \<or> set_apart m sc (fst p) (fst n) then AlwaysPadding else AnyPadding)))"
  by (rule policy_verdict)


text \<open>
  Every statement type the policy names is known, so the only error it can end in is the one for a
  comma expression without operands; and it never asks for a blank line to be removed.
\<close>
theorem readable_policy_outcomes:
  "getPaddingType paddingRule m sc l k \<in> {Returned AnyPadding, Returned AlwaysPadding, Raised EmptySequence}"
  by (rule policy_outcomes)

end
