(* ===== verification/Rule_Meta.thy ===== *)
theory Rule_Meta
  imports Scopes Text Statement_Types
begin

text \<open>
  The \<open>meta\<close> objects of the rules: kind, description, message templates, option schema and default
  options; and what a report must be to be rendered: it names a message of its rule and supplies a value
  for each placeholder of the template, and no other.
\<close>

section \<open>Rule metadata\<close>

record rule_meta =
  meta_type :: string
  description :: string
  messages :: "(string, string) js_map"
  schema :: "json list"
  defaultOptions :: "json list"

definition noArrayFilterMap_meta :: rule_meta where
  "noArrayFilterMap_meta =
     \<lparr>meta_type = ''suggestion'',
      description =
        ''Disallow adjacent array filter/map passes in favor of lazy iterator helpers or a single transformation.'',
      messages =
       [(''arrayFilterMap'',
         ''Avoid consecutive array `{{first}}` and `{{second}}` passes. Prefer `.values().{{first}}(...).{{second}}(...).toArray()` where iterator helpers are supported, or a single `flatMap`/mutating reducer. Preserve callback ordering, indexes, and filtering semantics.'')],
      schema = [],
      defaultOptions = []\<rparr>"

definition noReduceAccumulatorCopy_meta :: rule_meta where
  "noReduceAccumulatorCopy_meta =
     \<lparr>meta_type = ''problem'',
      description =
        ''Disallow copying growing reducer accumulators with Object.assign, Array.from, or array copy methods.'',
      messages =
       [(''accumulatorCopy'',
         ''Do not copy the reducer accumulator on every iteration; growing copies can cause quadratic work. Mutate a fresh, locally owned accumulator and return it, or use an iterator pipeline/flatMap.'')],
      schema = [],
      defaultOptions = []\<rparr>"

definition noChainedTypeAssertions_meta :: rule_meta where
  "noChainedTypeAssertions_meta =
     \<lparr>meta_type = ''problem'',
      description =
        ''Disallow chained TypeScript as and angle-bracket assertions, including parenthesized chains.'',
      messages =
       [(''chained'',
         ''This assertion chain discards type evidence. Keep the original precise type, or parse untrusted input at its boundary before narrowing it.'')],
      schema = [],
      defaultOptions = []\<rparr>"

definition noConditionalEmptyObjectSpread_meta :: rule_meta where
  "noConditionalEmptyObjectSpread_meta =
     \<lparr>meta_type = ''suggestion'',
      description =
        ''Disallow object spreads that conditionally spread an empty object to omit fields.'',
      messages =
       [(''avoid'',
         ''This conditional spread hides property omission behind an empty object. Build the object in separate statements and add the property only when present.'')],
      schema = [],
      defaultOptions = []\<rparr>"

definition noKnownValueWidening_meta :: rule_meta where
  "noKnownValueWidening_meta =
     \<lparr>meta_type = ''problem'',
      description =
        ''Disallow syntactically established values from flowing into explicitly broad or anonymous target types that discard useful evidence.'',
      messages =
       [(''widening'',
         ''The explicit {{target}} type on {{subject}} discards known type evidence. Keep inference, validate with `satisfies`, or use a named owner contract.'')],
      schema = [],
      defaultOptions = []\<rparr>"

definition noModuleMocking_meta :: rule_meta where
  "noModuleMocking_meta =
     \<lparr>meta_type = ''problem'',
      description =
        ''Disallow Vitest and Jest module mocking; tests must replace dependencies through real interfaces.'',
      messages =
       [(''moduleMock'',
         ''Replace module mocking with dependency injection through a real interface, service layer, or faithful test implementation.'')],
      schema = [],
      defaultOptions = []\<rparr>"

definition noObjectParameters_meta :: rule_meta where
  "noObjectParameters_meta =
     \<lparr>meta_type = ''problem'',
      description =
        ''Disallow object function parameters; inputs must use an owner-provided type and be parsed at their boundary.'',
      messages =
       [(''objectParameter'',
         ''Parameter `{{parameter}}` uses the broad `object` type. Accept a named owner type; parse external input at its boundary before calling this function.'')],
      schema = [],
      defaultOptions = []\<rparr>"

definition noReflectApply_meta :: rule_meta where
  "noReflectApply_meta =
     \<lparr>meta_type = ''problem'',
      description =
        ''Disallow Reflect.apply; call typed functions directly or model dynamic dispatch behind an interface.'',
      messages =
       [(''reflectApply'',
         ''Replace `Reflect.apply` with a typed function call. Model dynamic dispatch behind a named interface.'')],
      schema = [],
      defaultOptions = []\<rparr>"

definition noReflectGet_meta :: rule_meta where
  "noReflectGet_meta =
     \<lparr>meta_type = ''problem'',
      description =
        ''Disallow Reflect.get; use typed property access or parse dynamic input into a domain type.'',
      messages =
       [(''reflectGet'',
         ''Replace `Reflect.get` with typed property access. Parse dynamic input into a named domain type before reading it.'')],
      schema = [],
      defaultOptions = []\<rparr>"

definition noRuntimeTypeof_meta :: rule_meta where
  "noRuntimeTypeof_meta =
     \<lparr>meta_type = ''problem'',
      description =
        ''Disallow runtime typeof checks; external values must be decoded into meaningful types at their I/O boundary.'',
      messages =
       [(''runtimeTypeof'',
         ''A `typeof` check narrows a representation without establishing its contract. Parse input at its I/O boundary, then branch on the domain value.'')],
      schema = [JObject [(''type'', JString ''object''), (''properties'', JObject [(''allowInTypeGuards'', JObject [(''type'', JString ''boolean'')])]), (''additionalProperties'', JBool False)]],
      defaultOptions = [JObject [(''allowInTypeGuards'', JBool False)]]\<rparr>"

definition noUnsafeDictionaryType_meta :: rule_meta where
  "noUnsafeDictionaryType_meta =
     \<lparr>meta_type = ''problem'',
      description =
        ''Disallow object-dictionary contracts whose direct value type is unknown, any, object, {}, or a union/alias containing one of those escape hatches.'',
      messages =
       [(''unsafeDictionary'',
         ''This dictionary's {{value}} value type gives callers no concrete value contract. Use an owner/schema-derived value type; parse external payloads before insertion.'')],
      schema = [],
      defaultOptions = []\<rparr>"

definition noForbiddenTermInSymbolNames_meta :: rule_meta where
  "noForbiddenTermInSymbolNames_meta =
     \<lparr>meta_type = ''problem'',
      description =
        ''Disallow the case-insensitive substring \"shape\" in JavaScript, TypeScript, private, and JSX symbol names.'',
      messages =
       [(''forbiddenSymbolName'',
         ''Rename symbol \"{{name}}\" for its domain role; \"shape\" describes structure rather than ownership.'')],
      schema = [],
      defaultOptions = []\<rparr>"

definition noUnknownParameters_meta :: rule_meta where
  "noUnknownParameters_meta =
     \<lparr>meta_type = ''problem'',
      description =
        ''Disallow explicitly unknown function parameters except `cause` and type-predicate subjects; decode unknown input at its I/O boundary instead.'',
      messages =
       [(''unknownParameter'',
         ''Parameter `{{parameter}}` leaves input unparsed. Accept a named domain type; run the expected schema or parser at the I/O boundary before calling this function.'')],
      schema = [],
      defaultOptions = []\<rparr>"

definition noUnknownReturns_meta :: rule_meta where
  "noUnknownReturns_meta =
     \<lparr>meta_type = ''problem'',
      description =
        ''Disallow functions whose explicit return contract is unknown or Promise<unknown>.'',
      messages =
       [(''unknownReturn'',
         ''This function exposes `unknown` to its caller. Parse the value at its boundary and return a named domain type.'')],
      schema = [],
      defaultOptions = []\<rparr>"

definition noUnknownTypeAliases_meta :: rule_meta where
  "noUnknownTypeAliases_meta =
     \<lparr>meta_type = ''problem'',
      description =
        ''Disallow type aliases whose resolved type is unknown; unknown must remain visible at an allowed boundary.'',
      messages =
       [(''unknownAlias'',
         ''Type alias `{{alias}}` hides `unknown`. Keep `unknown` explicit at the parsing boundary or on an allowed `cause` field; otherwise use the parsed owner type.'')],
      schema = [],
      defaultOptions = []\<rparr>"

definition noWidenThenAssert_meta :: rule_meta where
  "noWidenThenAssert_meta =
     \<lparr>meta_type = ''problem'',
      description =
        ''Disallow local const flows that explicitly widen a known value before asserting the widened binding to a narrower type.'',
      messages =
       [(''widenThenAssert'',
         ''Binding \"{{name}}\" discards type evidence and later recreates it with an assertion. Keep the precise type from initialization through use; parse boundary input once.'')],
      schema = [],
      defaultOptions = []\<rparr>"

definition requireSafetyCommentForTypeAssertion_meta :: rule_meta where
  "requireSafetyCommentForTypeAssertion_meta =
     \<lparr>meta_type = ''problem'',
      description =
        ''Require a nearby SAFETY comment for every TypeScript type assertion except const assertions.'',
      messages =
       [(''missingSafetyComment'',
         ''This type assertion has no `{{marker}}:` justification. State the checked invariant immediately before the assertion or its containing statement.'')],
      schema = [JObject [(''type'', JString ''object''), (''properties'', JObject [(''markers'', JObject [(''type'', JString ''array''), (''items'', JObject [(''type'', JString ''string''), (''minLength'', JNumber 1)]), (''minItems'', JNumber 1), (''uniqueItems'', JBool True)])]), (''additionalProperties'', JBool False)]],
      defaultOptions = [JObject [(''markers'', JArray [JString ''SAFETY''])]]\<rparr>"

definition noManualEffectErrorTag_meta :: rule_meta where
  "noManualEffectErrorTag_meta =
     \<lparr>meta_type = ''problem'',
      description =
        ''Use Effect tagged error handlers instead of manually branching on `_tag` in a catch handler.'',
      messages =
       [(''tag'',
         ''Use Effect.catchTag or Effect.catchTags instead of manually discriminating a tagged error in a broad Effect catch handler.''),
        (''reason'',
         ''Use Effect.catchReason or Effect.catchReasons instead of manually discriminating a tagged `reason` in a broad Effect catch handler.'')],
      schema = [],
      defaultOptions = []\<rparr>"

definition noManualTagComparison_meta :: rule_meta where
  "noManualTagComparison_meta =
     \<lparr>meta_type = ''problem'',
      description =
        ''Use Effect Match or Predicate helpers instead of manually branching on `_tag`.'',
      messages =
       [(''manualComparison'',
         ''Use Match.tag/Match.tags for tagged-value branching, or Predicate.isTagged for a simple reusable predicate.''),
        (''manualSwitch'',
         ''Use Match.value(value).pipe(Match.tag/Match.tags/Match.tagsExhaustive) or the tagged enum `$match` helper instead of switching on `_tag`.'')],
      schema = [],
      defaultOptions = []\<rparr>"

definition noManualTaggedConstruction_meta :: rule_meta where
  "noManualTaggedConstruction_meta =
     \<lparr>meta_type = ''problem'',
      description =
        ''Construct tagged values with their existing Effect constructor instead of writing `_tag` manually.'',
      messages =
       [(''manualConstruction'',
         ''Use the existing Schema tagged `.make`, tagged class/error constructor, or Data.taggedEnum variant constructor instead of writing a literal `_tag` object.'')],
      schema = [],
      defaultOptions = []\<rparr>"

definition noServiceConstructorImports_meta :: rule_meta where
  "noServiceConstructorImports_meta =
     \<lparr>meta_type = ''problem'',
      description =
        ''Disallow project-local make<CapabilityName> imports outside test and spec files.'',
      messages =
       [(''serviceConstructorImport'',
         ''Do not import Effect service constructor \"{{name}}\" into runtime code. Import the owning Layer, yield the contextual service, and allow its requirements to propagate to the composition root.'')],
      schema = [],
      defaultOptions = []\<rparr>"

definition preferEffectMatch_meta :: rule_meta where
  "preferEffectMatch_meta =
     \<lparr>meta_type = ''problem'',
      description =
        ''Use Match from Effect for chained literal ternaries over the same value.'',
      messages =
       [(''preferMatch'',
         ''Use Match from Effect instead of a chained literal ternary.'')],
      schema = [],
      defaultOptions = []\<rparr>"

text \<open>
  \<open>require-readable-spacing\<close> spreads the metadata of the padding rule, and replaces its description and
  its schema.
\<close>

definition schema_ref :: "string \<Rightarrow> json" where
  "schema_ref name = JObject [(''$ref'', JString (''#/$defs/'' @ name))]"

definition enum_schema :: "string list \<Rightarrow> json" where
  "enum_schema names = JObject [(''type'', JString ''string''), (''enum'', JArray (map JString names))]"

definition padding_schema :: json where
  "padding_schema =
     JObject
      [(''$defs'', JObject
         [(''paddingType'', enum_schema [''any'', ''never'', ''always'']),
          (''statementType'', enum_schema (map fst StatementTypes)),
          (''selectorOption'', JObject
            [(''type'', JString ''object''),
             (''properties'', JObject
               [(''selector'', JObject [(''type'', JString ''string'')]),
                (''lineMode'', enum_schema [''any'', ''singleline'', ''multiline''])]),
             (''required'', JArray [JString ''selector'']), (''additionalProperties'', JBool False)]),
          (''statementMatcher'', JObject
            [(''anyOf'', JArray [schema_ref ''statementType'', schema_ref ''selectorOption''])]),
          (''statementOption'', JObject
            [(''anyOf'', JArray
               [schema_ref ''statementMatcher'',
                JObject [(''type'', JString ''array''), (''items'', schema_ref ''statementMatcher''),
                         (''minItems'', JNumber 1), (''uniqueItems'', JBool True),
                         (''additionalItems'', JBool False)]])])]),
       (''type'', JString ''array''), (''additionalItems'', JBool False),
       (''items'', JObject
         [(''type'', JString ''object''),
          (''properties'', JObject
            [(''blankLine'', schema_ref ''paddingType''), (''prev'', schema_ref ''statementOption''),
             (''next'', schema_ref ''statementOption'')]),
          (''additionalProperties'', JBool False),
          (''required'', JArray [JString ''blankLine'', JString ''prev'', JString ''next''])])]"

record fixing_meta = rule_meta +
  fixable :: string
  hasSuggestions :: bool

definition padding_meta :: fixing_meta where
  "padding_meta =
     \<lparr>meta_type = ''layout'',
      description = ''Require or disallow padding lines between statements'',
      messages =
       [(''unexpectedBlankLine'', ''Unexpected blank line before this statement.''),
        (''expectedBlankLine'', ''Expected blank line before this statement.'')],
      schema = [padding_schema],
      defaultOptions = [],
      fixable = ''whitespace'',
      hasSuggestions = False\<rparr>"

definition requireReadableSpacing_meta :: fixing_meta where
  "requireReadableSpacing_meta =
     padding_meta\<lparr>description := ''Require readable spacing between declarations and logical statement groups.'',
                  schema := []\<rparr>"

section \<open>Reports that can be rendered\<close>

text \<open>The names between double braces of a template.\<close>

fun placeholders :: "string \<Rightarrow> string list" where
  "placeholders [] = []"
| "placeholders (c # cs) =
     (if starts_with ''{{'' (c # cs) then [takeWhile (\<lambda>d. d \<noteq> CHR ''}'') (tl cs)] else []) @ placeholders cs"

definition message_table :: "'a rule_meta_scheme \<Rightarrow> (string, string list) js_map" where
  "message_table meta = map (\<lambda>(k, t). (k, placeholders t)) (messages meta)"

definition renders :: "'a rule_meta_scheme \<Rightarrow> report \<Rightarrow> bool" where
  "renders meta r =
     (case get (messages meta) (message_id r) of
        None \<Rightarrow> False
      | Some template \<Rightarrow> set (placeholders template) = set (map fst (report_data r)))"

lemma renders_table:
  "renders meta r =
     (case get (message_table meta) (message_id r) of
        None \<Rightarrow> False | Some names \<Rightarrow> set names = set (map fst (report_data r)))"
  by (simp add: renders_def message_table_def map_of_map split: option.split)

text \<open>The tables, computed once.\<close>

lemma message_tables [simp]:
  "message_table noArrayFilterMap_meta = [(''arrayFilterMap'', [''first'', ''second'', ''first'', ''second''])]"
  "message_table noReduceAccumulatorCopy_meta = [(''accumulatorCopy'', [])]"
  "message_table noChainedTypeAssertions_meta = [(''chained'', [])]"
  "message_table noConditionalEmptyObjectSpread_meta = [(''avoid'', [])]"
  "message_table noKnownValueWidening_meta = [(''widening'', [''target'', ''subject''])]"
  "message_table noModuleMocking_meta = [(''moduleMock'', [])]"
  "message_table noObjectParameters_meta = [(''objectParameter'', [''parameter''])]"
  "message_table noReflectApply_meta = [(''reflectApply'', [])]"
  "message_table noReflectGet_meta = [(''reflectGet'', [])]"
  "message_table noRuntimeTypeof_meta = [(''runtimeTypeof'', [])]"
  "message_table noUnsafeDictionaryType_meta = [(''unsafeDictionary'', [''value''])]"
  "message_table noForbiddenTermInSymbolNames_meta = [(''forbiddenSymbolName'', [''name''])]"
  "message_table noUnknownParameters_meta = [(''unknownParameter'', [''parameter''])]"
  "message_table noUnknownReturns_meta = [(''unknownReturn'', [])]"
  "message_table noUnknownTypeAliases_meta = [(''unknownAlias'', [''alias''])]"
  "message_table noWidenThenAssert_meta = [(''widenThenAssert'', [''name''])]"
  "message_table requireSafetyCommentForTypeAssertion_meta = [(''missingSafetyComment'', [''marker''])]"
  "message_table noManualEffectErrorTag_meta = [(''tag'', []), (''reason'', [])]"
  "message_table noManualTagComparison_meta = [(''manualComparison'', []), (''manualSwitch'', [])]"
  "message_table noManualTaggedConstruction_meta = [(''manualConstruction'', [])]"
  "message_table noServiceConstructorImports_meta = [(''serviceConstructorImport'', [''name''])]"
  "message_table preferEffectMatch_meta = [(''preferMatch'', [])]"
  "message_table requireReadableSpacing_meta = [(''unexpectedBlankLine'', []), (''expectedBlankLine'', [])]"
  by code_simp+

end
