(* ===== verification/Plugin.thy ===== *)
theory Plugin
  imports Rule_Meta Array_Rules Contract_Rules Syntax_Rules Reflect_Rules Assertion_Rules Dictionary_Rule
    Value_Widening Widen_Assert Effect_Rules Readable_Spacing
begin

text \<open>
  The two plugins, \<open>index.ts\<close> and \<open>effect/index.ts\<close>: their rules with metadata and handlers, and how the
  linter runs them over files. The variables a rule's \<open>createOnce\<close> declares live as long as the linter;
  so does the cache of alias environments, which the modules share.
\<close>

section \<open>Rules\<close>

text \<open>What a rule sees of a file, and the variables its handlers close over.\<close>

record lint_context =
  code :: source_code
  token_code :: token_source
  rule_options :: "json list"
  filename :: string

datatype closure =
    NoState
  | Environment "environment option"
  | TypeEnvironment "type_environment option"
  | ScopeList "scope list"
  | Patterns pattern_cache

type_synonym file_run =
  "lint_context \<Rightarrow> nat \<Rightarrow> environment_cache \<Rightarrow> closure \<Rightarrow> node \<Rightarrow>
     (environment_cache \<times> closure \<times> report list) outcome"

record rule =
  meta :: rule_meta
  createOnce :: closure
  run_file :: file_run

text \<open>Handlers without state are called at every location; the others thread theirs.\<close>

definition at_each :: "(lint_context \<Rightarrow> loc \<Rightarrow> report list) \<Rightarrow> file_run" where
  "at_each handler ctx fuel cache st program =
     Returned (cache, st, concat (map (handler ctx) (locations program [])))"

definition in_time :: "'a option \<Rightarrow> 'a outcome" where
  "in_time x = (case x of None \<Rightarrow> OutOfFuel | Some a \<Rightarrow> Returned a)"

definition with_environment ::
  "(lint_context \<Rightarrow> nat \<Rightarrow> captured \<Rightarrow> loc \<Rightarrow> (captured \<times> report list) option) \<Rightarrow> file_run" where
  "with_environment handler ctx fuel cache st program =
     (let environment = (case st of Environment e \<Rightarrow> e | _ \<Rightarrow> None);
          entered = captureEnvironment (code ctx) program
            \<lparr>captured_environment = environment, environmentsByProgram = cache\<rparr>
      in and_then (in_time (run_rule (handler ctx fuel) entered (locations program [])))
           (\<lambda>(st', reports). Returned (environmentsByProgram st', Environment (captured_environment st'), reports)))"

definition with_types ::
  "(lint_context \<Rightarrow> nat \<Rightarrow> dictionary_state \<Rightarrow> loc \<Rightarrow> (dictionary_state \<times> report list) option) \<Rightarrow> file_run" where
  "with_types handler ctx fuel cache st program =
     (let environment = (case st of TypeEnvironment e \<Rightarrow> e | _ \<Rightarrow> None);
          entered = enterProgram (code ctx) program
            \<lparr>dictionary_environment = environment, dictionary_cache = cache\<rparr>
      in and_then (in_time (run_rule (handler ctx fuel) entered (locations program [])))
           (\<lambda>(st', reports). Returned (dictionary_cache st', TypeEnvironment (dictionary_environment st'), reports)))"

definition with_scopes ::
  "(lint_context \<Rightarrow> scope list \<Rightarrow> loc \<Rightarrow> (scope list \<times> report list) option) \<Rightarrow> file_run" where
  "with_scopes handler ctx fuel cache st program =
     (let known = (case st of ScopeList ss \<Rightarrow> ss | _ \<Rightarrow> []);
          entered = enterScopes (code ctx) program known
      in and_then (in_time (run_rule (handler ctx) entered (locations program [])))
           (\<lambda>(st', reports). Returned (cache, ScopeList st', reports)))"

definition with_patterns ::
  "(lint_context \<Rightarrow> loc \<Rightarrow> pattern_cache \<Rightarrow> pattern_cache \<times> report list) \<Rightarrow> file_run" where
  "with_patterns handler ctx fuel cache st program =
     (let patterns = (case st of Patterns p \<Rightarrow> p | _ \<Rightarrow> [])
      in and_then (in_time (run_rule (\<lambda>p l. Some (handler ctx l p)) patterns (locations program [])))
           (\<lambda>(st', reports). Returned (cache, Patterns st', reports)))"

definition spacing_to_report :: "spacing_report \<Rightarrow> report" where
  "spacing_to_report r = \<lparr>report_node = spacing_node r, message_id = spacing_message r, report_data = []\<rparr>"

definition with_tokens :: "(token_source \<Rightarrow> nat \<Rightarrow> node \<Rightarrow> spacing_report list outcome) \<Rightarrow> file_run" where
  "with_tokens rule_run ctx fuel cache st program =
     and_then (rule_run (token_code ctx) fuel program)
       (\<lambda>reports. Returned (cache, st, map spacing_to_report reports))"

definition noArrayFilterMapRule :: rule where
  "noArrayFilterMapRule =
     \<lparr>meta = noArrayFilterMap_meta, createOnce = NoState,
      run_file = at_each (\<lambda>ctx l. noArrayFilterMap (code ctx) (fst l))\<rparr>"

definition noReduceAccumulatorCopyRule :: rule where
  "noReduceAccumulatorCopyRule =
     \<lparr>meta = noReduceAccumulatorCopy_meta, createOnce = NoState,
      run_file = at_each (\<lambda>ctx. noReduceAccumulatorCopy (code ctx))\<rparr>"

definition noChainedTypeAssertionsRule :: rule where
  "noChainedTypeAssertionsRule =
     \<lparr>meta = noChainedTypeAssertions_meta, createOnce = NoState,
      run_file = at_each (\<lambda>ctx. noChainedTypeAssertions)\<rparr>"

definition noConditionalEmptyObjectSpreadRule :: rule where
  "noConditionalEmptyObjectSpreadRule =
     \<lparr>meta = noConditionalEmptyObjectSpread_meta, createOnce = NoState,
      run_file = at_each (\<lambda>ctx. noConditionalEmptyObjectSpread)\<rparr>"

definition noKnownValueWideningRule :: rule where
  "noKnownValueWideningRule =
     \<lparr>meta = noKnownValueWidening_meta, createOnce = TypeEnvironment None,
      run_file = with_types (\<lambda>ctx. noKnownValueWidening (code ctx))\<rparr>"

definition noModuleMockingRule :: rule where
  "noModuleMockingRule =
     \<lparr>meta = noModuleMocking_meta, createOnce = NoState,
      run_file = at_each (\<lambda>ctx l. noModuleMocking (code ctx) (fst l))\<rparr>"

definition noObjectParametersRule :: rule where
  "noObjectParametersRule =
     \<lparr>meta = noObjectParameters_meta, createOnce = Environment None,
      run_file = with_environment (\<lambda>ctx. noObjectParameters (code ctx))\<rparr>"

definition noReflectApplyRule :: rule where
  "noReflectApplyRule =
     \<lparr>meta = noReflectApply_meta, createOnce = NoState,
      run_file = at_each (\<lambda>ctx l. noReflectApply (code ctx) (fst l))\<rparr>"

definition noReflectGetRule :: rule where
  "noReflectGetRule =
     \<lparr>meta = noReflectGet_meta, createOnce = NoState,
      run_file = at_each (\<lambda>ctx l. noReflectGet (code ctx) (fst l))\<rparr>"

definition noRuntimeTypeofRule :: rule where
  "noRuntimeTypeofRule =
     \<lparr>meta = noRuntimeTypeof_meta, createOnce = NoState,
      run_file = at_each (\<lambda>ctx. noRuntimeTypeof (rule_options ctx))\<rparr>"

definition noUnsafeDictionaryTypeRule :: rule where
  "noUnsafeDictionaryTypeRule =
     \<lparr>meta = noUnsafeDictionaryType_meta, createOnce = TypeEnvironment None,
      run_file = with_types (\<lambda>ctx. noUnsafeDictionaryType)\<rparr>"

definition noForbiddenTermInSymbolNamesRule :: rule where
  "noForbiddenTermInSymbolNamesRule =
     \<lparr>meta = noForbiddenTermInSymbolNames_meta, createOnce = NoState,
      run_file = at_each (\<lambda>ctx. noShapeInSymbolNames)\<rparr>"

definition noUnknownParametersRule :: rule where
  "noUnknownParametersRule =
     \<lparr>meta = noUnknownParameters_meta, createOnce = NoState,
      run_file = at_each (\<lambda>ctx. noUnknownParameters (code ctx))\<rparr>"

definition noUnknownReturnsRule :: rule where
  "noUnknownReturnsRule =
     \<lparr>meta = noUnknownReturns_meta, createOnce = Environment None,
      run_file = with_environment (\<lambda>ctx. noUnknownReturns)\<rparr>"

definition noUnknownTypeAliasesRule :: rule where
  "noUnknownTypeAliasesRule =
     \<lparr>meta = noUnknownTypeAliases_meta, createOnce = Environment None,
      run_file = with_environment (\<lambda>ctx. noUnknownTypeAliases)\<rparr>"

definition noWidenThenAssertRule :: rule where
  "noWidenThenAssertRule =
     \<lparr>meta = noWidenThenAssert_meta, createOnce = ScopeList [],
      run_file = with_scopes (\<lambda>ctx. noWidenThenAssert (code ctx))\<rparr>"

definition requireReadableSpacingRule :: rule where
  "requireReadableSpacingRule =
     \<lparr>meta = rule_meta.truncate requireReadableSpacing_meta, createOnce = NoState,
      run_file = with_tokens requireReadableSpacing\<rparr>"

definition requireSafetyCommentForTypeAssertionRule :: rule where
  "requireSafetyCommentForTypeAssertionRule =
     \<lparr>meta = requireSafetyCommentForTypeAssertion_meta, createOnce = Patterns [],
      run_file = with_patterns (\<lambda>ctx. checkAssertion (code ctx) (at (rule_options ctx) 0))\<rparr>"

definition noManualEffectErrorTagRule :: rule where
  "noManualEffectErrorTagRule =
     \<lparr>meta = noManualEffectErrorTag_meta, createOnce = NoState,
      run_file = at_each (\<lambda>ctx. noManualEffectErrorTag)\<rparr>"

definition noManualTagComparisonRule :: rule where
  "noManualTagComparisonRule =
     \<lparr>meta = noManualTagComparison_meta, createOnce = NoState,
      run_file = at_each (\<lambda>ctx. noManualTagComparison)\<rparr>"

definition noManualTaggedConstructionRule :: rule where
  "noManualTaggedConstructionRule =
     \<lparr>meta = noManualTaggedConstruction_meta, createOnce = NoState,
      run_file = at_each (\<lambda>ctx. noManualTaggedConstruction)\<rparr>"

definition noServiceConstructorImportsRule :: rule where
  "noServiceConstructorImportsRule =
     \<lparr>meta = noServiceConstructorImports_meta, createOnce = NoState,
      run_file = at_each (\<lambda>ctx. noServiceConstructorImports (filename ctx))\<rparr>"

definition preferEffectMatchRule :: rule where
  "preferEffectMatchRule =
     \<lparr>meta = preferEffectMatch_meta, createOnce = NoState,
      run_file = at_each (\<lambda>ctx. preferEffectMatch (code ctx))\<rparr>"

section \<open>Plugins\<close>

record plugin =
  plugin_name :: string
  rules :: "(string, rule) js_map"

definition antiSlopPlugin :: plugin where
  "antiSlopPlugin =
     \<lparr>plugin_name = ''anti-slop'',
      rules =
       [(''no-array-filter-map'', noArrayFilterMapRule),
        (''no-reduce-accumulator-copy'', noReduceAccumulatorCopyRule),
        (''no-chained-type-assertions'', noChainedTypeAssertionsRule),
        (''no-conditional-empty-object-spread'', noConditionalEmptyObjectSpreadRule),
        (''no-known-value-widening'', noKnownValueWideningRule),
        (''no-module-mocking'', noModuleMockingRule),
        (''no-object-parameters'', noObjectParametersRule),
        (''no-reflect-apply'', noReflectApplyRule),
        (''no-reflect-get'', noReflectGetRule),
        (''no-runtime-typeof'', noRuntimeTypeofRule),
        (''no-unsafe-dictionary-type'', noUnsafeDictionaryTypeRule),
        (''no-shape-in-symbol-names'', noForbiddenTermInSymbolNamesRule),
        (''no-unknown-parameters'', noUnknownParametersRule),
        (''no-unknown-returns'', noUnknownReturnsRule),
        (''no-unknown-type-aliases'', noUnknownTypeAliasesRule),
        (''no-widen-then-assert'', noWidenThenAssertRule),
        (''require-readable-spacing'', requireReadableSpacingRule),
        (''require-safety-comment-for-type-assertion'', requireSafetyCommentForTypeAssertionRule)]\<rparr>"

definition antiSlopEffectPlugin :: plugin where
  "antiSlopEffectPlugin =
     \<lparr>plugin_name = ''anti-slop-effect'',
      rules =
       [(''no-manual-effect-error-tag'', noManualEffectErrorTagRule),
        (''no-manual-tag-comparison'', noManualTagComparisonRule),
        (''no-manual-tagged-construction'', noManualTaggedConstructionRule),
        (''no-service-constructor-imports'', noServiceConstructorImportsRule),
        (''prefer-effect-match'', preferEffectMatchRule)]\<rparr>"

section \<open>Linting files\<close>

text \<open>
  The linter's memory: the module's cache, and for every rule its closure. A file is linted by all rules
  of a plugin in their order; a run over files keeps the memory.
\<close>

record memory =
  shared_cache :: environment_cache
  closures :: "string \<Rightarrow> closure"

type_synonym linted_file = "(string \<Rightarrow> lint_context) \<times> node"

fun run_rules ::
  "(string, rule) js_map \<Rightarrow> nat \<Rightarrow> linted_file \<Rightarrow> memory \<Rightarrow> (memory \<times> (string \<times> report) list) outcome" where
  "run_rules [] fuel f mem = Returned (mem, [])"
| "run_rules ((name, r) # rs) fuel f mem =
     and_then (run_file r (fst f name) fuel (shared_cache mem) (closures mem name) (snd f))
       (\<lambda>(cache, st, reports).
          and_then (run_rules rs fuel f \<lparr>shared_cache = cache, closures = (closures mem)(name := st)\<rparr>)
            (\<lambda>(mem', more). Returned (mem', map (Pair name) reports @ more)))"

definition fresh :: "plugin \<Rightarrow> memory" where
  "fresh p = \<lparr>shared_cache = [], closures = (\<lambda>name. case get (rules p) name of None \<Rightarrow> NoState | Some r \<Rightarrow> createOnce r)\<rparr>"

definition lint_file :: "plugin \<Rightarrow> nat \<Rightarrow> linted_file \<Rightarrow> memory \<Rightarrow> (memory \<times> (string \<times> report) list) outcome" where
  "lint_file p = run_rules (rules p)"

fun lint_files :: "plugin \<Rightarrow> nat \<Rightarrow> linted_file list \<Rightarrow> memory \<Rightarrow> (string \<times> report) list list outcome" where
  "lint_files p fuel [] mem = Returned []"
| "lint_files p fuel (f # fs) mem =
     and_then (lint_file p fuel f mem) (\<lambda>(mem', reports).
       and_then (lint_files p fuel fs mem') (\<lambda>more. Returned (reports # more)))"

end
