(* ===== verification/Plugin_Runs.thy ===== *)
theory Plugin_Runs
  imports Plugin Padding_Examples Dictionary_Examples
begin

text \<open>
  What holds of the rules together: every report can be rendered with the metadata of its rule, and
  what a run reports for a file does not depend on the files linted before.
\<close>

section \<open>Reports name a message and fill its placeholders\<close>

definition renders_all :: "rule_meta \<Rightarrow> report list \<Rightarrow> bool" where
  "renders_all m rs \<longleftrightarrow> list_all (renders m) rs"

lemma renders_all_simps [simp]:
  "renders_all m []" "renders_all m (r # rs) \<longleftrightarrow> renders m r \<and> renders_all m rs"
  "renders_all m (rs @ rs') \<longleftrightarrow> renders_all m rs \<and> renders_all m rs'"
  by (simp_all add: renders_all_def)

lemma renders_all_concat: "(\<And>x. x \<in> set xs \<Longrightarrow> renders_all m (f x)) \<Longrightarrow> renders_all m (concat (map f xs))"
  by (induction xs) simp_all

lemma renders_all_loop:
  "concat_map_m f xs = Some rs \<Longrightarrow> (\<And>x ys. f x = Some ys \<Longrightarrow> renders_all m ys) \<Longrightarrow> renders_all m rs"
proof (induction xs arbitrary: rs)
  case (Cons x xs)
  then show ?case by (auto simp: concat_map_m_def split: option.splits)
qed (simp add: concat_map_m_def)

lemma run_rule_renders:
  "run_rule step st ls = Some (st', rs) \<Longrightarrow> (\<And>st l st' rs. step st l = Some (st', rs) \<Longrightarrow> renders_all m rs) \<Longrightarrow>
     renders_all m rs"
proof (induction ls arbitrary: st rs)
  case (Cons l ls)
  then show ?case by (fastforce split: option.splits)
qed simp

definition renderable :: "rule \<Rightarrow> bool" where
  "renderable r \<longleftrightarrow>
     (\<forall>ctx fuel cache st program cache' st' rs.
        run_file r ctx fuel cache st program = Returned (cache', st', rs) \<longrightarrow> renders_all (meta r) rs)"

lemma renderable_at_each:
  "(\<And>ctx l. renders_all m (f ctx l)) \<Longrightarrow> renderable \<lparr>meta = m, createOnce = c, run_file = at_each f\<rparr>"
  by (auto simp: renderable_def at_each_def intro!: renders_all_concat)

lemma renderable_with_environment:
  "(\<And>ctx fuel st l st' rs. f ctx fuel st l = Some (st', rs) \<Longrightarrow> renders_all m rs) \<Longrightarrow>
     renderable \<lparr>meta = m, createOnce = c, run_file = with_environment f\<rparr>"
  by (auto simp: renderable_def with_environment_def in_time_def and_then_Returned Let_def
      split: option.splits elim!: run_rule_renders)

lemma renderable_with_types:
  "(\<And>ctx fuel st l st' rs. f ctx fuel st l = Some (st', rs) \<Longrightarrow> renders_all m rs) \<Longrightarrow>
     renderable \<lparr>meta = m, createOnce = c, run_file = with_types f\<rparr>"
  by (auto simp: renderable_def with_types_def in_time_def and_then_Returned Let_def
      split: option.splits elim!: run_rule_renders)

lemma renderable_with_scopes:
  "(\<And>ctx st l st' rs. f ctx st l = Some (st', rs) \<Longrightarrow> renders_all m rs) \<Longrightarrow>
     renderable \<lparr>meta = m, createOnce = c, run_file = with_scopes f\<rparr>"
  by (auto simp: renderable_def with_scopes_def in_time_def and_then_Returned Let_def
      split: option.splits elim!: run_rule_renders)

lemma renderable_with_patterns:
  "(\<And>ctx st l. renders_all m (snd (f ctx l st))) \<Longrightarrow>
     renderable \<lparr>meta = m, createOnce = c, run_file = with_patterns f\<rparr>"
  unfolding renderable_def with_patterns_def in_time_def
  by (auto simp: and_then_Returned Let_def split: option.splits elim!: run_rule_renders) (metis snd_conv)

lemma stateless_reports:
  "renders_all noArrayFilterMap_meta (noArrayFilterMap sc n)"
  "renders_all noReduceAccumulatorCopy_meta (noReduceAccumulatorCopy sc l)"
  "renders_all noChainedTypeAssertions_meta (noChainedTypeAssertions l)"
  "renders_all noConditionalEmptyObjectSpread_meta (noConditionalEmptyObjectSpread l)"
  "renders_all noModuleMocking_meta (noModuleMocking sc n)"
  "renders_all noReflectApply_meta (noReflectApply sc n)"
  "renders_all noReflectGet_meta (noReflectGet sc n)"
  "renders_all noRuntimeTypeof_meta (noRuntimeTypeof opts l)"
  "renders_all noForbiddenTermInSymbolNames_meta (noShapeInSymbolNames l)"
  by (auto simp: renders_table noArrayFilterMap_def noReduceAccumulatorCopy_def noChainedTypeAssertions_def
      noConditionalEmptyObjectSpread_def noModuleMocking_def noReflectApply_def noReflectGet_def reflect_rule_def
      noRuntimeTypeof_def noShapeInSymbolNames_def Let_def split: option.splits prod.splits)

lemma parameter_reports: "renders_all noUnknownParameters_meta (noUnknownParameters sc l)"
  by (auto simp: renders_table noUnknownParameters_def unknown_parameter_def Let_def
      split: option.splits prod.splits intro!: renders_all_concat)

lemma effect_reports:
  "renders_all noManualEffectErrorTag_meta (noManualEffectErrorTag l)"
  "renders_all noManualTagComparison_meta (noManualTagComparison l)"
  "renders_all noManualTaggedConstruction_meta (noManualTaggedConstruction l)"
  "renders_all noServiceConstructorImports_meta (noServiceConstructorImports file_name l)"
  "renders_all preferEffectMatch_meta (preferEffectMatch sc l)"
  by (auto simp: renders_table noManualEffectErrorTag_def noManualTagComparison_def noManualTaggedConstruction_def
      noServiceConstructorImports_def preferEffectMatch_def effect_report_def specifier_report_def Let_def
      split: option.splits prod.splits intro!: renders_all_concat)

lemma contract_reports:
  "noUnknownReturns fuel st l = Some (st', rs) \<Longrightarrow> renders_all noUnknownReturns_meta rs"
  "noUnknownTypeAliases fuel st l = Some (st', rs) \<Longrightarrow> renders_all noUnknownTypeAliases_meta rs"
  by (auto simp: renders_table noUnknownReturns_def checkReturnType_def noUnknownTypeAliases_def
      split: option.splits prod.splits node.splits form.splits statement_form.splits)

lemma object_parameter_reports:
  "noObjectParameters sc fuel st l = Some (st', rs) \<Longrightarrow> renders_all noObjectParameters_meta rs"
  by (auto simp: renders_table noObjectParameters_def object_parameter_def
      split: option.splits prod.splits if_splits elim!: renders_all_loop)

lemma dictionary_reports:
  "noUnsafeDictionaryType fuel st l = Some (st', rs) \<Longrightarrow> renders_all noUnsafeDictionaryType_meta rs"
  by (auto simp: renders_table noUnsafeDictionaryType_def reportIfUnsafe_def checkIndexSignature_def dictionary_report_def
      split: option.splits prod.splits if_splits bool.splits node.splits form.splits annex_form.splits)

lemma flow_reports: "renders_all noKnownValueWidening_meta (reportFlow sc l destination subject)"
  by (auto simp: renders_table reportFlow_def widening_report_def split: option.split)

lemma widening_reports:
  "noKnownValueWidening sc fuel st l = Some (st', rs) \<Longrightarrow> renders_all noKnownValueWidening_meta rs"
  by (auto simp: noKnownValueWidening_def checkFlow_def checkAssertionFlow_def checkPredicateCall_def Let_def
      flow_reports renders_table widening_report_def split: option.splits prod.splits if_splits)

lemma widened_reports:
  "noWidenThenAssert sc ss l = Some (st', rs) \<Longrightarrow> renders_all noWidenThenAssert_meta rs"
  by (auto simp: renders_table noWidenThenAssert_def checkWidenedAssertion_def Let_def split: option.splits prod.splits)

lemma safety_reports_render:
  "renders_all requireSafetyCommentForTypeAssertion_meta (snd (checkAssertion sc option l patterns))"
  by (auto simp: renders_table checkAssertion_def Let_def)

lemma spacing_reports:
  "requireReadableSpacing ts fuel program = Returned rs \<Longrightarrow>
     renders_all (rule_meta.truncate requireReadableSpacing_meta) (map spacing_to_report rs)"
proof -
  assume "requireReadableSpacing ts fuel program = Returned rs"
  then obtain st where run: "run_padding paddingRule ts fuel (create_padding paddingRule) (events program []) = Returned (st, rs)"
    by (auto simp: requireReadableSpacing_def createPaddingLineRule_def and_then_Returned)
  have "spacing_message r = ''expectedBlankLine''" if "r \<in> set rs" for r
    using run_reports[OF run that] readable_pair by blast
  moreover have "message_table (rule_meta.truncate requireReadableSpacing_meta) = message_table requireReadableSpacing_meta"
    by (simp add: message_table_def rule_meta.truncate_def)
  ultimately show ?thesis
    by (auto simp: renders_all_def list_all_iff renders_table spacing_to_report_def)
qed

lemma renderable_spacing: "renderable requireReadableSpacingRule"
  by (auto simp: renderable_def requireReadableSpacingRule_def with_tokens_def and_then_Returned spacing_reports)

lemma renderable_rules:
  "renderable noArrayFilterMapRule" "renderable noReduceAccumulatorCopyRule" "renderable noChainedTypeAssertionsRule"
  "renderable noConditionalEmptyObjectSpreadRule" "renderable noModuleMockingRule" "renderable noReflectApplyRule"
  "renderable noReflectGetRule" "renderable noRuntimeTypeofRule" "renderable noForbiddenTermInSymbolNamesRule"
  "renderable noUnknownParametersRule" "renderable noManualEffectErrorTagRule" "renderable noManualTagComparisonRule"
  "renderable noManualTaggedConstructionRule" "renderable noServiceConstructorImportsRule" "renderable preferEffectMatchRule"
  unfolding noArrayFilterMapRule_def noReduceAccumulatorCopyRule_def noChainedTypeAssertionsRule_def
    noConditionalEmptyObjectSpreadRule_def noModuleMockingRule_def noReflectApplyRule_def noReflectGetRule_def
    noRuntimeTypeofRule_def noForbiddenTermInSymbolNamesRule_def noUnknownParametersRule_def noManualEffectErrorTagRule_def
    noManualTagComparisonRule_def noManualTaggedConstructionRule_def noServiceConstructorImportsRule_def
    preferEffectMatchRule_def
  by (rule renderable_at_each, rule stateless_reports parameter_reports effect_reports)+

lemma renderable_captured_rules:
  "renderable noObjectParametersRule" "renderable noUnknownReturnsRule" "renderable noUnknownTypeAliasesRule"
  "renderable noKnownValueWideningRule" "renderable noUnsafeDictionaryTypeRule" "renderable noWidenThenAssertRule"
  unfolding noObjectParametersRule_def noUnknownReturnsRule_def noUnknownTypeAliasesRule_def noKnownValueWideningRule_def
    noUnsafeDictionaryTypeRule_def noWidenThenAssertRule_def
  by (rule renderable_with_environment renderable_with_types renderable_with_scopes,
      erule object_parameter_reports contract_reports widening_reports dictionary_reports widened_reports)+

lemma renderable_safety: "renderable requireSafetyCommentForTypeAssertionRule"
  unfolding requireSafetyCommentForTypeAssertionRule_def by (rule renderable_with_patterns, rule safety_reports_render)

lemma renderable_plugins:
  "(name, r) \<in> set (rules antiSlopPlugin) \<union> set (rules antiSlopEffectPlugin) \<Longrightarrow> renderable r"
  by (auto simp: antiSlopPlugin_def antiSlopEffectPlugin_def renderable_rules renderable_captured_rules renderable_spacing renderable_safety)

section \<open>Files do not influence each other\<close>

text \<open>
  What is assumed of the files of a run: a program is known by its identity, all files are parsed with the
  same visitor keys, and no configured safety marker contains the null character that separates markers in
  the cache of patterns.
\<close>

definition file_ok :: "(nat \<Rightarrow> node) \<Rightarrow> visitor_keys \<Rightarrow> lint_context \<Rightarrow> node \<Rightarrow> bool" where
  "file_ok programs vk ctx program \<longleftrightarrow>
     programs (nid (info program)) = program \<and> visitorKeys (code ctx) = vk \<and>
     nul_free (configuredSafetyMarkers (at (rule_options ctx) 0))"

fun closure_ok :: "closure \<Rightarrow> bool" where
  "closure_ok (Patterns p) = patterns_ok p"
| "closure_ok _ = True"

definition reports_of :: "(environment_cache \<times> closure \<times> report list) outcome \<Rightarrow> report list outcome" where
  "reports_of x = and_then x (\<lambda>(cache, st, rs). Returned rs)"

lemma reports_of_simps [simp]:
  "reports_of OutOfFuel = OutOfFuel" "reports_of (Raised e) = Raised e" "reports_of (Returned (c, st, rs)) = Returned rs"
  by (simp_all add: reports_of_def)

text \<open>A rule is isolated when its reports on a file do not depend on the memory it starts with.\<close>

definition isolated :: "(nat \<Rightarrow> node) \<Rightarrow> visitor_keys \<Rightarrow> rule \<Rightarrow> bool" where
  "isolated programs vk r \<longleftrightarrow>
     closure_ok (createOnce r) \<and>
     (\<forall>ctx fuel cache st program.
        file_ok programs vk ctx program \<longrightarrow> cache_ok programs vk cache \<longrightarrow> closure_ok st \<longrightarrow>
          reports_of (run_file r ctx fuel cache st program) =
            reports_of (run_file r ctx fuel [] (createOnce r) program) \<and>
          (\<forall>c s rs. run_file r ctx fuel cache st program = Returned (c, s, rs) \<longrightarrow>
             cache_ok programs vk c \<and> closure_ok s))"

lemma cache_ok_empty [simp]: "cache_ok programs vk []"
  by (simp add: cache_ok_def)

lemma isolated_at_each: "closure_ok c \<Longrightarrow> isolated programs vk \<lparr>meta = m, createOnce = c, run_file = at_each f\<rparr>"
  by (simp add: isolated_def at_each_def)

lemma isolated_with_tokens: "closure_ok c \<Longrightarrow> isolated programs vk \<lparr>meta = m, createOnce = c, run_file = with_tokens f\<rparr>"
proof -
  have "reports_of (with_tokens f ctx fuel cache st program) =
      and_then (f (token_code ctx) fuel program) (\<lambda>rs. Returned (map spacing_to_report rs))" for ctx fuel cache st program
    by (cases "f (token_code ctx) fuel program") (simp_all add: with_tokens_def)
  then show "closure_ok c \<Longrightarrow> isolated programs vk \<lparr>meta = m, createOnce = c, run_file = with_tokens f\<rparr>"
    by (auto simp: isolated_def with_tokens_def and_then_Returned)
qed

text \<open>Handlers that read the environment and leave the state alone.\<close>

lemma run_rule_reads:
  "(\<And>l. step st l = map_option (Pair st) (g l)) \<Longrightarrow> run_rule step st ls = map_option (Pair st) (concat_map_m g ls)"
proof (induction ls)
  case (Cons l ls)
  then show ?case
    by (cases "g l"; cases "map_m g ls") (simp_all add: concat_map_m_def)
qed (simp add: concat_map_m_def)

lemma with_environment_run:
  assumes reads: "\<And>st l. f ctx fuel st l = map_option (Pair st) (g (captured_environment st) l)"
    and ok: "file_ok programs vk ctx program" "cache_ok programs vk cache"
  shows "\<exists>c s. cache_ok programs vk c \<and> closure_ok s \<and> with_environment f ctx fuel cache st program =
    and_then (in_time (concat_map_m (g (Some (environmentOf program vk))) (locations program [])))
      (\<lambda>rs. Returned (c, s, rs))"
proof -
  define e where "e = captureEnvironment (code ctx) program
    \<lparr>captured_environment = (case st of Environment e \<Rightarrow> e | _ \<Rightarrow> None), environmentsByProgram = cache\<rparr>"
  have e: "captured_environment e = Some (environmentOf program vk)" "cache_ok programs vk (environmentsByProgram e)"
    using cache_ok_create[OF ok(2), of program] ok(1)
    by (auto simp: e_def captureEnvironment_def file_ok_def split: prod.split)
  have "run_rule (f ctx fuel) e (locations program []) =
      map_option (Pair e) (concat_map_m (g (Some (environmentOf program vk))) (locations program []))"
    using reads e by (intro run_rule_reads) simp
  then have "with_environment f ctx fuel cache st program =
    and_then (in_time (concat_map_m (g (Some (environmentOf program vk))) (locations program [])))
      (\<lambda>rs. Returned (environmentsByProgram e, Environment (captured_environment e), rs))"
    by (simp add: with_environment_def e_def in_time_def split: option.split)
  with e show ?thesis
    by (intro exI[of _ "environmentsByProgram e"] exI[of _ "Environment (captured_environment e)"]) simp
qed

lemma with_types_run:
  assumes reads: "\<And>st l. f ctx fuel st l = map_option (Pair st) (g (dictionary_environment st) l)"
    and ok: "file_ok programs vk ctx program" "cache_ok programs vk cache"
  shows "\<exists>c s. cache_ok programs vk c \<and> closure_ok s \<and> with_types f ctx fuel cache st program =
    and_then (in_time (concat_map_m (g (Some \<lparr>interfaces = fold addInterface (program_body program) [],
        typeAliases = environmentOf program vk\<rparr>)) (locations program [])))
      (\<lambda>rs. Returned (c, s, rs))"
proof -
  let ?env = "\<lparr>interfaces = fold addInterface (program_body program) [], typeAliases = environmentOf program vk\<rparr>"
  define e where "e = enterProgram (code ctx) program
    \<lparr>dictionary_environment = (case st of TypeEnvironment e \<Rightarrow> e | _ \<Rightarrow> None), dictionary_cache = cache\<rparr>"
  have e: "dictionary_environment e = Some ?env" "cache_ok programs vk (dictionary_cache e)"
    using cache_ok_create[OF ok(2), of program] ok(1)
    by (auto simp: e_def enterProgram_def createTypeEnvironment_def file_ok_def split: prod.split)
  have "run_rule (f ctx fuel) e (locations program []) =
      map_option (Pair e) (concat_map_m (g (Some ?env)) (locations program []))"
    using reads e by (intro run_rule_reads) simp
  then have "with_types f ctx fuel cache st program =
    and_then (in_time (concat_map_m (g (Some ?env)) (locations program [])))
      (\<lambda>rs. Returned (dictionary_cache e, TypeEnvironment (dictionary_environment e), rs))"
    by (simp add: with_types_def e_def in_time_def split: option.split)
  with e show ?thesis
    by (intro exI[of _ "dictionary_cache e"] exI[of _ "TypeEnvironment (dictionary_environment e)"]) simp
qed

text \<open>A rule whose run is some computation of reports from the file alone is isolated.\<close>

lemma isolatedI:
  assumes "closure_ok c"
    and "\<And>ctx fuel cache st program. file_ok programs vk ctx program \<Longrightarrow> cache_ok programs vk cache \<Longrightarrow> closure_ok st \<Longrightarrow>
      \<exists>c' s. cache_ok programs vk c' \<and> closure_ok s \<and>
        run ctx fuel cache st program = and_then (h ctx fuel program) (\<lambda>rs. Returned (c', s, rs))"
  shows "isolated programs vk \<lparr>meta = m, createOnce = c, run_file = run\<rparr>"
proof -
  have main: "reports_of (run ctx fuel cache st program) = h ctx fuel program \<and>
      (\<forall>c s rs. run ctx fuel cache st program = Returned (c, s, rs) \<longrightarrow> cache_ok programs vk c \<and> closure_ok s)"
    if ok: "file_ok programs vk ctx program" "cache_ok programs vk cache" "closure_ok st" for ctx fuel cache st program
  proof -
    from assms(2)[OF ok, of fuel] obtain c' s where "cache_ok programs vk c'" "closure_ok s"
      "run ctx fuel cache st program = and_then (h ctx fuel program) (\<lambda>rs. Returned (c', s, rs))" by blast
    then show ?thesis by (cases "h ctx fuel program") auto
  qed
  have "reports_of (run ctx fuel cache st program) = reports_of (run ctx fuel [] c program)"
    if ok: "file_ok programs vk ctx program" "cache_ok programs vk cache" "closure_ok st" for ctx fuel cache st program
    using main[OF ok] main[OF ok(1) cache_ok_empty assms(1)] by metis
  then show ?thesis unfolding isolated_def rule.simps using main assms(1) by blast
qed

lemma isolated_with_environment:
  assumes "\<And>ctx fuel st l. f ctx fuel st l = map_option (Pair st) (g ctx fuel (captured_environment st) l)"
  shows "isolated programs vk \<lparr>meta = m, createOnce = Environment None, run_file = with_environment f\<rparr>"
proof (rule isolatedI[where h = "\<lambda>ctx fuel program. in_time (concat_map_m
        (g ctx fuel (Some (environmentOf program vk))) (locations program []))"])
  fix ctx fuel cache st program
  assume "file_ok programs vk ctx program" "cache_ok programs vk cache"
  from with_environment_run[of f ctx fuel "g ctx fuel", OF assms this]
  show "\<exists>c' s. cache_ok programs vk c' \<and> closure_ok s \<and> with_environment f ctx fuel cache st program =
    and_then (in_time (concat_map_m (g ctx fuel (Some (environmentOf program vk))) (locations program [])))
      (\<lambda>rs. Returned (c', s, rs))" .
qed simp

lemma isolated_with_types:
  assumes "\<And>ctx fuel st l. f ctx fuel st l = map_option (Pair st) (g ctx fuel (dictionary_environment st) l)"
  shows "isolated programs vk \<lparr>meta = m, createOnce = TypeEnvironment None, run_file = with_types f\<rparr>"
proof (rule isolatedI[where h = "\<lambda>ctx fuel program. in_time (concat_map_m
        (g ctx fuel (Some \<lparr>interfaces = fold addInterface (program_body program) [], typeAliases = environmentOf program vk\<rparr>))
        (locations program []))"])
  fix ctx fuel cache st program
  assume "file_ok programs vk ctx program" "cache_ok programs vk cache"
  from with_types_run[of f ctx fuel "g ctx fuel", OF assms this]
  show "\<exists>c' s. cache_ok programs vk c' \<and> closure_ok s \<and> with_types f ctx fuel cache st program =
    and_then (in_time (concat_map_m (g ctx fuel (Some \<lparr>interfaces = fold addInterface (program_body program) [],
      typeAliases = environmentOf program vk\<rparr>)) (locations program []))) (\<lambda>rs. Returned (c', s, rs))" .
qed simp

lemma isolated_with_scopes:
  assumes "\<And>ctx ss l. f ctx ss l = Some (ss, g ctx ss l)"
  shows "isolated programs vk \<lparr>meta = m, createOnce = ScopeList [], run_file = with_scopes f\<rparr>"
proof (rule isolatedI[where h = "\<lambda>ctx fuel program. Returned (concat (map (g ctx (scopes (code ctx))) (locations program [])))"])
  fix ctx fuel cache st program
  assume "cache_ok programs vk cache"
  moreover have "with_scopes f ctx fuel cache st program =
      Returned (cache, ScopeList (scopes (code ctx)), concat (map (g ctx (scopes (code ctx))) (locations program [])))"
    using run_rule_steady[of "locations program []" "f ctx" "scopes (code ctx)" "g ctx (scopes (code ctx))"] assms
    by (simp add: with_scopes_def enterScopes_def in_time_def Let_def)
  ultimately show "\<exists>c' s. cache_ok programs vk c' \<and> closure_ok s \<and> with_scopes f ctx fuel cache st program =
      and_then (Returned (concat (map (g ctx (scopes (code ctx))) (locations program [])))) (\<lambda>rs. Returned (c', s, rs))"
    by (intro exI[of _ cache] exI[of _ "ScopeList (scopes (code ctx))"]) simp
qed simp

lemma run_patterns:
  "patterns_ok p \<Longrightarrow> nul_free (configuredSafetyMarkers option) \<Longrightarrow>
     \<exists>p'. patterns_ok p' \<and> run_rule (\<lambda>p l. Some (checkAssertion sc option l p)) p ls =
       Some (p', concat (map (\<lambda>l. safety_reports sc (option, l)) ls))"
proof (induction ls arbitrary: p)
  case (Cons l ls)
  obtain p1 rs where step: "checkAssertion sc option l p = (p1, rs)" by (cases "checkAssertion sc option l p")
  then have "rs = safety_reports sc (option, l)" "patterns_ok p1"
    using checkAssertion_correct[of p option l sc] Cons.prems by (simp_all add: cacheable_def)
  with step Cons show ?case by force
qed auto

lemma isolated_patterns: "isolated programs vk requireSafetyCommentForTypeAssertionRule"
  unfolding requireSafetyCommentForTypeAssertionRule_def
proof (rule isolatedI[where h = "\<lambda>ctx fuel program. Returned (concat (map (\<lambda>l. safety_reports (code ctx) (at (rule_options ctx) 0, l))
    (locations program [])))"])
  fix ctx fuel cache st program
  assume ok: "file_ok programs vk ctx program" "cache_ok programs vk cache" "closure_ok st"
  let ?p = "case st of Patterns p \<Rightarrow> p | _ \<Rightarrow> []"
  have "patterns_ok ?p" using ok(3) by (cases st) (simp_all add: patterns_ok_def)
  with ok obtain p' where "patterns_ok p'" "run_rule (\<lambda>p l. Some (checkAssertion (code ctx) (at (rule_options ctx) 0) l p)) ?p
      (locations program []) = Some (p', concat (map (\<lambda>l. safety_reports (code ctx) (at (rule_options ctx) 0, l)) (locations program [])))"
    using run_patterns unfolding file_ok_def by blast
  with ok(2) show "\<exists>c' s. cache_ok programs vk c' \<and> closure_ok s \<and>
      with_patterns (\<lambda>ctx. checkAssertion (code ctx) (at (rule_options ctx) 0)) ctx fuel cache st program =
      and_then (Returned (concat (map (\<lambda>l. safety_reports (code ctx) (at (rule_options ctx) 0, l)) (locations program []))))
        (\<lambda>rs. Returned (c', s, rs))"
    by (intro exI[of _ cache] exI[of _ "Patterns p'"]) (simp add: with_patterns_def in_time_def)
qed (simp add: patterns_ok_def)

text \<open>The handlers read no more of their state than the environment, and keep it.\<close>

abbreviation captured_with :: "environment option \<Rightarrow> captured" where
  "captured_with e \<equiv> \<lparr>captured_environment = e, environmentsByProgram = []\<rparr>"

abbreviation types_with :: "type_environment option \<Rightarrow> dictionary_state" where
  "types_with e \<equiv> \<lparr>dictionary_environment = e, dictionary_cache = []\<rparr>"

lemma captured_handlers_read:
  "noUnknownReturns fuel st l = map_option (Pair st) (map_option snd (noUnknownReturns fuel (captured_with (captured_environment st)) l))"
  "noObjectParameters sc fuel st l =
     map_option (Pair st) (map_option snd (noObjectParameters sc fuel (captured_with (captured_environment st)) l))"
  by (simp_all add: noUnknownReturns_def checkReturnType_def noObjectParameters_def option.map_comp comp_def
      option.map_id[unfolded id_def] split: option.split prod.split)

lemma alias_handler_reads:
  "noUnknownTypeAliases fuel st l =
     map_option (Pair st) (map_option snd (noUnknownTypeAliases fuel (captured_with (captured_environment st)) l))"
  by (simp add: noUnknownTypeAliases_def option.map_comp comp_def split: node.split form.split statement_form.split)

lemma type_handlers_read:
  "noUnsafeDictionaryType fuel st l =
     map_option (Pair st) (map_option snd (noUnsafeDictionaryType fuel (types_with (dictionary_environment st)) l))"
  "noKnownValueWidening sc fuel st l =
     map_option (Pair st) (map_option snd (noKnownValueWidening sc fuel (types_with (dictionary_environment st)) l))"
  by (simp_all add: noUnsafeDictionaryType_def noKnownValueWidening_def Let_def option.map_comp comp_def
      option.map_id[unfolded id_def] split: option.split prod.split)

lemma isolated_rules:
  "isolated programs vk noObjectParametersRule" "isolated programs vk noUnknownReturnsRule"
  "isolated programs vk noUnknownTypeAliasesRule" "isolated programs vk noKnownValueWideningRule"
  "isolated programs vk noUnsafeDictionaryTypeRule" "isolated programs vk noWidenThenAssertRule"
  "isolated programs vk requireReadableSpacingRule"
  unfolding noObjectParametersRule_def noUnknownReturnsRule_def noUnknownTypeAliasesRule_def noKnownValueWideningRule_def
    noUnsafeDictionaryTypeRule_def noWidenThenAssertRule_def requireReadableSpacingRule_def
  by (rule isolated_with_environment, rule captured_handlers_read)
    (rule isolated_with_environment, rule captured_handlers_read,
     rule isolated_with_environment, rule alias_handler_reads,
     rule isolated_with_types, rule type_handlers_read, rule isolated_with_types, rule type_handlers_read,
     rule isolated_with_scopes, rule noWidenThenAssert_def, rule isolated_with_tokens, simp)

lemma isolated_stateless:
  "isolated programs vk noArrayFilterMapRule" "isolated programs vk noReduceAccumulatorCopyRule"
  "isolated programs vk noChainedTypeAssertionsRule" "isolated programs vk noConditionalEmptyObjectSpreadRule"
  "isolated programs vk noModuleMockingRule" "isolated programs vk noReflectApplyRule" "isolated programs vk noReflectGetRule"
  "isolated programs vk noRuntimeTypeofRule" "isolated programs vk noForbiddenTermInSymbolNamesRule"
  "isolated programs vk noUnknownParametersRule" "isolated programs vk noManualEffectErrorTagRule"
  "isolated programs vk noManualTagComparisonRule" "isolated programs vk noManualTaggedConstructionRule"
  "isolated programs vk noServiceConstructorImportsRule" "isolated programs vk preferEffectMatchRule"
  unfolding noArrayFilterMapRule_def noReduceAccumulatorCopyRule_def noChainedTypeAssertionsRule_def
    noConditionalEmptyObjectSpreadRule_def noModuleMockingRule_def noReflectApplyRule_def noReflectGetRule_def
    noRuntimeTypeofRule_def noForbiddenTermInSymbolNamesRule_def noUnknownParametersRule_def noManualEffectErrorTagRule_def
    noManualTagComparisonRule_def noManualTaggedConstructionRule_def noServiceConstructorImportsRule_def
    preferEffectMatchRule_def
  by (rule isolated_at_each, simp)+

definition shipped :: "plugin set" where
  "shipped = {antiSlopPlugin, antiSlopEffectPlugin}"

lemma shipped_isolated: "p \<in> shipped \<Longrightarrow> (name, r) \<in> set (rules p) \<Longrightarrow> isolated programs vk r"
  by (auto simp: shipped_def antiSlopPlugin_def antiSlopEffectPlugin_def isolated_rules isolated_stateless isolated_patterns)

lemma shipped_renderable: "p \<in> shipped \<Longrightarrow> (name, r) \<in> set (rules p) \<Longrightarrow> renderable r"
  using renderable_plugins by (auto simp: shipped_def)

lemma shipped_distinct: "p \<in> shipped \<Longrightarrow> distinct (map fst (rules p))"
  by (auto simp: shipped_def antiSlopPlugin_def antiSlopEffectPlugin_def)

subsection \<open>Runs over files\<close>

definition memory_ok :: "(nat \<Rightarrow> node) \<Rightarrow> visitor_keys \<Rightarrow> memory \<Rightarrow> bool" where
  "memory_ok programs vk mem \<longleftrightarrow> cache_ok programs vk (shared_cache mem) \<and> (\<forall>name. closure_ok (closures mem name))"

definition files_ok :: "(nat \<Rightarrow> node) \<Rightarrow> visitor_keys \<Rightarrow> linted_file \<Rightarrow> bool" where
  "files_ok programs vk f \<longleftrightarrow> (\<forall>name. file_ok programs vk (fst f name) (snd f))"

definition only_reports :: "('m \<times> 'r) outcome \<Rightarrow> 'r outcome" where
  "only_reports x = and_then x (\<lambda>(mem, rs). Returned rs)"

text \<open>The reports of the rules, each started afresh.\<close>

fun rule_reports :: "(string, rule) js_map \<Rightarrow> nat \<Rightarrow> linted_file \<Rightarrow> (string \<times> report) list outcome" where
  "rule_reports [] fuel f = Returned []"
| "rule_reports ((name, r) # rs) fuel f =
     and_then (reports_of (run_file r (fst f name) fuel [] (createOnce r) (snd f)))
       (\<lambda>reports. and_then (rule_reports rs fuel f) (\<lambda>more. Returned (map (Pair name) reports @ more)))"

lemma run_rules_isolated:
  assumes "\<forall>(name, r) \<in> set rs. isolated programs vk r" and "files_ok programs vk f" and "memory_ok programs vk mem"
  shows "only_reports (run_rules rs fuel f mem) = rule_reports rs fuel f \<and>
    (\<forall>mem' reports. run_rules rs fuel f mem = Returned (mem', reports) \<longrightarrow> memory_ok programs vk mem')"
  using assms
proof (induction rs arbitrary: mem)
  case (Cons x rs)
  obtain name r where x: "x = (name, r)" by (cases x)
  let ?run = "run_file r (fst f name) fuel (shared_cache mem) (closures mem name) (snd f)"
  have iso: "isolated programs vk r" and ok: "file_ok programs vk (fst f name) (snd f)"
    "cache_ok programs vk (shared_cache mem)" "closure_ok (closures mem name)"
    using Cons.prems by (simp_all add: x files_ok_def memory_ok_def)
  have same: "reports_of ?run = reports_of (run_file r (fst f name) fuel [] (createOnce r) (snd f))"
    and kept: "\<And>c s reports. ?run = Returned (c, s, reports) \<Longrightarrow> cache_ok programs vk c \<and> closure_ok s"
    using iso ok unfolding isolated_def by blast+
  show ?case
  proof (cases ?run)
    case (Returned y)
    obtain c s reports where y: "y = (c, s, reports)" by (cases y) auto
    let ?mem = "\<lparr>shared_cache = c, closures = (closures mem)(name := s)\<rparr>"
    have mem: "memory_ok programs vk ?mem" using kept[of c s reports] Returned y Cons.prems(3) by (simp add: memory_ok_def)
    from Cons.IH[OF _ Cons.prems(2) mem] Cons.prems(1)
    have "rule_reports rs fuel f = only_reports (run_rules rs fuel f ?mem)"
      and later: "\<And>mem' more. run_rules rs fuel f ?mem = Returned (mem', more) \<Longrightarrow> memory_ok programs vk mem'" by auto
    then show ?thesis
      using same[symmetric] Returned y
      by (cases "run_rules rs fuel f ?mem") (auto simp: x only_reports_def)
  qed (use same[symmetric] in \<open>auto simp: x only_reports_def\<close>)
qed (simp add: only_reports_def)

fun map_o :: "('a \<Rightarrow> 'b outcome) \<Rightarrow> 'a list \<Rightarrow> 'b list outcome" where
  "map_o f [] = Returned []"
| "map_o f (x # xs) = and_then (f x) (\<lambda>y. and_then (map_o f xs) (\<lambda>ys. Returned (y # ys)))"

lemma fresh_ok: "p \<in> shipped \<Longrightarrow> memory_ok programs vk (fresh p)"
proof -
  assume "p \<in> shipped"
  then have "closure_ok (createOnce r)" if "get (rules p) name = Some r" for name r
    using shipped_isolated[of p name r] map_of_SomeD[OF that] by (auto simp: isolated_def)
  then show ?thesis by (auto simp: memory_ok_def fresh_def split: option.split)
qed

lemma lint_file_fresh:
  "p \<in> shipped \<Longrightarrow> files_ok programs vk f \<Longrightarrow> memory_ok programs vk mem \<Longrightarrow>
     only_reports (lint_file p fuel f mem) = rule_reports (rules p) fuel f \<and>
     (\<forall>mem' reports. lint_file p fuel f mem = Returned (mem', reports) \<longrightarrow> memory_ok programs vk mem')"
  unfolding lint_file_def using run_rules_isolated[of "rules p" programs vk f mem fuel] shipped_isolated by blast

lemma lint_files_memory:
  assumes "p \<in> shipped" and "\<forall>f \<in> set fs. files_ok programs vk f" and "memory_ok programs vk mem"
  shows "lint_files p fuel fs mem = map_o (rule_reports (rules p) fuel) fs"
  using assms(2,3)
proof (induction fs arbitrary: mem)
  case (Cons f fs)
  have first: "only_reports (lint_file p fuel f mem) = rule_reports (rules p) fuel f"
    and kept: "\<And>mem' reports. lint_file p fuel f mem = Returned (mem', reports) \<Longrightarrow> memory_ok programs vk mem'"
    using lint_file_fresh[OF assms(1), of programs vk f mem fuel] Cons.prems by simp_all
  show ?case
  proof (cases "lint_file p fuel f mem")
    case (Returned y)
    obtain mem' reports where y: "y = (mem', reports)" by (cases y)
    from Cons.IH[of mem'] Cons.prems kept[of mem' reports] Returned y
    have "lint_files p fuel fs mem' = map_o (rule_reports (rules p) fuel) fs" by simp
    with first Returned y show ?thesis by (simp add: only_reports_def flip: first)
  qed (use first in \<open>auto simp: only_reports_def simp flip: first\<close>)
qed simp

lemma files_independent:
  assumes "p \<in> shipped" and "\<forall>f \<in> set fs. files_ok programs vk f"
  shows "lint_files p fuel fs (fresh p) = map_o (\<lambda>f. only_reports (lint_file p fuel f (fresh p))) fs"
proof -
  have "map_o (\<lambda>f. only_reports (lint_file p fuel f (fresh p))) gs = map_o (rule_reports (rules p) fuel) gs"
    if "set gs \<subseteq> set fs" for gs
    using that assms lint_file_fresh[OF assms(1) _ fresh_ok[OF assms(1)]] by (induction gs) auto
  then show ?thesis using lint_files_memory[OF assms fresh_ok[OF assms(1)]] by simp
qed

text \<open>Every report of a linted file belongs to a rule of the plugin and can be rendered with its metadata.\<close>

lemma run_rules_render:
  "run_rules rs fuel f mem = Returned (mem', reports) \<Longrightarrow> (name, rep) \<in> set reports \<Longrightarrow>
     \<forall>(n, r) \<in> set rs. renderable r \<Longrightarrow> \<exists>r. (name, r) \<in> set rs \<and> renders (meta r) rep"
proof (induction rs arbitrary: mem reports)
  case (Cons x rs)
  obtain n r where x: "x = (n, r)" by (cases x)
  from Cons.prems(1) obtain c s found more where
      run: "run_file r (fst f n) fuel (shared_cache mem) (closures mem n) (snd f) = Returned (c, s, found)"
      and rest: "run_rules rs fuel f \<lparr>shared_cache = c, closures = (closures mem)(n := s)\<rparr> = Returned (mem', more)"
      and reports: "reports = map (Pair n) found @ more"
    by (auto simp: x and_then_Returned)
  show ?case
  proof (cases "(name, rep) \<in> set more")
    case True
    with Cons.IH[OF rest] Cons.prems(3) show ?thesis by auto
  next
    case False
    with Cons.prems(2) reports have "n = name" "rep \<in> set found" by auto
    moreover have "renders_all (meta r) found" using Cons.prems(3) run by (auto simp: x renderable_def)
    ultimately show ?thesis by (auto simp: x renders_all_def list_all_iff)
  qed
qed simp

section \<open>A linted file\<close>

definition sample_context :: lint_context where
  "sample_context = \<lparr>code = empty_source, token_code = sample_source, rule_options = [], filename = ''a.ts''\<rparr>"

text \<open>\<^verbatim>\<open>({ _tag: "Ready" })\<close>\<close>

definition tagged_program :: "nat \<Rightarrow> node" where
  "tagged_program k = Program (node_at k) [ExpressionStatement (node_at (k + 1)) (ObjectExpression (node_at (k + 2))
     [Property (node_at (k + 3)) False (Identifier (node_at (k + 4)) ''_tag'' None) (Literal (node_at (k + 5)) (StringValue ''Ready''))])]"

lemma tagged_locations:
  "locations (tagged_program k) [] =
     (let v = Literal (node_at (k + 5)) (StringValue ''Ready''); n = Identifier (node_at (k + 4)) ''_tag'' None;
          f = Property (node_at (k + 3)) False n v; e = ObjectExpression (node_at (k + 2)) [f];
          s = ExpressionStatement (node_at (k + 1)) e; p = Program (node_at k) [s]
      in [(p, []), (s, [p]), (e, [s, p]), (f, [e, s, p]), (n, [f, e, s, p]), (v, [f, e, s, p])])"
  by (simp add: tagged_program_def locations_steps children_def Let_def)

definition tagged_walk :: "loc list" where
  "tagged_walk =
     (let v = Literal (node_at 6) (StringValue ''Ready''); n = Identifier (node_at 5) ''_tag'' None;
          f = Property (node_at 4) False n v; e = ObjectExpression (node_at 3) [f];
          s = ExpressionStatement (node_at 2) e; p = Program (node_at 1) [s]
      in [(p, []), (s, [p]), (e, [s, p]), (f, [e, s, p]), (n, [f, e, s, p]), (v, [f, e, s, p])])"

lemma tagged_reports:
  "length (concat (map noManualEffectErrorTag tagged_walk)) = 0"
  "length (concat (map noManualTagComparison tagged_walk)) = 0"
  "map message_id (concat (map noManualTaggedConstruction tagged_walk)) = [''manualConstruction'']"
  "length (concat (map (noServiceConstructorImports ''a.ts'') tagged_walk)) = 0"
  "length (concat (map (preferEffectMatch empty_source) tagged_walk)) = 0"
  by code_simp+

lemma tag_reported:
  "\<exists>mem rep. lint_file antiSlopEffectPlugin 9 (\<lambda>name. sample_context, tagged_program 1) (fresh antiSlopEffectPlugin) =
     Returned (mem, [(''no-manual-tagged-construction'', rep)])"
proof -
  have walk: "locations (tagged_program 1) [] = tagged_walk"
    unfolding tagged_locations tagged_walk_def by (simp add: numeral_eq_Suc)
  obtain rep where "concat (map noManualTaggedConstruction tagged_walk) = [rep]"
    using tagged_reports(3) by (auto simp: map_eq_Cons_conv)
  then show ?thesis
    using tagged_reports(1,2,4,5) unfolding length_0_conv
    by (simp add: lint_file_def antiSlopEffectPlugin_def noManualEffectErrorTagRule_def noManualTagComparisonRule_def
        noManualTaggedConstructionRule_def noServiceConstructorImportsRule_def preferEffectMatchRule_def at_each_def
        sample_context_def walk del: concat_eq_Nil_conv One_nat_def)
qed

section \<open>Properties\<close>

text \<open>
  C8: every report of a plugin on a file belongs to one of the plugin's rules, names a message of that
  rule's metadata, and carries values for exactly the placeholders of the message.
\<close>
theorem plugin_reports_render:
  "p \<in> shipped \<Longrightarrow> lint_file p fuel f mem = Returned (mem', reports) \<Longrightarrow> (name, rep) \<in> set reports \<Longrightarrow>
     \<exists>r. get (rules p) name = Some r \<and> renders (meta r) rep"
  using run_rules_render[of "rules p" fuel f mem mem' reports name rep] shipped_renderable[of p] shipped_distinct[of p]
  unfolding lint_file_def by auto

theorem plugin_reports_render_witness:
  "\<exists>mem rep. lint_file antiSlopEffectPlugin 9 (\<lambda>name. sample_context, tagged_program 1) (fresh antiSlopEffectPlugin) =
     Returned (mem, [(''no-manual-tagged-construction'', rep)]) \<and> renders noManualTaggedConstruction_meta rep"
proof -
  obtain mem rep where lint: "lint_file antiSlopEffectPlugin 9 (\<lambda>name. sample_context, tagged_program 1) (fresh antiSlopEffectPlugin) =
      Returned (mem, [(''no-manual-tagged-construction'', rep)])"
    using tag_reported by blast
  have "antiSlopEffectPlugin \<in> shipped" by (simp add: shipped_def)
  from plugin_reports_render[OF this lint] lint show ?thesis
    by (auto simp: antiSlopEffectPlugin_def noManualTaggedConstructionRule_def)
qed

text \<open>
  C3: a run over several files reports for each of them what a run over that file alone reports: neither
  the variables the rules close over nor the shared cache carries anything from one file to the next.
\<close>
theorem linted_files_independent:
  "p \<in> shipped \<Longrightarrow> \<forall>f \<in> set fs. files_ok programs vk f \<Longrightarrow>
     lint_files p fuel fs (fresh p) = map_o (\<lambda>f. only_reports (lint_file p fuel f (fresh p))) fs"
  by (rule files_independent)

theorem linted_files_independent_witness:
  "lint_files antiSlopEffectPlugin 9 [(\<lambda>name. sample_context, tagged_program 1), (\<lambda>name. sample_context, tagged_program 11)]
       (fresh antiSlopEffectPlugin) =
     map_o (\<lambda>f. only_reports (lint_file antiSlopEffectPlugin 9 f (fresh antiSlopEffectPlugin)))
       [(\<lambda>name. sample_context, tagged_program 1), (\<lambda>name. sample_context, tagged_program 11)]"
proof -
  have "antiSlopEffectPlugin \<in> shipped" by (simp add: shipped_def)
  moreover have "files_ok tagged_program example_keys (\<lambda>name. sample_context, tagged_program k)" for k
    by (simp add: files_ok_def file_ok_def sample_context_def empty_source_def tagged_program_def node_at_def
        configuredSafetyMarkers_def default_markers_def nul_free_def)
  ultimately show ?thesis by (intro linted_files_independent[of _ _ tagged_program example_keys]) simp_all
qed

end
