(* ===== verification/Node_Path.thy ===== *)
theory Node_Path
  imports Text
begin

text \<open>
  The functions of Node's \<open>path\<close> module that the scripts of the repository use, in the form they have
  on POSIX systems: a path is a string, \<open>/\<close> separates its segments.
\<close>

section \<open>Segments\<close>

fun split_slash :: "string \<Rightarrow> string list" where
  "split_slash [] = [[]]"
| "split_slash (c # cs) =
     (if c = CHR ''/'' then [] # split_slash cs
      else (case split_slash cs of [] \<Rightarrow> [[c]] | s # ss \<Rightarrow> (c # s) # ss))"

fun join_slash :: "string list \<Rightarrow> string" where
  "join_slash [] = []"
| "join_slash [s] = s"
| "join_slash (s # t # ts) = s @ CHR ''/'' # join_slash (t # ts)"

definition absolute :: "string \<Rightarrow> bool" where
  "absolute p \<longleftrightarrow> p \<noteq> [] \<and> hd p = CHR ''/''"

text \<open>
  One segment of a path, on the reversed list of those before it. Above the root of an absolute path
  there is nothing; a relative path may climb.
\<close>

definition push_segment :: "bool \<Rightarrow> string list \<Rightarrow> string \<Rightarrow> string list" where
  "push_segment climbs out s =
     (if s = [] \<or> s = ''.'' then out
      else if s = ''..'' then
        (case out of
           [] \<Rightarrow> if climbs then [''..''] else []
         | t # ts \<Rightarrow> if t = ''..'' then ''..'' # out else ts)
      else s # out)"

definition normal_segments :: "bool \<Rightarrow> string \<Rightarrow> string list" where
  "normal_segments climbs p = rev (foldl (push_segment climbs) [] (split_slash p))"

definition normalize :: "string \<Rightarrow> string" where
  "normalize p =
     (if p = [] then ''.''
      else (let body = join_slash (normal_segments (\<not> absolute p) p); closed = (last p = CHR ''/'')
            in if body = [] then (if absolute p then ''/'' else if closed then ''./'' else ''.'')
               else (if absolute p then ''/'' else []) @ body @ (if closed then ''/'' else [])))"

definition join_path :: "string list \<Rightarrow> string" where
  "join_path parts =
     (let present = filter (\<lambda>p. p \<noteq> []) parts
      in if present = [] then ''.'' else normalize (join_slash present))"

text \<open>\<open>resolve\<close> reads its arguments from the last to the first that is absolute, or to the working directory.\<close>

fun resolve_parts :: "string list \<Rightarrow> string \<Rightarrow> string" where
  "resolve_parts [] done_part = done_part"
| "resolve_parts (p # ps) done_part =
     (if p = [] then resolve_parts ps done_part
      else if absolute p then p @ ''/'' @ done_part
      else resolve_parts ps (p @ ''/'' @ done_part))"

definition resolved_segments :: "string \<Rightarrow> string list \<Rightarrow> string list" where
  "resolved_segments cwd parts = normal_segments False (resolve_parts (rev parts @ [cwd]) [])"

definition resolve :: "string \<Rightarrow> string list \<Rightarrow> string" where
  "resolve cwd parts = CHR ''/'' # join_slash (resolved_segments cwd parts)"

definition dirname :: "string \<Rightarrow> string" where
  "dirname p =
     (if p = [] then ''.''
      else (let before = dropWhile (\<lambda>c. c \<noteq> CHR ''/'') (dropWhile (\<lambda>c. c = CHR ''/'') (rev (tl p)))
            in if before = [] then (if absolute p then ''/'' else ''.'')
               else if absolute p \<and> length before = 1 then ''//''
               else take (length before) p))"

section \<open>Normal paths\<close>

text \<open>The segments of a normal absolute path are names.\<close>

definition name_segment :: "string \<Rightarrow> bool" where
  "name_segment s \<longleftrightarrow> s \<noteq> [] \<and> s \<noteq> ''.'' \<and> s \<noteq> ''..'' \<and> CHR ''/'' \<notin> set s"

lemma split_slash_nonempty [simp]: "split_slash s \<noteq> []"
  by (induction s) (auto split: list.split)

lemma split_slash_segments: "s \<in> set (split_slash p) \<Longrightarrow> CHR ''/'' \<notin> set s"
  by (induction p arbitrary: s) (auto split: if_splits list.splits)

lemma split_name: "CHR ''/'' \<notin> set s \<Longrightarrow> split_slash s = [s]"
  by (induction s) auto

lemma split_append_slash: "split_slash (a @ CHR ''/'' # b) = split_slash a @ split_slash b"
  by (induction a) (auto split: list.split)

lemma split_join: "ss \<noteq> [] \<Longrightarrow> \<forall>s \<in> set ss. CHR ''/'' \<notin> set s \<Longrightarrow> split_slash (join_slash ss) = ss"
  by (induction ss rule: join_slash.induct) (auto simp: split_name split_append_slash)

lemma push_names:
  "list_all name_segment out \<Longrightarrow> CHR ''/'' \<notin> set s \<Longrightarrow> list_all name_segment (push_segment False out s)"
  by (auto simp: push_segment_def name_segment_def split: list.split)

lemma fold_names:
  "list_all name_segment out \<Longrightarrow> \<forall>s \<in> set ss. CHR ''/'' \<notin> set s \<Longrightarrow>
     list_all name_segment (foldl (push_segment False) out ss)"
  by (induction ss arbitrary: out) (simp_all add: push_names)

lemma normal_names: "list_all name_segment (normal_segments False p)"
  unfolding normal_segments_def using fold_names[of "[]" "split_slash p"] split_slash_segments[of _ p] by auto

lemma fold_push_names: "list_all name_segment ss \<Longrightarrow> foldl (push_segment c) out ss = rev ss @ out"
  by (induction ss arbitrary: out) (auto simp: push_segment_def name_segment_def)

text \<open>Reading a normal path again gives its segments.\<close>

lemma normal_segments_join:
  assumes "list_all name_segment ss"
  shows "normal_segments False (CHR ''/'' # join_slash ss) = ss"
proof -
  have "split_slash (CHR ''/'' # join_slash ss) = (if ss = [] then [[], []] else [] # ss)"
    using assms by (auto simp: split_join name_segment_def list_all_iff)
  moreover have "foldl (push_segment False) [] ss = rev ss" using fold_push_names[OF assms] by simp
  ultimately show ?thesis by (auto simp: normal_segments_def push_segment_def)
qed

lemma resolve_segments: "normal_segments False (resolve cwd parts) = resolved_segments cwd parts"
  unfolding resolve_def resolved_segments_def by (rule normal_segments_join[OF normal_names])

lemma join_slash_Cons: "ss \<noteq> [] \<Longrightarrow> join_slash (s # ss) = s @ CHR ''/'' # join_slash ss"
  by (cases ss) simp_all

lemma join_slash_snoc: "ss \<noteq> [] \<Longrightarrow> join_slash (ss @ [s]) = join_slash ss @ CHR ''/'' # s"
  by (induction ss rule: join_slash.induct) simp_all

lemma join_slash_empty: "list_all name_segment ss \<Longrightarrow> join_slash ss = [] \<longleftrightarrow> ss = []"
  by (cases ss rule: join_slash.cases) (auto simp: name_segment_def)

text \<open>\<open>dirname\<close> takes the last segment off a normal path.\<close>

lemma dirname_normal:
  assumes "list_all name_segment (ss @ [s])"
  shows "dirname (CHR ''/'' # join_slash (ss @ [s])) = CHR ''/'' # join_slash ss"
proof (cases "ss = []")
  case True
  have "set s \<inter> {CHR ''/''} = {}" "s \<noteq> []" using assms by (auto simp: name_segment_def)
  then have "dropWhile (\<lambda>c. c \<noteq> CHR ''/'') (dropWhile (\<lambda>c. c = CHR ''/'') (rev s)) = []"
    unfolding dropWhile_eq_Nil_conv by (metis disjoint_iff insertI1 set_dropWhileD set_rev)
  then show ?thesis
    unfolding True dirname_def absolute_def append_Nil join_slash.simps list.sel Let_def by (simp only: list.simps list.sel if_True if_False simp_thms)
next
  case False
  have s: "CHR ''/'' \<notin> set s" "s \<noteq> []" using assms by (auto simp: name_segment_def)
  then have "dropWhile (\<lambda>c. c = CHR ''/'') (rev s @ CHR ''/'' # rev (join_slash ss)) = rev s @ CHR ''/'' # rev (join_slash ss)"
    by (cases s rule: rev_cases) auto
  moreover have "dropWhile (\<lambda>c. c \<noteq> CHR ''/'') (rev s @ CHR ''/'' # rev (join_slash ss)) = CHR ''/'' # rev (join_slash ss)"
    using s by (simp add: dropWhile_append2 dropWhile_append)
  moreover have "join_slash ss \<noteq> []" using False assms join_slash_empty by auto
  ultimately show ?thesis
    unfolding dirname_def absolute_def join_slash_snoc[OF False] list.sel Let_def rev_append rev.simps append.assoc append.simps
    by (simp only: list.simps list.sel if_True if_False simp_thms length_Cons) simp
qed

end
