(* ===== verification/Graphify.thy ===== *)
theory Graphify
  imports Node_Path Prelude "HOL-Library.Word"
begin

text \<open>
  The OpenCode plugin \<open>.opencode/plugins/graphify.js\<close>: it puts a reminder before the first shell command
  of a session once a knowledge graph exists. OpenCode loads a copy of the file for every directory that
  holds one; the copies share one set of those reminded. The file system is read through a function that
  says which paths exist; it may change between commands.
\<close>

section \<open>The plugin's name\<close>

text \<open>
  The location of the file is a list of UTF-16 code units. Spreading a string gives its code points, each
  as one or two units.
\<close>

definition high_surrogate :: "nat \<Rightarrow> bool" where
  "high_surrogate u \<longleftrightarrow> 55296 \<le> u \<and> u < 56320"

definition low_surrogate :: "nat \<Rightarrow> bool" where
  "low_surrogate u \<longleftrightarrow> 56320 \<le> u \<and> u < 57344"

fun spread :: "nat list \<Rightarrow> nat list list" where
  "spread [] = []"
| "spread [u] = [[u]]"
| "spread (u # v # us) =
     (if high_surrogate u \<and> low_surrogate v then [u, v] # spread us else [u] # spread (v # us))"

text \<open>Numbers of the code are integers here; \<open>Math.imul\<close> is signed, \<open>>>> 0\<close> makes a number unsigned.\<close>

definition Math_imul :: "int \<Rightarrow> int \<Rightarrow> int" where
  "Math_imul a b = sint (word_of_int a * word_of_int b :: 32 word)"

definition to_uint32 :: "int \<Rightarrow> int" where
  "to_uint32 x = uint (word_of_int x :: 32 word)"

definition location :: "nat list \<Rightarrow> int" where
  "location url = foldl (\<lambda>hash ch. to_uint32 (Math_imul hash 31 + int (hd ch))) 7 (spread url)"

definition hex_digit :: "nat \<Rightarrow> char" where
  "hex_digit d = ''0123456789abcdef'' ! d"

fun hex :: "nat \<Rightarrow> string" where
  "hex n = (if n < 16 then [hex_digit n] else hex (n div 16) @ [hex_digit (n mod 16)])"

definition plugin_id :: "nat list \<Rightarrow> string" where
  "plugin_id url = ''graphify-'' @ hex (nat (location url))"

section \<open>The reminder\<close>

definition REMINDER :: string where
  "REMINDER = ''echo \"[graphify] knowledge graph at graphify-out/. For focused questions, run graphify query with your question (scoped subgraph, usually much smaller than GRAPH_REPORT.md) instead of grepping raw files. Read GRAPH_REPORT.md only for broad architecture context.\" ; ''"

definition hasGraph :: "(string \<Rightarrow> bool) \<Rightarrow> string \<Rightarrow> bool" where
  "hasGraph existsSync directory = existsSync (join_path [directory, ''graphify-out'', ''graph.json''])"

section \<open>Hooks\<close>

text \<open>What the runtimes hand to a hook: the tool, the session, and the input if it is an object.\<close>

record tool_event =
  tool :: string
  sessionID :: "string option"
  input :: "(string, json) js_map option"

text \<open>\<open>event.input?.command\<close>, when it is a string.\<close>

fun text_of :: "json option \<Rightarrow> string option" where
  "text_of (Some (JString s)) = Some s"
| "text_of _ = None"

definition command_text :: "tool_event \<Rightarrow> string option" where
  "command_text e = Option.bind (input e) (\<lambda>fields. text_of (get fields ''command''))"

definition with_command :: "string \<Rightarrow> tool_event \<Rightarrow> tool_event" where
  "with_command c e = e\<lparr>input := map_option (put ''command'' (JString c)) (input e)\<rparr>"

type_synonym reminded = "string option set"

definition setup_hook :: "(string \<Rightarrow> bool) \<Rightarrow> string \<Rightarrow> tool_event \<Rightarrow> reminded \<Rightarrow> tool_event \<times> reminded" where
  "setup_hook existsSync directory event reminded =
     (case command_text event of
        None \<Rightarrow> (event, reminded)
      | Some command \<Rightarrow>
          if tool event \<noteq> ''shell'' then (event, reminded)
          else if sessionID event \<in> reminded then (event, reminded)
          else if \<not> hasGraph existsSync directory then (event, reminded)
          else (with_command (REMINDER @ command) event, insert (sessionID event) reminded))"

definition server_hook :: "(string \<Rightarrow> bool) \<Rightarrow> string \<Rightarrow> tool_event \<Rightarrow> reminded \<Rightarrow> tool_event \<times> reminded" where
  "server_hook existsSync directory event reminded =
     (case command_text event of
        None \<Rightarrow> (event, reminded)
      | Some command \<Rightarrow>
          if tool event \<noteq> ''bash'' then (event, reminded)
          else if Some directory \<in> reminded then (event, reminded)
          else if \<not> hasGraph existsSync directory then (event, reminded)
          else (with_command (REMINDER @ command) event, insert (Some directory) reminded))"

text \<open>A command runs through the hooks of all copies, a session is a sequence of commands.\<close>

type_synonym hook = "(string \<Rightarrow> bool) \<Rightarrow> string \<Rightarrow> tool_event \<Rightarrow> reminded \<Rightarrow> tool_event \<times> reminded"

fun through_copies :: "hook \<Rightarrow> (string \<Rightarrow> bool) \<Rightarrow> string list \<Rightarrow> tool_event \<Rightarrow> reminded \<Rightarrow> tool_event \<times> reminded" where
  "through_copies hook existsSync [] event reminded = (event, reminded)"
| "through_copies hook existsSync (d # ds) event reminded =
     (case hook existsSync d event reminded of (event', reminded') \<Rightarrow>
        through_copies hook existsSync ds event' reminded')"

fun run_hooks :: "hook \<Rightarrow> string list \<Rightarrow> ((string \<Rightarrow> bool) \<times> tool_event) list \<Rightarrow> reminded \<Rightarrow> tool_event list \<times> reminded" where
  "run_hooks hook copies [] reminded = ([], reminded)"
| "run_hooks hook copies ((existsSync, event) # rest) reminded =
     (case through_copies hook existsSync copies event reminded of (event', reminded') \<Rightarrow>
        map_prod ((#) event') id (run_hooks hook copies rest reminded'))"

section \<open>Who is reminded\<close>

text \<open>A command with a reminder to come: the right tool, a text, and a graph some copy can see.\<close>

type_synonym seen_event = "(string \<Rightarrow> bool) \<times> tool_event"

definition eligible :: "string \<Rightarrow> string list \<Rightarrow> seen_event \<Rightarrow> bool" where
  "eligible tool_name copies x \<longleftrightarrow>
     tool (snd x) = tool_name \<and> command_text (snd x) \<noteq> None \<and> list_ex (hasGraph (fst x)) copies"

definition reminded_event :: "tool_event \<Rightarrow> tool_event" where
  "reminded_event e = with_command (REMINDER @ the (command_text e)) e"

definition first_of_key ::
  "(seen_event \<Rightarrow> bool) \<Rightarrow> (tool_event \<Rightarrow> string option) \<Rightarrow> reminded \<Rightarrow> seen_event list \<Rightarrow> nat \<Rightarrow> bool" where
  "first_of_key P key R xs i \<longleftrightarrow>
     P (xs ! i) \<and> key (snd (xs ! i)) \<notin> R \<and> (\<forall>j < i. P (xs ! j) \<longrightarrow> key (snd (xs ! j)) \<noteq> key (snd (xs ! i)))"

lemma first_of_key_Suc:
  "first_of_key P key R (x # xs) (Suc i) \<longleftrightarrow>
     first_of_key P key (if P x then insert (key (snd x)) R else R) xs i"
  by (auto simp: first_of_key_def All_less_Suc2)

lemma first_unique:
  "first_of_key P key R xs i \<Longrightarrow> first_of_key P key R xs j \<Longrightarrow> key (snd (xs ! i)) = key (snd (xs ! j)) \<Longrightarrow> i = j"
  by (metis first_of_key_def linorder_neqE_nat)

text \<open>
  The interface of a hook: it looks at the commands of one tool, is silent for a key it has seen, and
  otherwise, if the graph exists, puts the reminder before the command and notes the key. All copies
  agree on the key of a command.
\<close>

locale reminding_hook =
  fixes hook :: hook and copies :: "string list" and tool_name :: string and key :: "tool_event \<Rightarrow> string option"
  assumes hook_other: "command_text e = None \<or> tool e \<noteq> tool_name \<Longrightarrow> hook ex d e R = (e, R)"
    and hook_command: "command_text e = Some c \<Longrightarrow> tool e = tool_name \<Longrightarrow> d \<in> set copies \<Longrightarrow>
      hook ex d e R = (if key e \<in> R \<or> \<not> hasGraph ex d then (e, R)
                       else (with_command (REMINDER @ c) e, insert (key e) R))"
    and key_kept: "key (with_command c e) = key e"
begin

lemma seen_silent: "set ds \<subseteq> set copies \<Longrightarrow> key e \<in> R \<Longrightarrow> through_copies hook ex ds e R = (e, R)"
proof (induction ds)
  case (Cons d ds)
  then have "hook ex d e R = (e, R)"
    by (cases "command_text e"; cases "tool e = tool_name") (simp_all add: hook_other hook_command)
  with Cons show ?case by simp
qed simp

lemma through_other: "command_text e = None \<or> tool e \<noteq> tool_name \<Longrightarrow> through_copies hook ex ds e R = (e, R)"
  by (induction ds) (simp_all add: hook_other)

lemma through_command:
  assumes "command_text e = Some c" and "tool e = tool_name" and "key e \<notin> R" and "set ds \<subseteq> set copies"
  shows "through_copies hook ex ds e R =
    (if list_ex (hasGraph ex) ds then (reminded_event e, insert (key e) R) else (e, R))"
  using assms(4)
proof (induction ds)
  case (Cons d ds)
  show ?case
  proof (cases "hasGraph ex d")
    case True
    then have "hook ex d e R = (reminded_event e, insert (key e) R)"
      using Cons.prems assms by (simp add: hook_command reminded_event_def)
    moreover have "through_copies hook ex ds (reminded_event e) (insert (key e) R) = (reminded_event e, insert (key e) R)"
      using Cons.prems by (intro seen_silent) (simp_all add: reminded_event_def key_kept)
    ultimately show ?thesis using True by simp
  next
    case False
    with Cons assms show ?thesis by (simp add: hook_command)
  qed
qed simp

lemma through_all:
  "through_copies hook ex copies e R =
     (if eligible tool_name copies (ex, e) \<and> key e \<notin> R then (reminded_event e, insert (key e) R) else (e, R))"
proof (cases "command_text e")
  case None
  then show ?thesis by (simp add: through_other eligible_def)
next
  case (Some c)
  show ?thesis
  proof (cases "tool e = tool_name")
    case True
    with Some show ?thesis
      by (cases "key e \<in> R") (simp_all add: seen_silent through_command eligible_def)
  next
    case False
    then show ?thesis by (simp add: through_other eligible_def)
  qed
qed

text \<open>Over a whole run: the first eligible command of every key, and no other, is changed.\<close>

lemma run_reminds:
  "fst (run_hooks hook copies xs R) =
     map (\<lambda>i. if first_of_key (eligible tool_name copies) key R xs i then reminded_event (snd (xs ! i)) else snd (xs ! i)) [0..<length xs]"
proof (induction xs arbitrary: R)
  case (Cons x xs)
  obtain ex e where x: "x = (ex, e)" by (cases x)
  have split: "map f [0..<Suc n] = f 0 # map (\<lambda>i. f (Suc i)) [0..<n]" for f :: "nat \<Rightarrow> tool_event" and n
    by (simp add: map_upt_Suc del: upt_Suc)
  have "first_of_key (eligible tool_name copies) key R (x # xs) 0 \<longleftrightarrow> eligible tool_name copies (ex, e) \<and> key e \<notin> R" by (simp add: first_of_key_def x)
  moreover have "insert (key e) R = R" if "key e \<in> R" using that by blast
  ultimately show ?case
    by (auto simp: x through_all Cons.IH split first_of_key_Suc simp del: upt_Suc)
qed simp

end

lemma command_kept [simp]: "sessionID (with_command c e) = sessionID e" "tool (with_command c e) = tool e"
  by (simp_all add: with_command_def)

interpretation session_reminders: reminding_hook setup_hook copies "''shell''" sessionID
  by unfold_locales (auto simp: setup_hook_def split: option.split)

text \<open>All copies of the older runtime serve the directory of one project.\<close>

interpretation project_reminders: reminding_hook server_hook "replicate n directory" "''bash''" "\<lambda>e. Some directory"
  by unfold_locales (auto simp: server_hook_def split: option.split)

section \<open>The hash of a location\<close>

lemma hash_step: "to_uint32 (Math_imul h 31 + c) = (h * 31 + c) mod 2 ^ 32"
proof -
  have word: "(word_of_int (Math_imul h 31 + c) :: 32 word) = word_of_int (h * 31 + c)"
    by (simp add: Math_imul_def)
  show ?thesis unfolding to_uint32_def word by (simp only: uint_word_of_int) simp
qed

definition polynomial :: "int \<Rightarrow> int list \<Rightarrow> int" where
  "polynomial a cs = foldl (\<lambda>h c. h * 31 + c) a cs"

lemma fold_mod:
  "foldl (\<lambda>h c. (h * 31 + c) mod 2 ^ 32) (a mod 2 ^ 32) cs = polynomial a cs mod 2 ^ 32"
proof (induction cs arbitrary: a)
  case (Cons c cs)
  have "((a mod 2 ^ 32) * 31 + c) mod 2 ^ 32 = (a * 31 + c) mod 2 ^ 32"
    by (metis mod_add_left_eq mod_mult_left_eq)
  with Cons[of "a * 31 + c"] show ?case by (simp add: polynomial_def)
qed (simp add: polynomial_def)

lemma polynomial_sum:
  "polynomial a cs = a * 31 ^ length cs + (\<Sum>i < length cs. cs ! i * 31 ^ (length cs - 1 - i))"
proof (induction cs rule: rev_induct)
  case (snoc c cs)
  have "(\<Sum>i < length cs. (cs @ [c]) ! i * 31 ^ (length cs - i)) = 31 * (\<Sum>i < length cs. cs ! i * 31 ^ (length cs - 1 - i))"
    unfolding sum_distrib_left
    by (rule sum.cong) (auto simp: nth_append power_Suc[symmetric] Suc_diff_Suc simp del: power_Suc)
  with snoc show ?case by (simp add: polynomial_def algebra_simps)
qed (simp add: polynomial_def)

definition units :: "nat list \<Rightarrow> int list" where
  "units url = map (\<lambda>ch. int (hd ch)) (spread url)"

lemma location_polynomial: "location url = polynomial 7 (units url) mod 2 ^ 32"
  using fold_mod[of 7 "units url"] by (simp add: location_def units_def hash_step foldl_map)

lemma spread_append: "us = [] \<or> \<not> low_surrogate (hd us) \<Longrightarrow> spread (vs @ us) = spread vs @ spread us"
  by (induction vs rule: spread.induct) (cases us; auto)+

section \<open>The hexadecimal name\<close>

definition digit_value :: "char \<Rightarrow> nat" where
  "digit_value c = length (takeWhile (\<lambda>d. d \<noteq> c) ''0123456789abcdef'')"

definition hex_value :: "string \<Rightarrow> nat" where
  "hex_value = foldl (\<lambda>v c. 16 * v + digit_value c) 0"

lemma digit_value: "d < 16 \<Longrightarrow> digit_value (hex_digit d) = d"
proof -
  assume "d < 16"
  then have "d \<in> set [0..<16]" by simp
  moreover have "list_all (\<lambda>d. digit_value (hex_digit d) = d) [0..<16]" by code_simp
  ultimately show ?thesis by (simp add: list_all_iff)
qed

declare hex.simps [simp del]

lemma hex_value_hex: "hex_value (hex n) = n"
proof (induction n rule: hex.induct)
  case (1 n)
  then show ?case
    by (cases "n < 16") (simp_all add: hex.simps[of n] hex_value_def digit_value)
qed

lemma hex_length: "n < 16 ^ Suc k \<Longrightarrow> 1 \<le> length (hex n) \<and> length (hex n) \<le> Suc k"
proof (induction k arbitrary: n)
  case (Suc k)
  then have "n div 16 < 16 ^ Suc k" by (simp add: div_less_iff_less_mult)
  with Suc.IH[of "n div 16"] show ?case by (simp add: hex.simps[of n])
qed (simp add: hex.simps)

lemma location_range: "0 \<le> location url" "location url < 2 ^ 32"
  unfolding location_polynomial by simp_all

lemma hex_location: "hex (nat (location u)) = hex (nat (location v)) \<longleftrightarrow> location u = location v"
  by (metis hex_value_hex location_range(1) nat_eq_iff)

lemma collision: "location (a @ [65, 97] @ b) = location (a @ [66, 66] @ b)"
proof -
  have "spread (65 # 97 # b) = [65] # [97] # spread b" "spread (66 # 66 # b) = [66] # [66] # spread b"
    by (cases b; simp add: high_surrogate_def)+
  then have "units (a @ [65, 97] @ b) = units a @ [65, 97] @ units b" "units (a @ [66, 66] @ b) = units a @ [66, 66] @ units b"
    by (simp_all add: units_def spread_append low_surrogate_def)
  then show ?thesis by (simp add: location_polynomial polynomial_def algebra_simps)
qed

section \<open>Properties\<close>

text \<open>
  C10: a hook of the plugin changes exactly the first shell command of every session, in the older runtime
  of the project, that comes with a text while some copy sees a graph; every other command passes as it
  is, however many copies of the plugin are loaded.
\<close>
theorem hooks_remind_once:
  "fst (run_hooks setup_hook copies xs R) =
     map (\<lambda>i. if first_of_key (eligible ''shell'' copies) sessionID R xs i
               then reminded_event (snd (xs ! i)) else snd (xs ! i)) [0..<length xs] \<and>
   fst (run_hooks server_hook (replicate n directory) xs R) =
     map (\<lambda>i. if first_of_key (eligible ''bash'' (replicate n directory)) (\<lambda>e. Some directory) R xs i
               then reminded_event (snd (xs ! i)) else snd (xs ! i)) [0..<length xs]"
  by (intro conjI session_reminders.run_reminds project_reminders.run_reminds)


text \<open>
  C25: the hash of a location is a polynomial in its code points, modulo two to the 32, with no effect of
  signed multiplication; the id is the hash in at most eight hexadecimal digits, from which it can be read.
\<close>
theorem plugin_id_bounds:
  "location url = (7 * 31 ^ length (units url) +
       (\<Sum>i < length (units url). units url ! i * 31 ^ (length (units url) - 1 - i))) mod 2 ^ 32 \<and>
   plugin_id url = ''graphify-'' @ hex (nat (location url)) \<and>
   hex_value (hex (nat (location url))) = nat (location url) \<and>
   1 \<le> length (hex (nat (location url))) \<and> length (hex (nat (location url))) \<le> 8"
proof -
  have "nat (location url) < 16 ^ Suc 7" using location_range[of url] by simp
  from hex_length[OF this] show ?thesis
    by (simp add: plugin_id_def hex_value_hex location_polynomial polynomial_sum)
qed

text \<open>
  C26: two copies of the plugin get the same id exactly when their locations have the same hash, and there
  are such locations at every place of a path: \<open>Aa\<close> and \<open>BB\<close> in the same position collide.
\<close>
theorem plugin_ids_collide:
  "(plugin_id u = plugin_id v \<longleftrightarrow> location u = location v) \<and>
   plugin_id (a @ [65, 97] @ b) = plugin_id (a @ [66, 66] @ b)"
  using hex_location[of u v] collision[of a b] by (simp add: plugin_id_def)

end
