(* ===== verification/Installer.thy ===== *)
theory Installer
  imports Node_Path Prelude
begin

text \<open>
  The script \<open>install.mjs\<close>, which copies the plugin into a repository, over a file system without links.
  A file system maps paths, as segments below the root, to entries; the functions of \<open>node:fs\<close> are given
  for it with the errors they throw.
\<close>

section \<open>The file system\<close>

type_synonym path = "string list"

datatype entry = File string | Directory

type_synonym files = "(path, entry) js_map"

datatype fs_error = ENOTDIR path | ENOENT path | EINVAL | DIR_TO_NON_DIR path | NON_DIR_TO_DIR path

definition existsSync :: "files \<Rightarrow> path \<Rightarrow> bool" where
  "existsSync fs p \<longleftrightarrow> p = [] \<or> get fs p \<noteq> None"

definition within :: "path \<Rightarrow> path \<Rightarrow> bool" where
  "within d p \<longleftrightarrow> take (length d) p = d"

text \<open>\<open>mkdirSync\<close> with \<open>recursive\<close>: the missing directories on the way, from the root down.\<close>

fun make_dirs :: "path \<Rightarrow> path \<Rightarrow> files \<Rightarrow> fs_error option \<times> files" where
  "make_dirs done_part [] fs = (None, fs)"
| "make_dirs done_part (s # ss) fs =
     (let p = done_part @ [s] in
      case get fs p of
        Some (File c) \<Rightarrow> (Some (ENOTDIR p), fs)
      | Some Directory \<Rightarrow> make_dirs p ss fs
      | None \<Rightarrow> make_dirs p ss (put p Directory fs))"

definition mkdirSync :: "files \<Rightarrow> path \<Rightarrow> fs_error option \<times> files" where
  "mkdirSync fs p = make_dirs [] p fs"

text \<open>\<open>cpSync\<close> with \<open>recursive\<close>: every entry below the source goes to its place below the target.\<close>

definition copy_entry :: "bool \<Rightarrow> path \<Rightarrow> path \<times> entry \<Rightarrow> files \<Rightarrow> fs_error option \<times> files" where
  "copy_entry force target item fs = (case item of (rel, e) \<Rightarrow>
     (let p = target @ rel in
      case (e, get fs p) of
        (Directory, None) \<Rightarrow> (None, put p Directory fs)
      | (Directory, Some Directory) \<Rightarrow> (None, fs)
      | (Directory, Some (File c)) \<Rightarrow> (Some (DIR_TO_NON_DIR p), fs)
      | (File c, Some Directory) \<Rightarrow> (Some (NON_DIR_TO_DIR p), fs)
      | (File c, Some (File d)) \<Rightarrow> (None, if force then put p (File c) fs else fs)
      | (File c, None) \<Rightarrow> (None, put p (File c) fs)))"

fun copy_entries :: "bool \<Rightarrow> path \<Rightarrow> (path \<times> entry) list \<Rightarrow> files \<Rightarrow> fs_error option \<times> files" where
  "copy_entries force target [] fs = (None, fs)"
| "copy_entries force target (item # items) fs =
     (case copy_entry force target item fs of
        (Some e, fs') \<Rightarrow> (Some e, fs')
      | (None, fs') \<Rightarrow> copy_entries force target items fs')"

definition entries_below :: "path \<Rightarrow> files \<Rightarrow> (path \<times> entry) list" where
  "entries_below source fs = map (\<lambda>(p, e). (drop (length source) p, e)) (filter (\<lambda>(p, e). within source p) fs)"

definition cpSync :: "bool \<Rightarrow> path \<Rightarrow> path \<Rightarrow> files \<Rightarrow> fs_error option \<times> files" where
  "cpSync force source target fs =
     (if get fs source = None then (Some (ENOENT source), fs)
      else if within source target then (Some EINVAL, fs)
      else copy_entries force target (entries_below source fs) fs)"

section \<open>The script\<close>

record install_run =
  exit_code :: nat
  console_log :: "string list"
  console_error :: "string list"
  uncaught :: "fs_error option"
  files_after :: files

definition skill_source :: "string \<Rightarrow> string \<Rightarrow> string" where
  "skill_source cwd script =
     (let skillRoot = resolve cwd [dirname script, ''..''] in resolve cwd [skillRoot, ''assets/anti-slop''])"

definition target_path :: "string \<Rightarrow> string list \<Rightarrow> string" where
  "target_path cwd arguments =
     (let targetArgument = find (\<lambda>argument. \<not> starts_with ''--'' argument) arguments
      in resolve cwd [cwd, nullish targetArgument ''tools/oxlint/anti-slop''])"

definition install :: "string \<Rightarrow> string \<Rightarrow> string list \<Rightarrow> files \<Rightarrow> install_run" where
  "install script cwd argv fs =
     (let source = skill_source cwd script;
          arguments = drop 2 argv;
          target = target_path cwd arguments;
          force = ''--force'' \<in> set arguments;
          target_segments = normal_segments False target
      in if existsSync fs target_segments \<and> \<not> force
         then \<lparr>exit_code = 1, console_log = [],
                console_error = [''Refusing to overwrite '' @ target @
                  ''. Re-run with --force only after reviewing the existing files.''],
                uncaught = None, files_after = fs\<rparr>
         else
           (case mkdirSync fs (normal_segments False (dirname target)) of
              (Some e, fs1) \<Rightarrow>
                \<lparr>exit_code = 1, console_log = [], console_error = [], uncaught = Some e, files_after = fs1\<rparr>
            | (None, fs1) \<Rightarrow>
                (case cpSync force (normal_segments False source) target_segments fs1 of
                   (Some e, fs2) \<Rightarrow>
                     \<lparr>exit_code = 1, console_log = [], console_error = [], uncaught = Some e, files_after = fs2\<rparr>
                 | (None, fs2) \<Rightarrow>
                     \<lparr>exit_code = 0,
                       console_log = [''Copied the anti-slop plugin to '' @ target,
                                      ''Configure Oxlint with: '' @ target @ ''/index.ts''],
                       console_error = [], uncaught = None, files_after = fs2\<rparr>)))"

section \<open>Nothing is lost without force\<close>

definition keeps :: "files \<Rightarrow> files \<Rightarrow> bool" where
  "keeps fs fs' \<longleftrightarrow> (\<forall>p e. get fs p = Some e \<longrightarrow> get fs' p = Some e)"

lemma keeps_refl [simp]: "keeps fs fs"
  by (simp add: keeps_def)

lemma keeps_trans: "keeps fs fs' \<Longrightarrow> keeps fs' fs'' \<Longrightarrow> keeps fs fs''"
  by (simp add: keeps_def)

lemma keeps_put: "get fs p = None \<Longrightarrow> keeps fs (put p e fs)"
  by (auto simp: keeps_def)

lemma make_dirs_keeps: "keeps fs (snd (make_dirs dp ss fs))"
proof (induction dp ss fs rule: make_dirs.induct)
  case (2 dp s ss fs)
  then show ?case
    by (auto simp: Let_def split: option.split entry.split intro: keeps_trans[OF keeps_put])
qed simp

lemma copy_entry_keeps: "keeps fs (snd (copy_entry False target item fs))"
  by (auto simp: copy_entry_def Let_def split: prod.split entry.split option.split intro: keeps_put)

lemma copy_entries_keeps: "keeps fs (snd (copy_entries False target items fs))"
proof (induction items arbitrary: fs)
  case (Cons item items)
  have "keeps fs (snd (copy_entry False target item fs))" by (rule copy_entry_keeps)
  with Cons show ?case by (auto split: prod.split option.split intro: keeps_trans)
qed simp

lemma install_keeps:
  assumes "''--force'' \<notin> set (drop 2 argv)"
  shows "keeps fs (files_after (install script cwd argv fs))"
proof -
  have "keeps fs1 (snd (cpSync False source target fs1))" for source target fs1
    by (simp add: cpSync_def copy_entries_keeps)
  moreover have "keeps fs (snd (mkdirSync fs p))" for p by (simp add: mkdirSync_def make_dirs_keeps)
  ultimately have "mkdirSync fs p = (e, fs1) \<Longrightarrow> cpSync False source target fs1 = (e', fs2) \<Longrightarrow> keeps fs fs1 \<and> keeps fs fs2"
    for p e fs1 source target e' fs2 by (metis keeps_trans snd_conv)
  with assms show ?thesis by (auto simp: install_def Let_def split: prod.split option.split)
qed

section \<open>What an installation leaves\<close>

lemma within_iff: "within d p \<longleftrightarrow> (\<exists>r. p = d @ r)"
  by (metis append_eq_conv_conj append_take_drop_id within_def)

lemma within_next: "length dp < length p \<and> within p (dp @ s # ss) \<longleftrightarrow>
    p = dp @ [s] \<or> length (dp @ [s]) < length p \<and> within p ((dp @ [s]) @ ss)"
proof
  assume l: "length dp < length p \<and> within p (dp @ s # ss)"
  then have "p = take (length p) ((dp @ [s]) @ ss)" by (auto simp: within_def)
  then show "p = dp @ [s] \<or> length (dp @ [s]) < length p \<and> within p ((dp @ [s]) @ ss)"
    using l by (cases "length p = Suc (length dp)") auto
qed (auto simp: within_def)

lemma make_dirs_gets:
  "\<forall>q c. length dp < length q \<and> within q (dp @ ss) \<longrightarrow> get fs q \<noteq> Some (File c) \<Longrightarrow>
     fst (make_dirs dp ss fs) = None \<and>
     get (snd (make_dirs dp ss fs)) p =
       (if length dp < length p \<and> within p (dp @ ss) then Some Directory else get fs p)"
proof (induction dp ss fs rule: make_dirs.induct)
  case (1 dp fs)
  then show ?case by (auto simp: within_iff)
next
  case (2 dp s ss fs)
  let ?q = "dp @ [s]"
  have free: "\<forall>q c. length ?q < length q \<and> within q (?q @ ss) \<longrightarrow> get fs q \<noteq> Some (File c)"
    and here: "\<forall>c. get fs ?q \<noteq> Some (File c)"
    using 2(3) unfolding within_next by blast+
  show ?case
  proof (cases "get fs ?q")
    case None
    have "\<forall>q c. length ?q < length q \<and> within q (?q @ ss) \<longrightarrow> get (put ?q Directory fs) q \<noteq> Some (File c)"
      using free by simp
    from 2(1)[OF refl None this] show ?thesis using None unfolding within_next by (auto simp: Let_def)
  next
    case (Some e)
    with here have e: "get fs ?q = Some Directory" by (cases e) auto
    from 2(2)[OF refl e refl free] show ?thesis using e unfolding within_next by (auto simp: Let_def)
  qed
qed

lemma make_dirs_distinct: "distinct (map fst fs) \<Longrightarrow> distinct (map fst (snd (make_dirs dp ss fs)))"
  by (induction dp ss fs rule: make_dirs.induct)
    (auto simp: Let_def distinct_update split: option.split entry.split)

text \<open>An entry may take the place of one of its kind, a file only by force.\<close>

fun replaceable :: "bool \<Rightarrow> entry \<Rightarrow> entry option \<Rightarrow> bool" where
  "replaceable force e None = True"
| "replaceable force Directory (Some d) = (d = Directory)"
| "replaceable force (File c) (Some d) = (force \<and> d \<noteq> Directory)"

lemma copy_entry_gets:
  "replaceable force e (get fs (target @ rel)) \<Longrightarrow>
     fst (copy_entry force target (rel, e) fs) = None \<and>
     get (snd (copy_entry force target (rel, e) fs)) p = (if p = target @ rel then Some e else get fs p)"
  by (cases e; cases "get fs (target @ rel)"; cases "the (get fs (target @ rel))") (auto simp: copy_entry_def Let_def)

lemma copy_entries_gets:
  "distinct (map fst items) \<Longrightarrow> \<forall>(rel, e) \<in> set items. replaceable force e (get fs (target @ rel)) \<Longrightarrow>
     fst (copy_entries force target items fs) = None \<and>
     get (snd (copy_entries force target items fs)) p =
       (if within target p \<and> get items (drop (length target) p) \<noteq> None
        then get items (drop (length target) p) else get fs p)"
proof (induction items arbitrary: fs)
  case (Cons item items)
  obtain rel e where item: "item = (rel, e)" by (cases item)
  obtain fs' where fs': "copy_entry force target (rel, e) fs = (None, fs')"
    and gets: "get fs' q = (if q = target @ rel then Some e else get fs q)" for q
    using copy_entry_gets[of force e fs target rel] Cons.prems(2) item
    by (metis (no_types, lifting) case_prod_conv list.set_intros(1) prod.collapse)
  have "\<forall>(rel', e') \<in> set items. replaceable force e' (get fs' (target @ rel'))"
    using Cons.prems item by (force simp: gets)
  with Cons have "fst (copy_entries force target items fs') = None \<and>
      get (snd (copy_entries force target items fs')) p =
        (if within target p \<and> get items (drop (length target) p) \<noteq> None
         then get items (drop (length target) p) else get fs' p)" by simp
  moreover have "get items rel = None" using Cons.prems(1) item by (simp add: map_of_eq_None_iff)
  ultimately show ?case by (auto simp: item fs' gets within_iff)
qed simp

lemma entries_below_simps [simp]:
  "entries_below source [] = []"
  "entries_below source ((p, e) # fs) =
     (if within source p then (drop (length source) p, e) # entries_below source fs else entries_below source fs)"
  by (simp_all add: entries_below_def)

lemma entries_below_get: "get (entries_below source fs) rel = get fs (source @ rel)"
proof (induction fs)
  case (Cons x fs)
  obtain p e where x: "x = (p, e)" by (cases x)
  show ?case
  proof (cases "within source p")
    case True
    then obtain r where "p = source @ r" by (auto simp: within_iff)
    with Cons True show ?thesis by (simp add: x)
  next
    case False
    then have "source @ rel \<noteq> p" by (auto simp: within_iff)
    with Cons False show ?thesis by (simp add: x)
  qed
qed simp

lemma entries_below_distinct: "distinct (map fst fs) \<Longrightarrow> distinct (map fst (entries_below source fs))"
proof (induction fs)
  case (Cons x fs)
  obtain p e where x: "x = (p, e)" by (cases x)
  have "drop (length source) p \<notin> fst ` set (entries_below source fs)" if "within source p"
  proof -
    have "get fs p = None" using Cons.prems by (simp add: map_of_eq_None_iff x)
    then have "get (entries_below source fs) (drop (length source) p) = None"
      using that by (auto simp: entries_below_get within_iff)
    then show ?thesis by (simp add: map_of_eq_None_iff)
  qed
  with Cons show ?case by (simp add: x)
qed simp

text \<open>
  What the script needs: the plugin is a directory, the target is apart from it, no file is on the way to
  the target, and the entries in the way may be replaced.
\<close>

definition installable :: "bool \<Rightarrow> path \<Rightarrow> path \<Rightarrow> files \<Rightarrow> bool" where
  "installable force source target fs \<longleftrightarrow>
     distinct (map fst fs) \<and> get fs source = Some Directory \<and>
     \<not> within source target \<and> \<not> within target source \<and>
     (force \<or> \<not> existsSync fs target) \<and>
     list_all (\<lambda>(p, e). within p target \<longrightarrow> e = Directory) fs \<and>
     list_all (\<lambda>(rel, e). replaceable force e (get fs (target @ rel))) (entries_below source fs)"

text \<open>The tree below the source replaces what is below the target, entry by entry; the way to it exists.\<close>

definition installed :: "path \<Rightarrow> path \<Rightarrow> files \<Rightarrow> path \<Rightarrow> entry option" where
  "installed source target fs p =
     (if within target p \<and> get fs (source @ drop (length target) p) \<noteq> None
      then get fs (source @ drop (length target) p)
      else if p \<noteq> [] \<and> p \<noteq> target \<and> within p target then Some Directory
      else get fs p)"

lemma dirname_target: "normal_segments False (dirname (target_path cwd arguments)) = butlast (normal_segments False (target_path cwd arguments))"
proof -
  let ?ss = "resolved_segments cwd [cwd, nullish (find (\<lambda>a. \<not> starts_with ''--'' a) arguments) ''tools/oxlint/anti-slop'']"
  have names: "list_all name_segment ?ss" unfolding resolved_segments_def by (rule normal_names)
  have path: "target_path cwd arguments = CHR ''/'' # join_slash ?ss" by (simp add: target_path_def resolve_def)
  show ?thesis
  proof (cases ?ss rule: rev_cases)
    case Nil
    then show ?thesis by (simp add: path dirname_def absolute_def normal_segments_def push_segment_def)
  next
    case (snoc ss s)
    have "list_all name_segment (ss @ [s])" "list_all name_segment ss" using names by (simp_all add: snoc)
    then show ?thesis by (simp only: path snoc dirname_normal normal_segments_join butlast_snoc)
  qed
qed

lemma install_gets:
  fixes script cwd argv fs
  defines "source \<equiv> normal_segments False (skill_source cwd script)"
    and "target \<equiv> normal_segments False (target_path cwd (drop 2 argv))"
    and "force \<equiv> ''--force'' \<in> set (drop 2 argv)"
  assumes "installable force source target fs"
  shows "exit_code (install script cwd argv fs) = 0 \<and> uncaught (install script cwd argv fs) = None \<and>
    get (files_after (install script cwd argv fs)) p = installed source target fs p"
proof -
  note inst = assms(4)[unfolded installable_def]
  have target: "target \<noteq> []" using inst by (auto simp: within_def)
  define fs1 where "fs1 = snd (mkdirSync fs (butlast target))"
  have way: "within q (butlast target) \<Longrightarrow> within q target" for q
    using append_butlast_last_id[OF target] unfolding within_iff by (metis append.assoc)
  have "\<forall>q c. length ([] :: path) < length q \<and> within q ([] @ butlast target) \<longrightarrow> get fs q \<noteq> Some (File c)"
  proof (intro allI impI notI)
    fix q c assume "length ([] :: path) < length q \<and> within q ([] @ butlast target)" "get fs q = Some (File c)"
    then have "(q, File c) \<in> set fs" "within q target" by (auto dest: map_of_SomeD way)
    then show False using inst by (auto simp: list_all_iff)
  qed
  from make_dirs_gets[OF this] have made: "mkdirSync fs (butlast target) = (None, fs1)"
    and get1: "get fs1 q = (if q \<noteq> [] \<and> within q (butlast target) then Some Directory else get fs q)" for q
    by (auto simp: mkdirSync_def fs1_def prod_eq_iff)
  have apart: "\<not> within q (butlast target)" if "within source q" for q
    using that way[of q] inst unfolding within_iff by (metis append.assoc)
  have below: "get (entries_below source fs1) rel = get fs (source @ rel)" for rel
    using apart[of "source @ rel"] by (simp add: entries_below_get get1 within_iff)
  have before: "target @ rel \<noteq> q" if "within q (butlast target)" for q rel
  proof
    assume "target @ rel = q"
    then have "length target \<le> length (butlast target)" using that by (auto simp: within_iff dest!: arg_cong[of _ _ length])
    then show False using target by (cases target rule: rev_cases) auto
  qed
  have same: "get fs1 (target @ rel) = get fs (target @ rel)" for rel using before by (auto simp: get1)
  have "\<forall>(rel, e) \<in> set (entries_below source fs1). replaceable force e (get fs1 (target @ rel))"
  proof safe
    fix rel e assume "(rel, e) \<in> set (entries_below source fs1)"
    moreover have "distinct (map fst (entries_below source fs1))"
      using inst make_dirs_distinct by (simp add: entries_below_distinct fs1_def mkdirSync_def)
    ultimately have "get (entries_below source fs) rel = Some e" by (metis below entries_below_get map_of_is_SomeI)
    then show "replaceable force e (get fs1 (target @ rel))"
      using inst by (auto simp: same list_all_iff dest: map_of_SomeD)
  qed
  moreover have "distinct (map fst (entries_below source fs1))"
    using inst make_dirs_distinct by (simp add: entries_below_distinct fs1_def mkdirSync_def)
  ultimately obtain fs2 where copied: "copy_entries force target (entries_below source fs1) fs1 = (None, fs2)"
    and get2: "get fs2 p = (if within target p \<and> get fs (source @ drop (length target) p) \<noteq> None
       then get fs (source @ drop (length target) p) else get fs1 p)" for p
    using copy_entries_gets[of "entries_below source fs1" force fs1 target] unfolding below
    by (metis (no_types, lifting) prod.collapse)
  have "get fs1 source \<noteq> None" using below[of "[]"] inst by (simp add: entries_below_get)
  with copied inst have "cpSync force source target fs1 = (None, fs2)" by (simp add: cpSync_def)
  moreover have "within q (butlast target) \<longleftrightarrow> q \<noteq> target \<and> within q target" for q
  proof
    assume "within q (butlast target)"
    then show "q \<noteq> target \<and> within q target" using way before[of q "[]"] by auto
  next
    assume q: "q \<noteq> target \<and> within q target"
    then obtain r where "target = q @ r" "r \<noteq> []" by (auto simp: within_iff)
    then show "within q (butlast target)" by (auto simp: within_iff butlast_append)
  qed
  ultimately show ?thesis
    using made inst unfolding target_def[symmetric] force_def[symmetric] source_def[symmetric] install_def Let_def dirname_target
    by (auto simp: installed_def get2 get1 target_def[symmetric] source_def[symmetric] force_def[symmetric])
qed

section \<open>Properties\<close>

text \<open>
  C11: an installation that can go on exits with 0 and leaves the plugin's tree at the target, entry by
  entry; the directories on the way exist, and nothing else has changed.
\<close>
theorem install_exact:
  "installable (''--force'' \<in> set (drop 2 argv)) (normal_segments False (skill_source cwd script))
       (normal_segments False (target_path cwd (drop 2 argv))) fs \<Longrightarrow>
     exit_code (install script cwd argv fs) = 0 \<and> uncaught (install script cwd argv fs) = None \<and>
     get (files_after (install script cwd argv fs)) p =
       installed (normal_segments False (skill_source cwd script))
         (normal_segments False (target_path cwd (drop 2 argv))) fs p"
  by (rule install_gets)

definition sample_files :: files where
  "sample_files =
     [([''work''], Directory), ([''s''], Directory), ([''s'', ''assets''], Directory),
      ([''s'', ''assets'', ''anti-slop''], Directory), ([''s'', ''assets'', ''anti-slop'', ''index.ts''], File ''x'')]"

theorem install_exact_witness:
  "exit_code (install ''/s/scripts/install.mjs'' ''/work'' [''node'', ''install.mjs''] sample_files) = 0 \<and>
   get (files_after (install ''/s/scripts/install.mjs'' ''/work'' [''node'', ''install.mjs''] sample_files))
     [''work'', ''tools'', ''oxlint'', ''anti-slop'', ''index.ts''] = Some (File ''x'')"
proof -
  have "installable (''--force'' \<in> set (drop 2 [''node'', ''install.mjs''])) (normal_segments False (skill_source ''/work'' ''/s/scripts/install.mjs''))
       (normal_segments False (target_path ''/work'' (drop 2 [''node'', ''install.mjs'']))) sample_files" by code_simp
  moreover have "installed (normal_segments False (skill_source ''/work'' ''/s/scripts/install.mjs''))
      (normal_segments False (target_path ''/work'' (drop 2 [''node'', ''install.mjs'']))) sample_files
      [''work'', ''tools'', ''oxlint'', ''anti-slop'', ''index.ts''] = Some (File ''x'')" by code_simp
  ultimately show ?thesis using install_exact by simp
qed

text \<open>
  C22: without \<open>--force\<close> the script never changes a file or directory that exists, whatever its outcome;
  if the target exists it changes nothing at all and exits with 1.
\<close>
theorem install_never_overwrites:
  "''--force'' \<notin> set (drop 2 argv) \<Longrightarrow>
     (get fs p \<noteq> None \<longrightarrow> get (files_after (install script cwd argv fs)) p = get fs p) \<and>
     (existsSync fs (normal_segments False (target_path cwd (drop 2 argv))) \<longrightarrow>
        exit_code (install script cwd argv fs) = 1 \<and> files_after (install script cwd argv fs) = fs)"
  using install_keeps[of argv fs script cwd] by (auto simp: keeps_def install_def Let_def)

theorem install_never_overwrites_witness:
  "exit_code (install ''/s/scripts/install.mjs'' ''/'' [''node'', ''install.mjs'', ''work''] sample_files) = 1 \<and>
   files_after (install ''/s/scripts/install.mjs'' ''/'' [''node'', ''install.mjs'', ''work''] sample_files) = sample_files"
proof -
  have "''--force'' \<notin> set (drop 2 [''node'', ''install.mjs'', ''work''])" by simp
  moreover have "existsSync sample_files (normal_segments False (target_path ''/'' (drop 2 [''node'', ''install.mjs'', ''work''])))"
    by code_simp
  ultimately show ?thesis using install_never_overwrites by blast
qed

end
