(* ===== verification/Spec2Isabelle.thy ===== *)
theory Spec2Isabelle
  imports Array_Rules Contract_Rules Reflect_Rules Assertion_Rules Dictionary_Spec Value_Widening
    Widen_Assert Effect_Rules Padding_Examples Plugin_Runs Graphify Installer
begin

text \<open>
  A verification development for the TypeScript and JavaScript code of this repository: the lint plugin
  \<open>anti-slop\<close> under \<open>src/.agents/skills/install-anti-slop/assets/anti-slop\<close>, to which the paths below are
  relative, its installer \<open>scripts/install.mjs\<close>, and the OpenCode plugin
  \<open>src/.opencode/plugins/graphify.js\<close>.

  \<^bold>\<open>The program.\<close> Oxlint parses a file, computes its scopes, tokens and comments, walks the tree and
  calls the handlers a rule registered for the type of each node; a handler answers with reports, some
  with a fix. A rule is a closure that may keep state: the type environment of the program, the scopes,
  a cache of patterns, a stack of statement lists. Rules share helpers under \<open>shared\<close>,
  \<open>effect/shared\<close> and the vendored padding rule under \<open>vendor/eslint-stylistic\<close>.

  \<^bold>\<open>The model.\<close> \<open>Estree\<close> has the syntax trees as a datatype with the ESTree kinds, \<open>Tree\<close> their
  children, object identity (\<open>nid\<close>) and locations: a node with its ancestors, which stands for the
  \<open>parent\<close> pointers. \<open>Views\<close> reads a node as one kind. \<open>Scopes\<close> has variables in a store, scopes,
  \<open>source_code\<close> with what Oxlint supplies, reports, and \<open>shared/scope.ts\<close>. \<open>Linter\<close> runs the
  handlers of a rule, as a step function on its state, over the locations of a program. \<open>Prelude\<close> and
  \<open>Text\<close> hold the JavaScript library the rules use.

  \<^item> \<open>Wrappers\<close>, \<open>Binding_Search\<close>, \<open>Fuelled\<close>: interfaces as locales. A wrapper loop strips syntax; a
    binding search follows names to initializers with a set of visited variables; a fuelled evaluation
    is monotone in its fuel. Each is interpreted on the functions of the code that have the contract.
  \<^item> \<open>Array_Method\<close> (\<open>shared/array-method.ts\<close>), \<open>Array_Rules\<close> (\<open>no-array-filter-map\<close>,
    \<open>no-reduce-accumulator-copy\<close>): the searches end and agree with derivations of array evidence and of
    accumulator aliases; the reducer around a call.
  \<^item> \<open>Type_Parameters\<close> (\<open>shared/lexical-type-parameters.ts\<close>), \<open>Type_Aliases\<close> and \<open>Type_Resolution\<close>
    (\<open>shared/type-alias-resolution.ts\<close>), \<open>Contracts\<close> and \<open>Contract_Rules\<close>
    (\<open>shared/function-parameters.ts\<close>, \<open>no-unknown-parameters\<close>, \<open>no-unknown-returns\<close>,
    \<open>no-unknown-type-aliases\<close>, \<open>no-object-parameters\<close>): lexical lookup, the environment and its cache,
    and whole runs of three rules against reachability of types.
  \<^item> \<open>Reflect_Rules\<close> (\<open>shared/reflect-method.ts\<close>, \<open>no-reflect-apply\<close>, \<open>no-reflect-get\<close>,
    \<open>no-module-mocking\<close>), \<open>Syntax_Rules\<close> (\<open>no-conditional-empty-object-spread\<close>, \<open>no-runtime-typeof\<close>,
    \<open>no-shape-in-symbol-names\<close>), \<open>Assertion_Rules\<close> (\<open>no-chained-type-assertions\<close>,
    \<open>require-safety-comment-for-type-assertion\<close> with its cache of patterns).
  \<^item> \<open>Dictionary_Types\<close>, \<open>Widening_Targets\<close>, \<open>Dictionary_Termination\<close> (\<open>shared/dictionary-types.ts\<close>),
    \<open>Dictionary_Rule\<close> and \<open>Dictionary_Examples\<close> (\<open>no-unsafe-dictionary-type\<close>): classification of types,
    that it ends when aliases take no parameters, that it may not end otherwise, and that only the
    outermost unsafe type is reported. \<open>Dictionary_Spec\<close>: what the rule promises, as relations without fuel
    or marked names, and that a run over plain, uniquely named aliases reports exactly that.
    \<open>Name_Search\<close>: why the marks on names change no result, for every search of this kind.
  \<^item> \<open>Known_Evidence\<close> and \<open>Value_Widening\<close> (\<open>no-known-value-widening\<close>), \<open>Widen_Assert\<close>
    (\<open>no-widen-then-assert\<close>): evidence through constants, flows into broad types.
  \<^item> \<open>Effect_Rules\<close> (\<open>effect/shared/tagged-values.ts\<close> and the rules under \<open>effect/rules\<close>): two rules divide
    the branches on a tag between them; imports of service constructors; chains of ternaries.
  \<^item> \<open>Padding_Tokens\<close> (\<open>vendor/eslint-stylistic/padding-line-ast.ts\<close>), \<open>Statement_Types\<close> and
    \<open>Padding_Line\<close> (\<open>padding-line-between-statements.ts\<close>), \<open>Readable_Spacing\<close>
    (\<open>rules/require-readable-spacing.ts\<close>, its policy and what a whole run reports).
    \<open>Padding_Run\<close>: over a program the stack of scopes is balanced and exactly the adjacent statements
    are queued; \<open>Padding_Fix\<close>: blank lines over a stream of tokens and the fix that inserts one;
    \<open>Padding_Removal\<close>: the regular expression of the fix that removes them; \<open>Padding_Examples\<close>: the
    properties and a source on which their hypotheses hold.
  \<^item> \<open>Rule_Meta\<close> (the \<open>meta\<close> objects), \<open>Plugin\<close> (\<open>index.ts\<close>, \<open>effect/index.ts\<close>, and each rule as its metadata,
    its variables and its run over a file), \<open>Plugin_Runs\<close>: all rules together. Every report can be rendered
    with the message of its rule, and a run over files reports for each what a run over that file alone
    does, although the variables and the cache of environments live on.
  \<^item> \<open>Node_Path\<close> (the functions of \<open>node:path\<close> in use), \<open>Graphify\<close> (\<open>graphify.js\<close>): the hooks as steps on
    the shared set of those reminded, an interface both have, runs over commands and copies, the
    id as a hash over 32-bit words; \<open>Installer\<close> (\<open>install.mjs\<close>): the script on a file system, what it
    leaves and what it never touches.

  \<^bold>\<open>Termination and fuel.\<close> Loops over the tree and over parents are structural or have a measure. The
  searches with a set of visited variables end because the unvisited variables shrink. The alias
  evaluations of \<open>Type_Resolution\<close> and of \<open>Dictionary_Types\<close> take fuel and answer \<open>None\<close> without enough of
  it; \<open>enough P\<close> says that \<open>P\<close> holds from some amount on, so a rule that is shown to answer for
  \<open>enough\<close> fuel returns; \<open>settled\<close> is the value it then returns.
  \<open>classifyUnsafeDictionary_diverges\<close> is the converse: no amount is enough. The token loop of the
  padding rule needs at most as many rounds as there are tokens. Outcomes of the padding rule tell fuel
  used up from an error thrown.

  \<^bold>\<open>Across files.\<close> \<open>memory\<close> is what outlives a file: the cache of environments that the modules share and
  a closure for every rule. Oxlint calls the handlers of all rules node by node; a handler touches the
  cache only at the root, before any other node, so the model runs one rule after the other.

  \<^bold>\<open>What is a parameter.\<close> Oxlint's results are fields of \<open>source_code\<close> and \<open>token_source\<close>: scopes,
  references, comments, tokens, visitor keys, and which nodes a selector matches. \<open>tokens_of\<close> states what
  its token queries are documented to answer, \<open>statement_class\<close> that the class \<open>:statement\<close> has none of the
  types the padding rule verifies by name.

  \<^bold>\<open>Limits.\<close> Names and texts are lists of characters below 256, except in the padding rule, whose texts are
  lists of UTF-16 code units. Numbers in literals are their decimal text. Tables are read by their own
  keys. A regular expression is the matcher of its language, with the order of choices where a result
  depends on it.

  \<^bold>\<open>Not modelled.\<close> The wrapper \<open>eslintCompatPlugin\<close> of Oxlint, taken as the identity; how Oxlint validates
  options against a schema and renders a message, of which only the form of a placeholder is used;
  symbolic links, permissions and Windows paths in the installer; the test client of the server under
  \<open>src/tests\<close>; and the server itself, which is Zig and C, outside the implementation covered here.
\<close>

end
